theory Spec2Isabelle
  imports Complex_Main
begin

section \<open>Data model of the shutdown bot\<close>

text \<open>
  The program verified here is \<^verbatim>\<open>shutdown-bot.py\<close>: it walks a gateway, the fleet hosts behind
  it and the nodes behind each fleet host over nested SSH sessions, powers the nodes off first,
  waits until each node is unreachable, then powers off the fleet host and finally the gateway.

  Everything the program does to the outside (SSH connections, remote commands, prompts, the
  environment, files, the clock) is a call to an operation of an explicit environment whose state
  has an arbitrary type \<open>'w\<close>; an operation may answer differently each time it is called. Every
  function of the program returns its result (\<open>Inl\<close> for a raised exception), the list of
  actions it performed, and the new state of the environment.

  The message literals of the source are Japanese text; they are kept symbolic, one constructor per
  literal, and the constructor's comment gives the line of the literal in the source.
\<close>

subsection \<open>Exceptions\<close>

text \<open>
  The exception classes that \<^verbatim>\<open>classify_failure\<close> tells apart. In paramiko
  \<^verbatim>\<open>AuthenticationException\<close>, \<^verbatim>\<open>BadHostKeyException\<close> and \<^verbatim>\<open>ChannelException\<close> are subclasses of
  \<^verbatim>\<open>SSHException\<close>; \<open>OtherException\<close> stands for every other subclass of \<^verbatim>\<open>Exception\<close>
  (socket errors, timeouts, \<^verbatim>\<open>RuntimeError\<close>, \<^verbatim>\<open>FileNotFoundError\<close>, ...).
\<close>

datatype exc_class =
    AuthenticationException
  | BadHostKeyException
  | ChannelException
  | SSHException
  | OtherException

text \<open>The prompt labels built in \<^verbatim>\<open>main\<close> (lines 407 and 411).\<close>

datatype prompt =
    FleetPasswordPrompt string  \<comment> \<open>line 407, with the fleet's name\<close>
  | GatewaySudoPrompt           \<comment> \<open>line 411\<close>

text \<open>
  \<^verbatim>\<open>str(exc)\<close>: free text, or the text built at line 331 from the name of the missing environment
  variable and the prompt label.
\<close>

datatype message =
    Text string
  | EnvUnset string prompt  \<comment> \<open>line 331\<close>

datatype exc = Exc (cls: exc_class) (msg: message)

fun is_subclass :: "exc_class \<Rightarrow> exc_class \<Rightarrow> bool" where
  "is_subclass AuthenticationException SSHException = True"
| "is_subclass BadHostKeyException SSHException = True"
| "is_subclass ChannelException SSHException = True"
| "is_subclass c d = (c = d)"

definition isinstance :: "exc \<Rightarrow> exc_class \<Rightarrow> bool" where
  "isinstance e c = is_subclass (cls e) c"

subsection \<open>Diagnosis and failure classification\<close>

datatype diag_note = Note_dns_failed  \<comment> \<open>line 247\<close>

text \<open>The dictionary built by \<^verbatim>\<open>diagnose_on_remote\<close> (line 224): always these five keys.\<close>

record Diagnosis =
  dns_ok :: "bool option"
  dns_ips :: "string list"
  tcp_ok :: "bool option"
  tcp_method :: "string option"
  diag_notes :: "diag_note list"

datatype reason =
    R_auth_failed        \<comment> \<open>line 267\<close>
  | R_host_key_mismatch  \<comment> \<open>line 269\<close>
  | R_dns_failed         \<comment> \<open>lines 273 and 503\<close>
  | R_tcp_unreachable    \<comment> \<open>lines 275 and 503\<close>
  | R_channel_failed     \<comment> \<open>line 276\<close>
  | R_ssh_exception      \<comment> \<open>line 278\<close>
  | R_unknown            \<comment> \<open>line 279\<close>

datatype hint =
    H_check_credentials  \<comment> \<open>line 267\<close>
  | H_known_hosts        \<comment> \<open>line 269\<close>
  | H_check_dns_on_hop   \<comment> \<open>line 273\<close>
  | H_check_route_on_hop \<comment> \<open>line 275\<close>
  | H_target_down        \<comment> \<open>line 276\<close>
  | H_check_network      \<comment> \<open>line 278\<close>
  | H_raw message        \<comment> \<open>line 279: \<^verbatim>\<open>str(exc)\<close>\<close>
  | H_precheck_dns       \<comment> \<open>line 504, first literal\<close>
  | H_precheck_route     \<comment> \<open>line 504, second literal\<close>

text \<open>
  \<^verbatim>\<open>classify_failure\<close> (lines 264-279). The second argument is \<^verbatim>\<open>None\<close> or a dictionary made by
  \<^verbatim>\<open>diagnose_on_remote\<close>, which is never empty and hence always true in \<^verbatim>\<open>if diag:\<close>.
\<close>

definition classify_failure :: "exc \<Rightarrow> Diagnosis option \<Rightarrow> reason \<times> hint" where
  "classify_failure e diag =
     (if isinstance e AuthenticationException then (R_auth_failed, H_check_credentials)
      else if isinstance e BadHostKeyException then (R_host_key_mismatch, H_known_hosts)
      else if isinstance e ChannelException then
        (case diag of
           Some d \<Rightarrow>
             if dns_ok d = Some False then (R_dns_failed, H_check_dns_on_hop)
             else if tcp_ok d = Some False then (R_tcp_unreachable, H_check_route_on_hop)
             else (R_channel_failed, H_target_down)
         | None \<Rightarrow> (R_channel_failed, H_target_down))
      else if isinstance e SSHException then (R_ssh_exception, H_check_network)
      else (R_unknown, H_raw (msg e)))"

text \<open>
  The table of the specification (section 4.4), read top to bottom: the first row whose condition
  holds gives the pair.
\<close>

datatype error_kind =
    Authentication_rejected
  | Host_key_mismatch
  | Channel_failure
  | Other_protocol_error
  | Anything_else

fun error_kind_of :: "exc_class \<Rightarrow> error_kind" where
  "error_kind_of AuthenticationException = Authentication_rejected"
| "error_kind_of BadHostKeyException = Host_key_mismatch"
| "error_kind_of ChannelException = Channel_failure"
| "error_kind_of SSHException = Other_protocol_error"
| "error_kind_of OtherException = Anything_else"

fun Classify_table :: "error_kind \<Rightarrow> bool option \<Rightarrow> bool option \<Rightarrow> message \<Rightarrow> reason \<times> hint" where
  "Classify_table Authentication_rejected dns tcp raw = (R_auth_failed, H_check_credentials)"
| "Classify_table Host_key_mismatch dns tcp raw = (R_host_key_mismatch, H_known_hosts)"
| "Classify_table Channel_failure (Some False) tcp raw = (R_dns_failed, H_check_dns_on_hop)"
| "Classify_table Channel_failure dns (Some False) raw = (R_tcp_unreachable, H_check_route_on_hop)"
| "Classify_table Channel_failure dns tcp raw = (R_channel_failed, H_target_down)"
| "Classify_table Other_protocol_error dns tcp raw = (R_ssh_exception, H_check_network)"
| "Classify_table Anything_else dns tcp raw = (R_unknown, H_raw raw)"

text \<open>An absent diagnosis has neither outcome.\<close>

definition Classify_spec :: "exc \<Rightarrow> Diagnosis option \<Rightarrow> reason \<times> hint" where
  "Classify_spec e diag =
     Classify_table (error_kind_of (cls e))
       (case diag of None \<Rightarrow> None | Some d \<Rightarrow> dns_ok d)
       (case diag of None \<Rightarrow> None | Some d \<Rightarrow> tcp_ok d)
       (msg e)"

subsection \<open>Sessions, commands and the environment\<close>

text \<open>
  An \<^verbatim>\<open>SSH\<close> object (lines 114-122) wraps a connected client and its transport. It is identified
  by what it is connected to and by the socket it was connected over: \<open>None\<close> for a direct
  connection, or the \<^verbatim>\<open>direct-tcpip\<close> channel opened through the transport of another session.
\<close>

datatype ssh = SSH (ssh_host: string) (ssh_user: string) (ssh_port: int) (ssh_sock: "channel option")
  and channel = Channel (ch_transport: ssh) (ch_dest: string) (ch_port: int)

datatype pkey = PKey string  \<comment> \<open>the key loaded from the given path\<close>

text \<open>
  The command lines sent to a remote host, one constructor per template of the source with the
  template's holes as arguments.
\<close>

datatype command =
    Raw string                  \<comment> \<open>the command as it is (line 293 without sudo)\<close>
  | Sudo_S string               \<comment> \<open>line 290\<close>
  | Getent_hosts string         \<comment> \<open>line 227\<close>
  | Getent_ahosts string        \<comment> \<open>line 228\<close>
  | Nslookup_awk string         \<comment> \<open>line 230\<close>
  | Nc_probe int string int     \<comment> \<open>line 249: \<^verbatim>\<open>NC_TIMEOUT\<close>, host, port\<close>
  | Dev_tcp_probe string int    \<comment> \<open>line 255\<close>

text \<open>An entry of the list \<^verbatim>\<open>issues\<close> (lines 485, 505 and 513).\<close>

record Issue =
  issue_stage :: string
  issue_via :: string
  issue_target :: string
  issue_reason :: reason
  issue_hint :: hint
  issue_diag :: Diagnosis
  issue_error :: message

text \<open>What a run does, in the order in which it does it.\<close>

datatype event =
    E_getpass prompt                      \<comment> \<open>\<^verbatim>\<open>getpass.getpass\<close>\<close>
  | E_environ string                      \<comment> \<open>\<^verbatim>\<open>os.environ.get\<close>\<close>
  | E_read_file string                    \<comment> \<open>\<^verbatim>\<open>open(path).read()\<close>\<close>
  | E_load_pkey string                    \<comment> \<open>\<^verbatim>\<open>load_pkey\<close>\<close>
  | E_connect ssh "exc option"            \<comment> \<open>\<^verbatim>\<open>connect_host\<close> and what came of it; \<open>None\<close>: the session is open\<close>
  | E_close ssh                           \<comment> \<open>\<^verbatim>\<open>SSH.close\<close>\<close>
  | E_open_channel ssh string int         \<comment> \<open>\<^verbatim>\<open>open_direct_tcpip_channel\<close>\<close>
  | E_run ssh command                     \<comment> \<open>a diagnostic command sent by \<^verbatim>\<open>_run\<close>\<close>
  | E_shutdown_host string ssh bool       \<comment> \<open>\<^verbatim>\<open>shutdown_host\<close> is invoked: tag, client, \<^verbatim>\<open>dry_run\<close>\<close>
  | E_exec ssh command "string option"    \<comment> \<open>\<^verbatim>\<open>run_remote_command\<close> sends the command (and the sudo password)\<close>
  | E_warn_exit string int                \<comment> \<open>line 318\<close>
  | E_wait ssh string int bool            \<comment> \<open>\<^verbatim>\<open>wait_for_host_down_via_transport\<close> is invoked, and its answer\<close>
  | E_issue Issue                         \<comment> \<open>\<^verbatim>\<open>issues.append\<close>\<close>
  | E_fatal reason hint exc               \<comment> \<open>lines 438-439\<close>
  | E_protect string string               \<comment> \<open>lines 534-535: node, fleet\<close>
  | E_skipped string                      \<comment> \<open>line 542\<close>

text \<open>
  The environment. Each operation gets the state of the environment and returns the next one.
  An operation that opens a channel or sleeps also tells how long it took; the clock a wait
  loop reads is the reading at its start plus the durations of what it did since.
\<close>

record 'w world =
  op_getpass :: "prompt \<Rightarrow> 'w \<Rightarrow> (exc + string) \<times> 'w"
  op_environ_get :: "string \<Rightarrow> 'w \<Rightarrow> string option"
  op_read_file :: "string \<Rightarrow> 'w \<Rightarrow> (exc + string) \<times> 'w"
  op_load_pkey :: "string \<Rightarrow> 'w \<Rightarrow> (exc + pkey) \<times> 'w"
  op_connect :: "ssh \<Rightarrow> pkey option \<Rightarrow> string option \<Rightarrow> 'w \<Rightarrow> exc option \<times> 'w"
  op_close :: "ssh \<Rightarrow> 'w \<Rightarrow> 'w"
  op_open_channel :: "ssh \<Rightarrow> string \<Rightarrow> int \<Rightarrow> real \<Rightarrow> 'w \<Rightarrow> (exc option \<times> real) \<times> 'w"
  op_close_channel :: "channel \<Rightarrow> 'w \<Rightarrow> 'w"
  op_exec_command ::
    "ssh \<Rightarrow> command \<Rightarrow> bool \<Rightarrow> int \<Rightarrow> string option \<Rightarrow> 'w
     \<Rightarrow> (exc + int \<times> string \<times> string) \<times> 'w"
  op_time :: "'w \<Rightarrow> real"
  op_sleep :: "real \<Rightarrow> 'w \<Rightarrow> real \<times> 'w"

text \<open>The module's globals, as \<^verbatim>\<open>load_config\<close> leaves them (lines 99-109 and 347-358).\<close>

record Globals =
  POWER_OFF_CMD :: string
  DEFAULT_NODE_SHUTDOWN_TIMEOUT :: int
  DEFAULT_POLL_INTERVAL :: int
  CHANNEL_OPEN_TIMEOUT :: int
  NC_TIMEOUT :: int

record Gateway =
  gw_host :: string
  gw_user :: string
  gw_pkey_path :: string
  gw_port :: int
  gw_needs_sudo_password :: bool
  gw_sudo_user :: "string option"

record Fleet =
  fl_name :: string
  fl_user :: string
  fl_password :: "string option"
  fl_nodes :: "string list"
  fl_port :: int
  fl_needs_sudo_password :: bool

text \<open>The command-line arguments that reach the orchestration (lines 387-390).\<close>

record Args =
  dry_run :: bool
  node_timeout :: "int option"
  poll_interval :: "int option"
  non_strict :: bool

subsection \<open>SSH utilities\<close>

text \<open>\<^verbatim>\<open>connect_host\<close> (lines 141-160).\<close>

definition connect_host ::
  "'w world \<Rightarrow> string \<Rightarrow> string \<Rightarrow> int \<Rightarrow> pkey option \<Rightarrow> string option \<Rightarrow> channel option \<Rightarrow> 'w
   \<Rightarrow> (exc + ssh) \<times> event list \<times> 'w" where
  "connect_host W host user port pk password sock w =
     (let s = SSH host user port sock in
      case op_connect W s pk password w of
        (Some e, w1) \<Rightarrow> (Inl e, [E_connect s (Some e)], w1)
      | (None, w1) \<Rightarrow> (Inr s, [E_connect s None], w1))"

text \<open>\<^verbatim>\<open>SSH.close\<close> (lines 118-122): whatever the client's \<^verbatim>\<open>close\<close> raises is swallowed.\<close>

definition ssh_close :: "'w world \<Rightarrow> ssh \<Rightarrow> 'w \<Rightarrow> event list \<times> 'w" where
  "ssh_close W s w = ([E_close s], op_close W s w)"

text \<open>\<^verbatim>\<open>open_direct_tcpip_channel\<close> (lines 162-168).\<close>

definition open_direct_tcpip_channel ::
  "'w world \<Rightarrow> Globals \<Rightarrow> ssh \<Rightarrow> string \<Rightarrow> int \<Rightarrow> 'w \<Rightarrow> (exc + channel) \<times> event list \<times> 'w" where
  "open_direct_tcpip_channel W G transport dest_host dest_port w =
     (case op_open_channel W transport dest_host dest_port (real_of_int (CHANNEL_OPEN_TIMEOUT G)) w of
        ((Some e, d), w1) \<Rightarrow> (Inl e, [E_open_channel transport dest_host dest_port], w1)
      | ((None, d), w1) \<Rightarrow>
          (Inr (Channel transport dest_host dest_port), [E_open_channel transport dest_host dest_port], w1))"

text \<open>
  \<^verbatim>\<open>is_ssh_reachable_via_transport\<close> (lines 170-184), called with its default timeout of 5
  seconds. Besides the answer it returns how long opening the channel took.
\<close>

definition is_ssh_reachable_via_transport ::
  "'w world \<Rightarrow> ssh \<Rightarrow> string \<Rightarrow> int \<Rightarrow> 'w \<Rightarrow> (bool \<times> real) \<times> 'w" where
  "is_ssh_reachable_via_transport W transport host port w =
     (case op_open_channel W transport host port 5 w of
        ((None, d), w1) \<Rightarrow> ((True, d), op_close_channel W (Channel transport host port) w1)
      | ((Some e, d), w1) \<Rightarrow> ((False, d), w1))"

text \<open>
  The loop of \<^verbatim>\<open>wait_for_host_down_via_transport\<close> (lines 197-207). \<open>now\<close> is the reading of
  \<^verbatim>\<open>time.time()\<close> at the loop test: a probe advances it by its duration (never backwards), a
  sleep by at least the interval asked for. The interval is \<^verbatim>\<open>max(1, poll_interval)\<close> (line 190),
  the same in every round. The result is the answer, the time of the return and the environment.
\<close>

function wait_loop ::
  "'w world \<Rightarrow> ssh \<Rightarrow> string \<Rightarrow> int \<Rightarrow> real \<Rightarrow> int \<Rightarrow> real \<Rightarrow> 'w \<Rightarrow> bool \<times> real \<times> 'w" where
  "wait_loop W transport host port deadline poll now w =
     (if now < deadline then
        (case is_ssh_reachable_via_transport W transport host port w of
           ((reachable, d), w1) \<Rightarrow>
             if \<not> reachable then (True, now + max 0 d, w1)
             else
               (case op_sleep W (real_of_int (max 1 poll)) w1 of
                  (slept, w2) \<Rightarrow>
                    wait_loop W transport host port deadline poll
                      (now + max 0 d + max (real_of_int (max 1 poll)) slept) w2))
      else (False, now, w))"
  by pat_completeness auto
termination
proof (relation "measure (\<lambda>(W, transport, host, port, deadline, poll, now, w). nat \<lceil>deadline - now\<rceil>)")
  show "wf (measure (\<lambda>(W, transport, host, port, deadline, poll, now, w). nat \<lceil>deadline - now\<rceil>))"
    by simp
next
  fix W :: "'w world" and transport host port deadline poll and now :: real and w :: 'w
    and x xa y xb and ya :: real and xc yb
  assume lt: "now < deadline"
  have step: "now + 1 \<le> now + max 0 ya + max (real_of_int (max 1 poll)) xc"
  proof -
    have "1 \<le> real_of_int (max 1 poll)" by simp
    then have "1 \<le> max (real_of_int (max 1 poll)) xc" by linarith
    moreover have "0 \<le> max 0 ya" by simp
    ultimately show ?thesis by linarith
  qed
  then have "deadline - (now + max 0 ya + max (real_of_int (max 1 poll)) xc) \<le> deadline - now - 1"
    by linarith
  then have "\<lceil>deadline - (now + max 0 ya + max (real_of_int (max 1 poll)) xc)\<rceil> \<le> \<lceil>deadline - now - 1\<rceil>"
    by (rule ceiling_mono)
  also have "\<dots> = \<lceil>deadline - now\<rceil> - 1" by simp
  finally have le: "\<lceil>deadline - (now + max 0 ya + max (real_of_int (max 1 poll)) xc)\<rceil> \<le> \<lceil>deadline - now\<rceil> - 1" .
  from lt have "0 < \<lceil>deadline - now\<rceil>" by simp
  with le show
    "((W, transport, host, port, deadline, poll, now + max 0 ya + max (real_of_int (max 1 poll)) xc, yb),
      (W, transport, host, port, deadline, poll, now, w))
     \<in> measure (\<lambda>(W, transport, host, port, deadline, poll, now, w). nat \<lceil>deadline - now\<rceil>)"
    by simp
qed

declare wait_loop.simps [simp del]

text \<open>\<^verbatim>\<open>wait_for_host_down_via_transport\<close> (lines 186-210).\<close>

definition wait_for_host_down_via_transport ::
  "'w world \<Rightarrow> ssh \<Rightarrow> string \<Rightarrow> int \<Rightarrow> int \<Rightarrow> int \<Rightarrow> 'w \<Rightarrow> (bool \<times> real) \<times> event list \<times> 'w" where
  "wait_for_host_down_via_transport W transport host port timeout_sec poll w =
     (let start = op_time W w;
          deadline = start + real_of_int timeout_sec
      in case wait_loop W transport host port deadline poll start w of
           (ok, finish, w1) \<Rightarrow> ((ok, finish), [E_wait transport host port ok], w1))"

subsection \<open>Strings\<close>

text \<open>
  Python's string methods used on the output of the diagnostic commands, on characters with
  code points below 256.
\<close>

definition py_isspace :: "char \<Rightarrow> bool" where
  "py_isspace c = (c \<in> set [CHR 0x09, CHR 0x0A, CHR 0x0B, CHR 0x0C, CHR 0x0D, CHR 0x1C, CHR 0x1D,
                             CHR 0x1E, CHR 0x1F, CHR 0x20, CHR 0x85, CHR 0xA0])"

definition py_isdigit_char :: "char \<Rightarrow> bool" where
  "py_isdigit_char c = (c \<in> set (''0123456789'' @ [CHR 0xB2, CHR 0xB3, CHR 0xB9]))"

definition py_is_linebreak :: "char \<Rightarrow> bool" where
  "py_is_linebreak c = (c \<in> set [CHR 0x0A, CHR 0x0B, CHR 0x0C, CHR 0x0D, CHR 0x1C, CHR 0x1D,
                                 CHR 0x1E, CHR 0x85])"

definition strip :: "string \<Rightarrow> string" where
  "strip s = rev (dropWhile py_isspace (rev (dropWhile py_isspace s)))"

text \<open>\<^verbatim>\<open>str.split()\<close> without arguments; \<open>cur\<close> is the token being read, reversed.\<close>

fun split_from :: "string \<Rightarrow> string \<Rightarrow> string list" where
  "split_from cur [] = (if cur = [] then [] else [rev cur])"
| "split_from cur (c # cs) =
     (if py_isspace c then (if cur = [] then split_from [] cs else rev cur # split_from [] cs)
      else split_from (c # cur) cs)"

definition split :: "string \<Rightarrow> string list" where
  "split s = split_from [] s"

text \<open>\<^verbatim>\<open>str.splitlines()\<close>; a carriage return followed by a line feed is one line break.\<close>

fun splitlines_from :: "string \<Rightarrow> string \<Rightarrow> string list" where
  "splitlines_from cur [] = (if cur = [] then [] else [rev cur])"
| "splitlines_from cur [c] =
     (if py_is_linebreak c then [rev cur] else [rev (c # cur)])"
| "splitlines_from cur (c # c' # cs) =
     (if c = CHR 0x0D \<and> c' = CHR 0x0A then rev cur # splitlines_from [] cs
      else if py_is_linebreak c then rev cur # splitlines_from [] (c' # cs)
      else splitlines_from (c # cur) (c' # cs))"

definition splitlines :: "string \<Rightarrow> string list" where
  "splitlines s = splitlines_from [] s"

text \<open>\<^verbatim>\<open>needle in s\<close>.\<close>

fun contains :: "string \<Rightarrow> string \<Rightarrow> bool" where
  "contains needle [] = (needle = [])"
| "contains needle (c # cs) = (take (length needle) (c # cs) = needle \<or> contains needle cs)"

text \<open>\<^verbatim>\<open>list(dict.fromkeys(xs))\<close>: the first occurrence of each element, in order.\<close>

definition unique :: "'a list \<Rightarrow> 'a list" where
  "unique xs = fold (\<lambda>x acc. if x \<in> set acc then acc else acc @ [x]) xs []"

subsection \<open>Diagnostic helpers\<close>

text \<open>
  \<^verbatim>\<open>_run\<close> (lines 215-220). Its default timeout is the value \<^verbatim>\<open>DIAG_CMD_TIMEOUT\<close> had when
  the function was defined, 10. Sending the command, waiting for its exit status and reading its
  output are one operation of the environment, which raises or gives the three results.
\<close>

definition remote_run ::
  "'w world \<Rightarrow> ssh \<Rightarrow> command \<Rightarrow> 'w \<Rightarrow> (exc + int \<times> string \<times> string) \<times> event list \<times> 'w" where
  "remote_run W ws_client cmd w =
     (case op_exec_command W ws_client cmd False 10 None w of
        (r, w1) \<Rightarrow> (r, [E_run ws_client cmd], w1))"

text \<open>The test of line 239 on one token.\<close>

definition is_address_token :: "string \<Rightarrow> bool" where
  "is_address_token tok =
     ((let t = filter (\<lambda>c. c \<noteq> CHR ''.'') tok in t \<noteq> [] \<and> list_all py_isdigit_char t)
      \<or> CHR '':'' \<in> set tok)"

text \<open>Lines 235-240: the tokens of the output that look like addresses.\<close>

definition parse_ips :: "string \<Rightarrow> string list" where
  "parse_ips out = concat (map (\<lambda>line. filter is_address_token (split (strip line))) (splitlines out))"

text \<open>The loop of lines 232-244 over the name-resolution commands still to try.\<close>

fun dns_loop ::
  "'w world \<Rightarrow> ssh \<Rightarrow> command list \<Rightarrow> Diagnosis \<Rightarrow> 'w \<Rightarrow> (exc + Diagnosis) \<times> event list \<times> 'w" where
  "dns_loop W ws_client [] result w = (Inr result, [], w)"
| "dns_loop W ws_client (cmd # cmds) result w =
     (case remote_run W ws_client cmd w of
        (Inl e, evs, w1) \<Rightarrow> (Inl e, evs, w1)
      | (Inr (rc, out, err), evs, w1) \<Rightarrow>
          if strip out \<noteq> [] \<and> parse_ips out \<noteq> [] then
            (Inr (result\<lparr>dns_ok := Some True, dns_ips := unique (parse_ips out)\<rparr>), evs, w1)
          else
            (case dns_loop W ws_client cmds result w1 of
               (r, evs2, w2) \<Rightarrow> (r, evs @ evs2, w2)))"

text \<open>Lines 248-261: the two TCP probes.\<close>

definition tcp_probe ::
  "'w world \<Rightarrow> Globals \<Rightarrow> ssh \<Rightarrow> string \<Rightarrow> int \<Rightarrow> Diagnosis \<Rightarrow> 'w
   \<Rightarrow> (exc + Diagnosis) \<times> event list \<times> 'w" where
  "tcp_probe W G ws_client target_host port result w =
     (case remote_run W ws_client (Nc_probe (NC_TIMEOUT G) target_host port) w of
        (Inl e, evs, w1) \<Rightarrow> (Inl e, evs, w1)
      | (Inr (rc, out, err), evs, w1) \<Rightarrow>
          if contains ''OK'' out then
            (Inr (result\<lparr>tcp_ok := Some True, tcp_method := Some ''nc''\<rparr>), evs, w1)
          else
            (case remote_run W ws_client (Dev_tcp_probe target_host port) w1 of
               (Inl e, evs2, w2) \<Rightarrow> (Inl e, evs @ evs2, w2)
             | (Inr (rc2, out2, err2), evs2, w2) \<Rightarrow>
                 if contains ''OK'' out2 then
                   (Inr (result\<lparr>tcp_ok := Some True, tcp_method := Some ''/dev/tcp''\<rparr>), evs @ evs2, w2)
                 else
                   (Inr (result\<lparr>tcp_ok := Some False, tcp_method := Some ''nc|/dev/tcp''\<rparr>),
                    evs @ evs2, w2)))"

text \<open>\<^verbatim>\<open>diagnose_on_remote\<close> (lines 222-262).\<close>

definition diagnose_on_remote ::
  "'w world \<Rightarrow> Globals \<Rightarrow> ssh \<Rightarrow> string \<Rightarrow> int \<Rightarrow> 'w \<Rightarrow> (exc + Diagnosis) \<times> event list \<times> 'w" where
  "diagnose_on_remote W G ws_client target_host port w =
     (case dns_loop W ws_client
             [Getent_hosts target_host, Getent_ahosts target_host, Nslookup_awk target_host]
             \<lparr>dns_ok = None, dns_ips = [], tcp_ok = None, tcp_method = None, diag_notes = []\<rparr> w of
        (Inl e, evs, w1) \<Rightarrow> (Inl e, evs, w1)
      | (Inr result, evs, w1) \<Rightarrow>
          (let result1 =
                 (if dns_ok result = None
                  then result\<lparr>dns_ok := Some False, diag_notes := diag_notes result @ [Note_dns_failed]\<rparr>
                  else result)
           in case tcp_probe W G ws_client target_host port result1 w1 of
                (r, evs2, w2) \<Rightarrow> (r, evs @ evs2, w2)))"

subsection \<open>Remote commands\<close>

text \<open>
  \<^verbatim>\<open>run_remote_command\<close> (lines 284-304), with its default timeout of 30. Sending the command,
  writing the sudo password to its input and reading its exit status are one operation of the
  environment.
\<close>

definition run_remote_command ::
  "'w world \<Rightarrow> ssh \<Rightarrow> string \<Rightarrow> bool \<Rightarrow> string option \<Rightarrow> 'w \<Rightarrow> (exc + int) \<times> event list \<times> 'w" where
  "run_remote_command W client cmd sudo sudo_password w =
     (let command = (if sudo then Sudo_S cmd else Raw cmd);
          written = (case sudo_password of
                       Some p \<Rightarrow> if sudo then Some (p @ [CHR 0x0A]) else None
                     | None \<Rightarrow> None)
      in case op_exec_command W client command True 30 written w of
           (Inl e, w1) \<Rightarrow> (Inl e, [E_exec client command written], w1)
         | (Inr (exit_status, out, err), w1) \<Rightarrow> (Inr exit_status, [E_exec client command written], w1))"

text \<open>\<^verbatim>\<open>shutdown_host\<close> (lines 306-318).\<close>

definition shutdown_host ::
  "'w world \<Rightarrow> Globals \<Rightarrow> string \<Rightarrow> ssh \<Rightarrow> bool \<Rightarrow> string option \<Rightarrow> bool \<Rightarrow> 'w
   \<Rightarrow> (exc + unit) \<times> event list \<times> 'w" where
  "shutdown_host W G tag client needs_sudo_password sudo_password dry w =
     (if dry then (Inr (), [E_shutdown_host tag client dry], w)
      else
        (case run_remote_command W client (POWER_OFF_CMD G) needs_sudo_password sudo_password w of
           (Inl e, evs, w1) \<Rightarrow> (Inl e, E_shutdown_host tag client dry # evs, w1)
         | (Inr code, evs, w1) \<Rightarrow>
             (Inr (),
              E_shutdown_host tag client dry # evs @ (if code \<noteq> 0 then [E_warn_exit tag code] else []),
              w1)))"

subsection \<open>Credentials\<close>

text \<open>\<^verbatim>\<open>_resolve_password\<close> (lines 323-337).\<close>

definition resolve_password ::
  "'w world \<Rightarrow> string option \<Rightarrow> prompt \<Rightarrow> 'w \<Rightarrow> (exc + string) \<times> event list \<times> 'w" where
  "resolve_password W val prompt_label w =
     (case val of
        None \<Rightarrow> (case op_getpass W prompt_label w of (r, w1) \<Rightarrow> (r, [E_getpass prompt_label], w1))
      | Some v \<Rightarrow>
          if take 4 v = ''env:'' then
            (let env_key = drop 4 v in
             case op_environ_get W env_key w of
               None \<Rightarrow> (Inl (Exc OtherException (EnvUnset env_key prompt_label)), [E_environ env_key], w)
             | Some x \<Rightarrow> (Inr x, [E_environ env_key], w))
          else if take 5 v = ''file:'' then
            (let path = drop 5 v in
             case op_read_file W path w of
               (Inl e, w1) \<Rightarrow> (Inl e, [E_read_file path], w1)
             | (Inr content, w1) \<Rightarrow> (Inr (strip content), [E_read_file path], w1))
          else (Inr v, [], w))"

text \<open>The loop of lines 405-407 that fills \<^verbatim>\<open>fleet_pw_map\<close>.\<close>

fun resolve_passwords ::
  "'w world \<Rightarrow> Fleet list \<Rightarrow> (string \<rightharpoonup> string) \<Rightarrow> 'w \<Rightarrow> (exc + (string \<rightharpoonup> string)) \<times> event list \<times> 'w" where
  "resolve_passwords W [] fleet_pw_map w = (Inr fleet_pw_map, [], w)"
| "resolve_passwords W (f # fs) fleet_pw_map w =
     (case resolve_password W (fl_password f) (FleetPasswordPrompt (fl_name f)) w of
        (Inl e, evs, w1) \<Rightarrow> (Inl e, evs, w1)
      | (Inr p, evs, w1) \<Rightarrow>
          (case resolve_passwords W fs (fleet_pw_map(fl_name f \<mapsto> p)) w1 of
             (r, evs2, w2) \<Rightarrow> (r, evs @ evs2, w2)))"

subsection \<open>The orchestration: one node\<close>

text \<open>
  The body of the loop over the nodes of a fleet (lines 497-538) in three parts: the \<^verbatim>\<open>try\<close>
  block that connects to the node, its \<^verbatim>\<open>except\<close> block, and the shutdown of a connected node
  with its \<^verbatim>\<open>finally\<close> block. Each returns the new value of \<^verbatim>\<open>parent_skip\<close>, or the exception
  that leaves the loop.
\<close>

text \<open>Lines 499-509: advisory pre-check, channel through the fleet host, connection.\<close>

definition node_try ::
  "'w world \<Rightarrow> Globals \<Rightarrow> Fleet \<Rightarrow> string \<Rightarrow> ssh \<Rightarrow> string \<Rightarrow> 'w \<Rightarrow> (exc + ssh) \<times> event list \<times> 'w" where
  "node_try W G f pw ws node w =
     (case diagnose_on_remote W G ws node (fl_port f) w of
        (Inl e, evs1, w1) \<Rightarrow> (Inl e, evs1, w1)
      | (Inr pre, evs1, w1) \<Rightarrow>
          (let evs2 =
                 (if dns_ok pre = Some False \<or> tcp_ok pre = Some False then
                    [E_issue \<lparr>issue_stage = ''node(precheck)'', issue_via = fl_name f, issue_target = node,
                              issue_reason = (if dns_ok pre = Some False then R_dns_failed else R_tcp_unreachable),
                              issue_hint = (if dns_ok pre = Some False then H_precheck_dns else H_precheck_route),
                              issue_diag = pre, issue_error = Text []\<rparr>]
                  else [])
           in case open_direct_tcpip_channel W G ws node (fl_port f) w1 of
                (Inl e, evs3, w2) \<Rightarrow> (Inl e, evs1 @ evs2 @ evs3, w2)
              | (Inr sock_node, evs3, w2) \<Rightarrow>
                  (case connect_host W node (fl_user f) (fl_port f) None (Some pw) (Some sock_node) w2 of
                     (r, evs4, w3) \<Rightarrow> (r, evs1 @ evs2 @ evs3 @ evs4, w3))))"

text \<open>Lines 510-519: the handler of a failed connection.\<close>

definition node_except ::
  "'w world \<Rightarrow> Globals \<Rightarrow> Args \<Rightarrow> Fleet \<Rightarrow> ssh \<Rightarrow> string \<Rightarrow> bool \<Rightarrow> exc \<Rightarrow> 'w
   \<Rightarrow> (exc + bool) \<times> event list \<times> 'w" where
  "node_except W G args f ws node parent_skip e w =
     (case diagnose_on_remote W G ws node (fl_port f) w of
        (Inl e2, evs, w1) \<Rightarrow> (Inl e2, evs, w1)
      | (Inr d, evs, w1) \<Rightarrow>
          (Inr (if \<not> dry_run args \<and> \<not> non_strict args then True else parent_skip),
           evs @ [E_issue \<lparr>issue_stage = ''node'', issue_via = fl_name f, issue_target = node,
                           issue_reason = fst (classify_failure e (Some d)),
                           issue_hint = snd (classify_failure e (Some d)),
                           issue_diag = d, issue_error = msg e\<rparr>],
           w1))"

text \<open>
  Lines 520-538: \<^verbatim>\<open>shutdown_host\<close> on the node and the \<^verbatim>\<open>finally\<close> block, which closes the
  node's session, waits for the node to go down unless in dry-run, and pauses. An exception of
  \<^verbatim>\<open>shutdown_host\<close> goes on after the \<^verbatim>\<open>finally\<close> block.
\<close>

definition node_shutdown ::
  "'w world \<Rightarrow> Globals \<Rightarrow> Args \<Rightarrow> Fleet \<Rightarrow> string \<Rightarrow> ssh \<Rightarrow> string \<Rightarrow> ssh \<Rightarrow> bool \<Rightarrow> 'w
   \<Rightarrow> (exc + bool) \<times> event list \<times> 'w" where
  "node_shutdown W G args f pw ws node node_cli parent_skip w =
     (case shutdown_host W G node node_cli (fl_needs_sudo_password f) (Some pw) (dry_run args) w of
        (r, evs1, w1) \<Rightarrow>
          (case ssh_close W node_cli w1 of
             (evs2, w2) \<Rightarrow>
               (case (if \<not> dry_run args then
                        (case wait_for_host_down_via_transport W ws node (fl_port f)
                                (case node_timeout args of None \<Rightarrow> DEFAULT_NODE_SHUTDOWN_TIMEOUT G | Some t \<Rightarrow> t)
                                (case poll_interval args of None \<Rightarrow> DEFAULT_POLL_INTERVAL G | Some i \<Rightarrow> i)
                                w2 of
                           ((ok, finish), evs3, w3) \<Rightarrow>
                             if \<not> ok \<and> \<not> non_strict args
                             then (True, evs3 @ [E_protect node (fl_name f)], w3)
                             else (parent_skip, evs3, w3))
                      else (parent_skip, [], w2)) of
                  (parent_skip', evs3, w3) \<Rightarrow>
                    (case op_sleep W (1 / 5) w3 of
                       (slept, w4) \<Rightarrow>
                         (case r of
                            Inl e \<Rightarrow> (Inl e, evs1 @ evs2 @ evs3, w4)
                          | Inr u \<Rightarrow> (Inr parent_skip', evs1 @ evs2 @ evs3, w4))))))"

definition process_node ::
  "'w world \<Rightarrow> Globals \<Rightarrow> Args \<Rightarrow> Fleet \<Rightarrow> string \<Rightarrow> ssh \<Rightarrow> string \<Rightarrow> bool \<Rightarrow> 'w
   \<Rightarrow> (exc + bool) \<times> event list \<times> 'w" where
  "process_node W G args f pw ws node parent_skip w =
     (case node_try W G f pw ws node w of
        (Inl e, evs1, w1) \<Rightarrow>
          (case node_except W G args f ws node parent_skip e w1 of
             (r, evs2, w2) \<Rightarrow> (r, evs1 @ evs2, w2))
      | (Inr node_cli, evs1, w1) \<Rightarrow>
          (case node_shutdown W G args f pw ws node node_cli parent_skip w1 of
             (r, evs2, w2) \<Rightarrow> (r, evs1 @ evs2, w2)))"

text \<open>The loop of line 496 over the nodes still to process.\<close>

fun nodes_loop ::
  "'w world \<Rightarrow> Globals \<Rightarrow> Args \<Rightarrow> Fleet \<Rightarrow> string \<Rightarrow> ssh \<Rightarrow> string list \<Rightarrow> bool \<Rightarrow> 'w
   \<Rightarrow> (exc + bool) \<times> event list \<times> 'w" where
  "nodes_loop W G args f pw ws [] parent_skip w = (Inr parent_skip, [], w)"
| "nodes_loop W G args f pw ws (node # nodes) parent_skip w =
     (case process_node W G args f pw ws node parent_skip w of
        (Inl e, evs, w1) \<Rightarrow> (Inl e, evs, w1)
      | (Inr parent_skip', evs, w1) \<Rightarrow>
          (case nodes_loop W G args f pw ws nodes parent_skip' w1 of
             (r, evs2, w2) \<Rightarrow> (r, evs @ evs2, w2)))"

subsection \<open>The orchestration: one fleet\<close>

text \<open>Lines 479-480: channel through the gateway, connection to the fleet host.\<close>

definition fleet_try ::
  "'w world \<Rightarrow> Globals \<Rightarrow> ssh \<Rightarrow> Fleet \<Rightarrow> string \<Rightarrow> 'w \<Rightarrow> (exc + ssh) \<times> event list \<times> 'w" where
  "fleet_try W G gw_conn f pw w =
     (case open_direct_tcpip_channel W G gw_conn (fl_name f) (fl_port f) w of
        (Inl e, evs1, w1) \<Rightarrow> (Inl e, evs1, w1)
      | (Inr sock_ws, evs1, w1) \<Rightarrow>
          (case connect_host W (fl_name f) (fl_user f) (fl_port f) None (Some pw) (Some sock_ws) w1 of
             (r, evs2, w2) \<Rightarrow> (r, evs1 @ evs2, w2)))"

text \<open>Lines 481-491: the handler of a failed connection to the fleet host.\<close>

definition fleet_except ::
  "'w world \<Rightarrow> Globals \<Rightarrow> ssh \<Rightarrow> Fleet \<Rightarrow> exc \<Rightarrow> 'w \<Rightarrow> (exc + unit) \<times> event list \<times> 'w" where
  "fleet_except W G gw_conn f e w =
     (case diagnose_on_remote W G gw_conn (fl_name f) (fl_port f) w of
        (Inl e2, evs, w1) \<Rightarrow> (Inl e2, evs, w1)
      | (Inr d, evs, w1) \<Rightarrow>
          (Inr (),
           evs @ [E_issue \<lparr>issue_stage = ''workstation'', issue_via = ''triton'', issue_target = fl_name f,
                           issue_reason = fst (classify_failure e (Some d)),
                           issue_hint = snd (classify_failure e (Some d)),
                           issue_diag = d, issue_error = msg e\<rparr>],
           w1))"

text \<open>
  Lines 494-552: the nodes, then the fleet host unless \<^verbatim>\<open>parent_skip\<close> is set, and the
  \<^verbatim>\<open>finally\<close> block that closes the fleet host's session and pauses.
\<close>

definition fleet_body ::
  "'w world \<Rightarrow> Globals \<Rightarrow> Args \<Rightarrow> Fleet \<Rightarrow> string \<Rightarrow> ssh \<Rightarrow> 'w \<Rightarrow> (exc + unit) \<times> event list \<times> 'w" where
  "fleet_body W G args f pw ws w =
     (case (case nodes_loop W G args f pw ws (fl_nodes f) False w of
              (Inl e, evs1, w1) \<Rightarrow> (Inl e, evs1, w1)
            | (Inr parent_skip, evs1, w1) \<Rightarrow>
                if parent_skip then (Inr (), evs1 @ [E_skipped (fl_name f)], w1)
                else
                  (case shutdown_host W G (fl_name f) ws (fl_needs_sudo_password f) (Some pw)
                          (dry_run args) w1 of
                     (r, evs2, w2) \<Rightarrow> (r, evs1 @ evs2, w2))) of
        (r, evs, w3) \<Rightarrow>
          (case ssh_close W ws w3 of
             (evs3, w4) \<Rightarrow>
               (case op_sleep W (1 / 5) w4 of
                  (slept, w5) \<Rightarrow> (r, evs @ evs3, w5))))"

text \<open>The body of the loop over the fleets (lines 475-552).\<close>

definition process_fleet ::
  "'w world \<Rightarrow> Globals \<Rightarrow> Args \<Rightarrow> ssh \<Rightarrow> (string \<rightharpoonup> string) \<Rightarrow> Fleet \<Rightarrow> 'w
   \<Rightarrow> (exc + unit) \<times> event list \<times> 'w" where
  "process_fleet W G args gw_conn fleet_pw_map f w =
     (case fleet_pw_map (fl_name f) of
        None \<Rightarrow> (Inl (Exc OtherException (Text ''KeyError'')), [], w)
      | Some pw \<Rightarrow>
          (case fleet_try W G gw_conn f pw w of
             (Inl e, evs1, w1) \<Rightarrow>
               (case fleet_except W G gw_conn f e w1 of
                  (r, evs2, w2) \<Rightarrow> (r, evs1 @ evs2, w2))
           | (Inr ws, evs1, w1) \<Rightarrow>
               (case fleet_body W G args f pw ws w1 of
                  (r, evs2, w2) \<Rightarrow> (r, evs1 @ evs2, w2))))"

text \<open>The loop of line 474 over the fleets still to process.\<close>

fun fleets_loop ::
  "'w world \<Rightarrow> Globals \<Rightarrow> Args \<Rightarrow> ssh \<Rightarrow> (string \<rightharpoonup> string) \<Rightarrow> Fleet list \<Rightarrow> 'w
   \<Rightarrow> (exc + unit) \<times> event list \<times> 'w" where
  "fleets_loop W G args gw_conn fleet_pw_map [] w = (Inr (), [], w)"
| "fleets_loop W G args gw_conn fleet_pw_map (f # fs) w =
     (case process_fleet W G args gw_conn fleet_pw_map f w of
        (Inl e, evs, w1) \<Rightarrow> (Inl e, evs, w1)
      | (Inr u, evs, w1) \<Rightarrow>
          (case fleets_loop W G args gw_conn fleet_pw_map fs w1 of
             (r, evs2, w2) \<Rightarrow> (r, evs @ evs2, w2)))"

subsection \<open>The orchestration: the run\<close>

text \<open>
  Lines 471-566: with the gateway connected, all fleets, then the gateway's shutdown, and the
  \<^verbatim>\<open>finally\<close> block that closes the gateway's session.
\<close>

definition gateway_body ::
  "'w world \<Rightarrow> Globals \<Rightarrow> Args \<Rightarrow> Gateway \<Rightarrow> Fleet list \<Rightarrow> (string \<rightharpoonup> string) \<Rightarrow> string option \<Rightarrow> ssh \<Rightarrow> 'w
   \<Rightarrow> (exc + unit) \<times> event list \<times> 'w" where
  "gateway_body W G args gw fleets fleet_pw_map gw_sudo_pw gw_conn w =
     (case (case fleets_loop W G args gw_conn fleet_pw_map fleets w of
              (Inl e, evs1, w1) \<Rightarrow> (Inl e, evs1, w1)
            | (Inr u, evs1, w1) \<Rightarrow>
                (case shutdown_host W G ''triton'' gw_conn (gw_needs_sudo_password gw) gw_sudo_pw
                        (dry_run args) w1 of
                   (r, evs2, w2) \<Rightarrow> (r, evs1 @ evs2, w2))) of
        (r, evs, w3) \<Rightarrow>
          (case ssh_close W gw_conn w3 of
             (evs3, w4) \<Rightarrow> (r, evs @ evs3, w4)))"

text \<open>
  \<^verbatim>\<open>main\<close> (lines 384-592) from the loaded configuration on: the passwords of all fleets, the
  gateway's sudo password, the gateway's key, the connection to the gateway, and the rest. The
  result is \<open>Inr ()\<close> when \<^verbatim>\<open>main\<close> returns and \<open>Inl e\<close> when the exception \<open>e\<close> leaves it.
  The console, the progress bar and the printed lines other than those listed as events are left
  out.
\<close>

definition main ::
  "'w world \<Rightarrow> Globals \<Rightarrow> Args \<Rightarrow> Gateway \<Rightarrow> Fleet list \<Rightarrow> 'w \<Rightarrow> (exc + unit) \<times> event list \<times> 'w" where
  "main W G args gw fleets w =
     (case resolve_passwords W fleets Map.empty w of
        (Inl e, evs1, w1) \<Rightarrow> (Inl e, evs1, w1)
      | (Inr fleet_pw_map, evs1, w1) \<Rightarrow>
          (case (if gw_needs_sudo_password gw then
                   (case op_getpass W GatewaySudoPrompt w1 of
                      (Inl e, w2) \<Rightarrow> (Inl e, [E_getpass GatewaySudoPrompt], w2)
                    | (Inr p, w2) \<Rightarrow> (Inr (Some p), [E_getpass GatewaySudoPrompt], w2))
                 else (Inr None, [], w1)) of
             (Inl e, evs2, w2) \<Rightarrow> (Inl e, evs1 @ evs2, w2)
           | (Inr gw_sudo_pw, evs2, w2) \<Rightarrow>
               (case op_load_pkey W (gw_pkey_path gw) w2 of
                  (Inl e, w3) \<Rightarrow> (Inl e, evs1 @ evs2 @ [E_load_pkey (gw_pkey_path gw)], w3)
                | (Inr pk, w3) \<Rightarrow>
                    (case connect_host W (gw_host gw) (gw_user gw) (gw_port gw) (Some pk) None None w3 of
                       (Inl e, evs3, w4) \<Rightarrow>
                         (Inr (),
                          evs1 @ evs2 @ [E_load_pkey (gw_pkey_path gw)] @ evs3 @
                          [E_fatal (fst (classify_failure e None)) (snd (classify_failure e None)) e],
                          w4)
                     | (Inr gw_conn, evs3, w4) \<Rightarrow>
                         (case gateway_body W G args gw fleets fleet_pw_map gw_sudo_pw gw_conn w4 of
                            (r, evs4, w5) \<Rightarrow>
                              (r, evs1 @ evs2 @ [E_load_pkey (gw_pkey_path gw)] @ evs3 @ evs4, w5))))))"

text \<open>The list \<^verbatim>\<open>issues\<close> at the end of a run: what was appended, in order.\<close>

definition issues_of :: "event list \<Rightarrow> Issue list" where
  "issues_of evs = concat (map (\<lambda>ev. case ev of E_issue i \<Rightarrow> [i] | _ \<Rightarrow> []) evs)"

text \<open>
  The session values the orchestration builds: the session to a fleet host runs over a channel
  through the gateway's session, the session to a node over a channel through the fleet host's.
\<close>

abbreviation node_ssh :: "Fleet \<Rightarrow> ssh \<Rightarrow> string \<Rightarrow> ssh" where
  "node_ssh f ws node \<equiv> SSH node (fl_user f) (fl_port f) (Some (Channel ws node (fl_port f)))"

abbreviation fleet_ssh :: "ssh \<Rightarrow> Fleet \<Rightarrow> ssh" where
  "fleet_ssh gw_conn f \<equiv> SSH (fl_name f) (fl_user f) (fl_port f) (Some (Channel gw_conn (fl_name f) (fl_port f)))"

subsection \<open>Reading the list of actions\<close>


text \<open>
  The sessions that are open after a list of actions, most recently opened first, starting from
  the sessions \<open>st\<close>: a successful \<^verbatim>\<open>connect_host\<close> opens a session, \<^verbatim>\<open>SSH.close\<close> closes one.
  The result is \<open>None\<close> if a close does not close the most recently opened session that is
  still open; so \<open>Some []\<close> from \<open>[]\<close> says that every session that was opened was closed
  once, and nothing else was closed.
\<close>

fun open_sessions :: "event list \<Rightarrow> ssh list \<Rightarrow> ssh list option" where
  "open_sessions [] st = Some st"
| "open_sessions (E_connect s None # evs) st = open_sessions evs (s # st)"
| "open_sessions (E_close s # evs) st =
     (case st of [] \<Rightarrow> None | t # st' \<Rightarrow> if t = s then open_sessions evs st' else None)"
| "open_sessions (e # evs) st = open_sessions evs st"

text \<open>The sessions opened and the sessions closed by a list of actions, in order.\<close>

definition opened :: "event list \<Rightarrow> ssh list" where
  "opened evs = concat (map (\<lambda>ev. case ev of E_connect s None \<Rightarrow> [s] | _ \<Rightarrow> []) evs)"

definition closed :: "event list \<Rightarrow> ssh list" where
  "closed evs = concat (map (\<lambda>ev. case ev of E_close s \<Rightarrow> [s] | _ \<Rightarrow> []) evs)"


text \<open>The actions that open or close a session.\<close>

fun session_event :: "event \<Rightarrow> bool" where
  "session_event (E_connect s None) = True"
| "session_event (E_close s) = True"
| "session_event _ = False"

text \<open>
  An environment keeps a record of its sessions when some reading \<open>ledger\<close> of its state grows
  by one entry with every connection it establishes and with every close it is asked for, and
  with nothing else.
\<close>

definition records_sessions :: "'w world \<Rightarrow> ('w \<Rightarrow> event list) \<Rightarrow> bool" where
  "records_sessions W ledger \<longleftrightarrow>
     (\<forall>s pk pw w. ledger (snd (op_connect W s pk pw w)) =
        ledger w @ (case fst (op_connect W s pk pw w) of None \<Rightarrow> [E_connect s None] | Some e \<Rightarrow> [])) \<and>
     (\<forall>s w. ledger (op_close W s w) = ledger w @ [E_close s]) \<and>
     (\<forall>p w. ledger (snd (op_getpass W p w)) = ledger w) \<and>
     (\<forall>p w. ledger (snd (op_read_file W p w)) = ledger w) \<and>
     (\<forall>p w. ledger (snd (op_load_pkey W p w)) = ledger w) \<and>
     (\<forall>s h p t w. ledger (snd (op_open_channel W s h p t w)) = ledger w) \<and>
     (\<forall>c w. ledger (op_close_channel W c w) = ledger w) \<and>
     (\<forall>s c pty t i w. ledger (snd (op_exec_command W s c pty t i w)) = ledger w) \<and>
     (\<forall>d w. ledger (snd (op_sleep W d w)) = ledger w)"

subsection \<open>Example configuration and environments\<close>

text \<open>The module's globals before any configuration overrides them (lines 99-109).\<close>

definition default_globals :: Globals where
  "default_globals =
     \<lparr>POWER_OFF_CMD = ''shutdown -h now'', DEFAULT_NODE_SHUTDOWN_TIMEOUT = 600,
      DEFAULT_POLL_INTERVAL = 5, CHANNEL_OPEN_TIMEOUT = 10, NC_TIMEOUT = 3\<rparr>"

text \<open>
  An environment in which every operation succeeds at once: prompts and files give a secret, no
  environment variable is set, connections and channels open, every command exits with status 0
  and prints nothing, and a sleep lasts exactly as long as asked. Its state counts nothing; the
  environments below that answer differently from call to call use it as a counter.
\<close>

definition env_calm :: "nat world" where
  "env_calm =
     \<lparr>op_getpass = (\<lambda>p w. (Inr ''secret'', w)),
      op_environ_get = (\<lambda>k w. None),
      op_read_file = (\<lambda>p w. (Inr ''secret'', w)),
      op_load_pkey = (\<lambda>p w. (Inr (PKey p), w)),
      op_connect = (\<lambda>s pk pw w. (None, w)),
      op_close = (\<lambda>s w. w),
      op_open_channel = (\<lambda>s h p t w. ((None, 0), w)),
      op_close_channel = (\<lambda>c w. w),
      op_exec_command = (\<lambda>s c pty t i w. (Inr (0, [], []), w)),
      op_time = (\<lambda>w. 0),
      op_sleep = (\<lambda>d w. (d, w))\<rparr>"

text \<open>The session of the hop has died: every command sent over any session raises.\<close>

definition env_dead_session :: "nat world" where
  "env_dead_session =
     env_calm\<lparr>op_exec_command :=
       (\<lambda>s c pty t i w. (Inl (Exc SSHException (Text ''SSH session not active'')), w))\<rparr>"

text \<open>The target is down: no channel can be opened to any destination.\<close>

definition env_target_down :: "nat world" where
  "env_target_down =
     env_calm\<lparr>op_open_channel :=
       (\<lambda>s h p t w. ((Some (Exc ChannelException (Text ''Connect failed'')), 0), w))\<rparr>"

text \<open>
  Every node rejects the password: a connection over a channel through a fleet host's session
  fails to authenticate, every other connection succeeds.
\<close>

definition env_node_rejects :: "nat world" where
  "env_node_rejects =
     env_calm\<lparr>op_connect :=
       (\<lambda>s pk pw w.
          (case ssh_sock s of
             Some (Channel (SSH h u p (Some c)) h' p') \<Rightarrow>
               Some (Exc AuthenticationException (Text ''Authentication failed.''))
           | _ \<Rightarrow> None,
           w))\<rparr>"

text \<open>
  The first command sent raises (the channel for it cannot be opened in time), every later one
  runs. The state counts the commands sent.
\<close>

definition env_first_command_fails :: "nat world" where
  "env_first_command_fails =
     env_calm\<lparr>op_exec_command :=
       (\<lambda>s c pty t i w.
          (if w = 0 then Inl (Exc SSHException (Text ''Timeout opening channel.''))
           else Inr (0, [], []),
           Suc w))\<rparr>"

text \<open>No credential file can be read.\<close>

definition env_no_file :: "nat world" where
  "env_no_file =
     env_calm\<lparr>op_read_file :=
       (\<lambda>p w. (Inl (Exc OtherException (Text ''No such file or directory'')), w))\<rparr>"

text \<open>
  Hosts that stay up and answer: every diagnostic command prints an address and \<^verbatim>\<open>OK\<close>, and
  every probe finds the host reachable.
\<close>

definition env_stays_up :: "nat world" where
  "env_stays_up =
     env_calm\<lparr>op_exec_command := (\<lambda>s c pty t i w. (Inr (0, ''10.0.0.5 OK'', []), w))\<rparr>"

text \<open>
  The connection drops while the power-off command runs: a command sent with a pseudo-terminal
  (\<^verbatim>\<open>run_remote_command\<close>) raises, the diagnostic commands answer as above.
\<close>

definition env_shutdown_drops :: "nat world" where
  "env_shutdown_drops =
     env_calm\<lparr>op_exec_command :=
       (\<lambda>s c pty t i w.
          (if pty then Inl (Exc SSHException (Text ''Channel closed.''))
           else Inr (0, ''10.0.0.5 OK'', []),
           w))\<rparr>"

text \<open>
  The gateway refuses the key: a direct connection fails to authenticate, a connection over a
  channel succeeds.
\<close>

definition env_gateway_refuses :: "nat world" where
  "env_gateway_refuses =
     env_calm\<lparr>op_connect :=
       (\<lambda>s pk pw w.
          (case ssh_sock s of
             None \<Rightarrow> Some (Exc AuthenticationException (Text ''Authentication failed.''))
           | Some c \<Rightarrow> None,
           w))\<rparr>"

text \<open>The session of the hop has died and the target is down: no channel opens, every command raises.\<close>

definition env_hop_lost :: "nat world" where
  "env_hop_lost =
     env_target_down\<lparr>op_exec_command :=
       (\<lambda>s c pty t i w. (Inl (Exc SSHException (Text ''SSH session not active'')), w))\<rparr>"

text \<open>The host stays up and answers slowly: opening a channel succeeds after 0.9 seconds.\<close>

definition env_slow_probe :: "nat world" where
  "env_slow_probe = env_calm\<lparr>op_open_channel := (\<lambda>s h p t w. ((None, 9 / 10), w))\<rparr>"

text \<open>The host is down and silent: opening a channel fails after 5 seconds.\<close>

definition env_slow_refusal :: "nat world" where
  "env_slow_refusal =
     env_calm\<lparr>op_open_channel :=
       (\<lambda>s h p t w. ((Some (Exc OtherException (Text ''timed out'')), 5), w))\<rparr>"

text \<open>A loaded machine: every sleep lasts 1.5 seconds longer than asked.\<close>

definition env_oversleeps :: "nat world" where
  "env_oversleeps = env_calm\<lparr>op_sleep := (\<lambda>d w. (d + 3 / 2, w))\<rparr>"

text \<open>
  An environment whose state is the list of the sessions it established and of the closes it
  was asked for. Hosts answer and stay up, diagnostic commands print nothing, and a command
  sent with a pseudo-terminal (\<^verbatim>\<open>run_remote_command\<close>) raises.
\<close>

definition env_recording :: "event list world" where
  "env_recording =
     \<lparr>op_getpass = (\<lambda>p w. (Inr ''secret'', w)),
      op_environ_get = (\<lambda>k w. None),
      op_read_file = (\<lambda>p w. (Inr ''secret'', w)),
      op_load_pkey = (\<lambda>p w. (Inr (PKey p), w)),
      op_connect = (\<lambda>s pk pw w. (None, w @ [E_connect s None])),
      op_close = (\<lambda>s w. w @ [E_close s]),
      op_open_channel = (\<lambda>s h p t w. ((None, 0), w)),
      op_close_channel = (\<lambda>c w. w),
      op_exec_command =
        (\<lambda>s c pty t i w.
           (if pty then Inl (Exc SSHException (Text ''Channel closed.''))
            else Inr (0, [], []),
            w)),
      op_time = (\<lambda>w. 0),
      op_sleep = (\<lambda>d w. (d, w))\<rparr>"

definition gw0 :: Gateway where
  "gw0 = \<lparr>gw_host = ''triton'', gw_user = ''admin'', gw_pkey_path = ''~/.ssh/id_ed25519'',
          gw_port = 22, gw_needs_sudo_password = False, gw_sudo_user = None\<rparr>"

definition gw_conn0 :: ssh where
  "gw_conn0 = SSH ''triton'' ''admin'' 22 None"

definition ws0 :: ssh where
  "ws0 = SSH ''ws1'' ''op'' 22 (Some (Channel gw_conn0 ''ws1'' 22))"

definition fleet1 :: Fleet where
  "fleet1 = \<lparr>fl_name = ''ws1'', fl_user = ''op'', fl_password = Some ''pw'', fl_nodes = [''node1''],
             fl_port = 22, fl_needs_sudo_password = True\<rparr>"

definition args_live :: Args where
  "args_live = \<lparr>dry_run = False, node_timeout = None, poll_interval = None, non_strict = False\<rparr>"

definition args_dry :: Args where
  "args_dry = \<lparr>dry_run = True, node_timeout = None, poll_interval = None, non_strict = False\<rparr>"

definition fleet_file :: Fleet where
  "fleet_file = \<lparr>fl_name = ''ws1'', fl_user = ''op'', fl_password = Some ''file:/etc/ws1.pw'',
                 fl_nodes = [''node1''], fl_port = 22, fl_needs_sudo_password = True\<rparr>"

definition fleet_env :: Fleet where
  "fleet_env = \<lparr>fl_name = ''ws2'', fl_user = ''op'', fl_password = Some ''env:MYPASS'',
                fl_nodes = [''node2''], fl_port = 22, fl_needs_sudo_password = True\<rparr>"

definition args_live_fast :: Args where
  "args_live_fast = \<lparr>dry_run = False, node_timeout = Some 1, poll_interval = Some 1, non_strict = False\<rparr>"

definition fleet2 :: Fleet where
  "fleet2 = \<lparr>fl_name = ''ws2'', fl_user = ''op'', fl_password = Some ''pw2'', fl_nodes = [''node2''],
             fl_port = 22, fl_needs_sudo_password = False\<rparr>"

section \<open>Failure classification\<close>

text \<open>
  C7. \<^verbatim>\<open>classify_failure\<close> is a function of its two arguments alone and returns a pair for every
  error and every optional diagnosis; the pair is the one the table of the specification gives
  (authentication rejected, host-key mismatch, channel failure with failed name resolution,
  channel failure with failed TCP connect, channel failure without actionable diagnosis, other
  protocol error, anything else with the raw error text); and the diagnosis is looked at only
  when the error is a channel failure.
\<close>

theorem classify_failure_table:
  "classify_failure e diag = Classify_spec e diag \<and>
   classify_failure e diag = classify_failure e (if cls e = ChannelException then diag else None)"
proof -
  have tab: "classify_failure e diag = Classify_spec e diag"
  proof (cases e)
    case (Exc c m)
    show ?thesis
    proof (cases diag)
      case None
      with Exc show ?thesis
        by (cases c) (simp_all add: classify_failure_def Classify_spec_def isinstance_def)
    next
      case (Some d)
      show ?thesis
      proof (cases "dns_ok d = Some False")
        case True
        with Exc Some show ?thesis
          by (cases c) (simp_all add: classify_failure_def Classify_spec_def isinstance_def)
      next
        case nodns: False
        show ?thesis
        proof (cases "tcp_ok d = Some False")
          case True
          with Exc Some nodns show ?thesis
            by (cases c; cases "dns_ok d"; simp add: classify_failure_def Classify_spec_def isinstance_def)
        next
          case False
          with Exc Some nodns show ?thesis
            by (cases c; cases "dns_ok d"; cases "tcp_ok d";
                simp add: classify_failure_def Classify_spec_def isinstance_def)
        qed
      qed
    qed
  qed
  have prec: "cls e \<noteq> ChannelException \<Longrightarrow> classify_failure e diag = classify_failure e None"
    by (cases e; cases "cls e") (simp_all add: classify_failure_def isinstance_def)
  from tab prec show ?thesis by simp
qed

section \<open>Remote diagnosis\<close>

text \<open>
  What \<^verbatim>\<open>diagnose_on_remote\<close> returns when the commands it sends return: the loop over the
  name-resolution commands either leaves the result as it was or records addresses; the TCP
  probes always decide \<open>tcp_ok\<close>.
\<close>

lemma remote_run_cases:
  "remote_run W s cmd w = (r, evs, w') \<Longrightarrow>
     evs = [E_run s cmd] \<and> (r, w') = op_exec_command W s cmd False 10 None w"
  by (auto simp: remote_run_def split: prod.splits)

lemma dns_loop_result:
  "dns_loop W s cmds result w = (Inr D, evs, w') \<Longrightarrow>
     D = result \<or> (\<exists>ips. D = result\<lparr>dns_ok := Some True, dns_ips := ips\<rparr>)"
proof (induction cmds arbitrary: w evs)
  case Nil
  then show ?case by simp
next
  case (Cons cmd cmds)
  then show ?case
    by (auto split: prod.splits sum.splits if_splits)
qed

lemma dns_loop_total:
  assumes "\<forall>cmd w'. \<exists>r w''. op_exec_command W s cmd False 10 None w' = (Inr r, w'')"
  shows "\<exists>D evs w'. dns_loop W s cmds result w = (Inr D, evs, w')"
proof (induction cmds arbitrary: w)
  case Nil
  then show ?case by simp
next
  case (Cons cmd cmds)
  from assms obtain r w1 where ex: "op_exec_command W s cmd False 10 None w = (Inr r, w1)" by blast
  obtain rc out err where r: "r = (rc, out, err)" by (cases r) auto
  from Cons[of w1] obtain D evs w' where "dns_loop W s cmds result w1 = (Inr D, evs, w')" by blast
  with ex r show ?case
    by (simp add: remote_run_def)
qed

lemma dns_loop_unresolved:
  assumes "\<forall>cmd\<in>set cmds. \<forall>w' rc out err w''.
             op_exec_command W s cmd False 10 None w' = (Inr (rc, out, err), w'') \<longrightarrow> parse_ips out = []"
    and "dns_loop W s cmds result w = (Inr D, evs, w')"
  shows "D = result"
  using assms
proof (induction cmds arbitrary: w evs w')
  case Nil
  then show ?case by simp
next
  case (Cons cmd cmds)
  obtain r w1 where ex: "op_exec_command W s cmd False 10 None w = (r, w1)" by (cases "op_exec_command W s cmd False 10 None w")
  show ?case
  proof (cases r)
    case (Inl e)
    with Cons.prems ex show ?thesis by (simp add: remote_run_def)
  next
    case (Inr t)
    obtain rc out err where t: "t = (rc, out, err)" by (cases t) auto
    from ex Inr t have "op_exec_command W s cmd False 10 None w = (Inr (rc, out, err), w1)" by simp
    with Cons.prems(1) have no: "parse_ips out = []" by (meson list.set_intros(1))
    obtain r2 evs2 w2 where rest: "dns_loop W s cmds result w1 = (r2, evs2, w2)"
      by (cases "dns_loop W s cmds result w1") auto
    with Cons.prems(2) ex Inr t no have "r2 = Inr D" by (simp add: remote_run_def)
    with rest Cons.IH[of w1 evs2 w2] Cons.prems(1) show ?thesis by simp
  qed
qed

lemma tcp_probe_total:
  assumes "\<forall>cmd w'. \<exists>r w''. op_exec_command W s cmd False 10 None w' = (Inr r, w'')"
  shows "\<exists>D evs w'. tcp_probe W G s host port result w = (Inr D, evs, w')"
proof -
  from assms obtain r w1 where e1: "op_exec_command W s (Nc_probe (NC_TIMEOUT G) host port) False 10 None w = (Inr r, w1)"
    by blast
  from assms obtain r2 w2 where e2: "op_exec_command W s (Dev_tcp_probe host port) False 10 None w1 = (Inr r2, w2)"
    by blast
  from e1 e2 show ?thesis
    by (cases r; cases r2) (simp add: tcp_probe_def remote_run_def)
qed

lemma tcp_probe_result:
  "tcp_probe W G s host port result w = (Inr D, evs, w') \<Longrightarrow>
     tcp_ok D \<noteq> None \<and> dns_ok D = dns_ok result \<and> diag_notes D = diag_notes result"
  by (auto simp: tcp_probe_def split: prod.splits sum.splits if_splits)

lemma tcp_probe_unreachable:
  assumes "\<forall>w' rc out err w''.
             op_exec_command W s (Nc_probe (NC_TIMEOUT G) host port) False 10 None w' = (Inr (rc, out, err), w'')
             \<longrightarrow> \<not> contains ''OK'' out"
    and "\<forall>w' rc out err w''.
             op_exec_command W s (Dev_tcp_probe host port) False 10 None w' = (Inr (rc, out, err), w'')
             \<longrightarrow> \<not> contains ''OK'' out"
    and "tcp_probe W G s host port result w = (Inr D, evs, w')"
  shows "tcp_ok D = Some False"
proof -
  obtain r w1 where e1: "op_exec_command W s (Nc_probe (NC_TIMEOUT G) host port) False 10 None w = (r, w1)"
    by (cases "op_exec_command W s (Nc_probe (NC_TIMEOUT G) host port) False 10 None w")
  obtain r2 w2 where e2: "op_exec_command W s (Dev_tcp_probe host port) False 10 None w1 = (r2, w2)"
    by (cases "op_exec_command W s (Dev_tcp_probe host port) False 10 None w1")
  show ?thesis
  proof (cases r)
    case (Inl e)
    with assms(3) e1 show ?thesis by (simp add: tcp_probe_def remote_run_def)
  next
    case (Inr t)
    obtain rc out err where t: "t = (rc, out, err)" by (cases t) auto
    from e1 Inr t have "op_exec_command W s (Nc_probe (NC_TIMEOUT G) host port) False 10 None w = (Inr (rc, out, err), w1)" by simp
    with assms(1) have no1: "\<not> contains ''OK'' out" by meson
    show ?thesis
    proof (cases r2)
      case (Inl e)
      with assms(3) e1 e2 Inr t no1 show ?thesis by (simp add: tcp_probe_def remote_run_def)
    next
      case r2: (Inr t2)
      obtain rc2 out2 err2 where t2: "t2 = (rc2, out2, err2)" by (cases t2) auto
      from e2 r2 t2 have "op_exec_command W s (Dev_tcp_probe host port) False 10 None w1 = (Inr (rc2, out2, err2), w2)" by simp
      with assms(2) have no2: "\<not> contains ''OK'' out2" by meson
      with assms(3) e1 e2 Inr t no1 r2 t2 show ?thesis
        by (auto simp: tcp_probe_def remote_run_def)
    qed
  qed
qed

text \<open>
  C5, as the code has it. \<^verbatim>\<open>diagnose_on_remote\<close> has no handler of its own: it returns a
  diagnosis whenever none of the commands it sends raises. Then both outcomes are decided, the
  notes hold the name-resolution note exactly when name resolution failed, an unresolvable host
  (no name-resolution command prints an address) gives \<open>dns_ok = False\<close> and an unreachable
  port (no probe prints \<^verbatim>\<open>OK\<close>) gives \<open>tcp_ok = False\<close>. A command that fails on the remote
  side (non-zero status, no output) is absorbed in this way.
\<close>

theorem diagnose_on_remote_absorbs:
  assumes no_raise: "\<forall>cmd w'. \<exists>r w''. op_exec_command W s cmd False 10 None w' = (Inr r, w'')"
  shows "\<exists>D evs w'. diagnose_on_remote W G s target_host port w = (Inr D, evs, w') \<and>
           (dns_ok D = Some True \<or> dns_ok D = Some False) \<and>
           (tcp_ok D = Some True \<or> tcp_ok D = Some False) \<and>
           diag_notes D = (if dns_ok D = Some False then [Note_dns_failed] else []) \<and>
           ((\<forall>cmd \<in> {Getent_hosts target_host, Getent_ahosts target_host, Nslookup_awk target_host}.
               \<forall>w' rc out err w''.
                 op_exec_command W s cmd False 10 None w' = (Inr (rc, out, err), w'') \<longrightarrow> parse_ips out = [])
            \<longrightarrow> dns_ok D = Some False) \<and>
           ((\<forall>cmd \<in> {Nc_probe (NC_TIMEOUT G) target_host port, Dev_tcp_probe target_host port}.
               \<forall>w' rc out err w''.
                 op_exec_command W s cmd False 10 None w' = (Inr (rc, out, err), w'')
                 \<longrightarrow> \<not> contains ''OK'' out)
            \<longrightarrow> tcp_ok D = Some False)"
proof -
  let ?cmds = "[Getent_hosts target_host, Getent_ahosts target_host, Nslookup_awk target_host]"
  let ?init = "\<lparr>dns_ok = None, dns_ips = [], tcp_ok = None, tcp_method = None, diag_notes = []\<rparr>"
  from dns_loop_total[OF no_raise] obtain D1 evs1 w1
    where dns: "dns_loop W s ?cmds ?init w = (Inr D1, evs1, w1)" by blast
  let ?D2 = "if dns_ok D1 = None
             then D1\<lparr>dns_ok := Some False, diag_notes := diag_notes D1 @ [Note_dns_failed]\<rparr> else D1"
  from tcp_probe_total[OF no_raise] obtain D evs2 w2
    where tcp: "tcp_probe W G s target_host port ?D2 w1 = (Inr D, evs2, w2)" by blast
  have res: "diagnose_on_remote W G s target_host port w = (Inr D, evs1 @ evs2, w2)"
    using dns tcp by (simp add: diagnose_on_remote_def)
  from dns_loop_result[OF dns]
  have shape: "D1 = ?init \<or> (\<exists>ips. D1 = ?init\<lparr>dns_ok := Some True, dns_ips := ips\<rparr>)" .
  from tcp_probe_result[OF tcp]
  have keep: "tcp_ok D \<noteq> None" "dns_ok D = dns_ok ?D2" "diag_notes D = diag_notes ?D2" by simp_all
  from shape keep have a: "dns_ok D = Some True \<or> dns_ok D = Some False" by auto
  from keep(1) have b: "tcp_ok D = Some True \<or> tcp_ok D = Some False" by (cases "tcp_ok D") auto
  from shape keep have c: "diag_notes D = (if dns_ok D = Some False then [Note_dns_failed] else [])"
    by auto
  have d: "dns_ok D = Some False"
    if "\<forall>cmd \<in> {Getent_hosts target_host, Getent_ahosts target_host, Nslookup_awk target_host}.
               \<forall>w' rc out err w''.
                 op_exec_command W s cmd False 10 None w' = (Inr (rc, out, err), w'') \<longrightarrow> parse_ips out = []"
  proof -
    from that have "\<forall>cmd\<in>set ?cmds. \<forall>w' rc out err w''.
             op_exec_command W s cmd False 10 None w' = (Inr (rc, out, err), w'') \<longrightarrow> parse_ips out = []"
      by simp
    from dns_loop_unresolved[OF this dns] have "D1 = ?init" .
    with keep(2) show ?thesis by simp
  qed
  have e: "tcp_ok D = Some False"
    if "\<forall>cmd \<in> {Nc_probe (NC_TIMEOUT G) target_host port, Dev_tcp_probe target_host port}.
               \<forall>w' rc out err w''.
                 op_exec_command W s cmd False 10 None w' = (Inr (rc, out, err), w'')
                 \<longrightarrow> \<not> contains ''OK'' out"
    using tcp_probe_unreachable[OF _ _ tcp] that by simp
  from res a b c d e show ?thesis by blast
qed

text \<open>
  In the calm environment every command prints nothing: the host does not resolve and the port
  does not answer.
\<close>

theorem diagnose_on_remote_absorbs_witness:
  "(\<forall>cmd w'. \<exists>r w''. op_exec_command env_calm ws0 cmd False 10 None w' = (Inr r, w'')) \<and>
   (\<exists>D evs w'. diagnose_on_remote env_calm default_globals ws0 ''node1'' 22 0 = (Inr D, evs, w') \<and>
      dns_ok D = Some False \<and> tcp_ok D = Some False \<and> diag_notes D = [Note_dns_failed])"
proof -
  have h: "\<forall>cmd w'. \<exists>r w''. op_exec_command env_calm ws0 cmd False 10 None w' = (Inr r, w'')"
    by (simp add: env_calm_def)
  have p: "parse_ips [] = []" by (simp add: parse_ips_def splitlines_def)
  from diagnose_on_remote_absorbs[OF h, of default_globals "''node1''" 22 0] p
  show ?thesis using h by (auto simp: env_calm_def)
qed

text \<open>
  C5 as stated fails: when sending a command raises (here: the session of the hop is no longer
  active), the exception leaves \<^verbatim>\<open>diagnose_on_remote\<close>.
\<close>

theorem diagnose_on_remote_propagates:
  "fst (diagnose_on_remote env_dead_session default_globals ws0 ''node1'' 22 0)
     = Inl (Exc SSHException (Text ''SSH session not active''))"
  by (simp add: diagnose_on_remote_def remote_run_def env_dead_session_def env_calm_def)

section \<open>Waiting for a host to go down\<close>

text \<open>
  The loop returns after the first probe when that probe fails; when every probe succeeds it
  returns only once the clock has reached the deadline, and each round moves the clock by no more
  than the probe, the interval and the overshoot of the sleep.
\<close>

lemma wait_loop_first_probe:
  assumes "now < deadline"
    and "fst (fst (op_open_channel W transport host port 5 w)) \<noteq> None"
  shows "\<exists>w'. wait_loop W transport host port deadline poll now w
           = (True, now + max 0 (snd (fst (op_open_channel W transport host port 5 w))), w')"
proof -
  obtain r d w1 where o: "op_open_channel W transport host port 5 w = ((r, d), w1)"
    by (cases "op_open_channel W transport host port 5 w") auto
  with assms(2) obtain e where "r = Some e" by (cases r) auto
  with o assms(1) show ?thesis
    by (subst wait_loop.simps) (simp add: is_ssh_reachable_via_transport_def)
qed

lemma wait_loop_timeout:
  assumes reach: "\<forall>w'. fst (fst (op_open_channel W transport host port 5 w')) = None"
    and probe: "\<forall>w'. snd (fst (op_open_channel W transport host port 5 w')) \<le> D"
    and slp: "\<forall>d w'. fst (op_sleep W d w') \<le> d + S"
    and D: "0 \<le> D" and S: "0 \<le> S"
  shows "\<exists>finish w'. wait_loop W transport host port deadline poll now w = (False, finish, w') \<and>
           deadline \<le> finish \<and> now \<le> finish \<and>
           (now < deadline + real_of_int (max 1 poll) + D + S
              \<longrightarrow> finish < deadline + real_of_int (max 1 poll) + D + S)"
  using assms
proof (induction W transport host port deadline poll now w rule: wait_loop.induct)
  case (1 W transport host port deadline poll now w)
  let ?I = "real_of_int (max 1 poll)"
  show ?case
  proof (cases "now < deadline")
    case False
    then show ?thesis by (subst wait_loop.simps) simp
  next
    case True
    obtain r d w1 where o: "op_open_channel W transport host port 5 w = ((r, d), w1)"
      by (cases "op_open_channel W transport host port 5 w") auto
    from "1.prems"(1) have "fst (fst (op_open_channel W transport host port 5 w)) = None" by blast
    with o have r: "r = None" by simp
    from "1.prems"(2) have "snd (fst (op_open_channel W transport host port 5 w)) \<le> D" by blast
    with o have d: "d \<le> D" by simp
    let ?w1 = "op_close_channel W (Channel transport host port) w1"
    have isr: "is_ssh_reachable_via_transport W transport host port w = ((True, d), ?w1)"
      using o r by (simp add: is_ssh_reachable_via_transport_def)
    obtain slept w2 where sl: "op_sleep W ?I ?w1 = (slept, w2)"
      by (cases "op_sleep W ?I ?w1") auto
    from "1.prems"(3) have "fst (op_sleep W ?I ?w1) \<le> ?I + S" by blast
    with sl have s: "slept \<le> ?I + S" by simp
    let ?now' = "now + max 0 d + max ?I slept"
    have IH: "\<exists>finish w'. wait_loop W transport host port deadline poll ?now' w2 = (False, finish, w') \<and>
           deadline \<le> finish \<and> ?now' \<le> finish \<and>
           (?now' < deadline + ?I + D + S \<longrightarrow> finish < deadline + ?I + D + S)"
      by (rule "1.IH"[OF True isr[symmetric] refl _ sl[symmetric] "1.prems"]) simp
    then obtain finish w' where
      f: "wait_loop W transport host port deadline poll ?now' w2 = (False, finish, w')"
        "deadline \<le> finish" "?now' \<le> finish"
        "?now' < deadline + ?I + D + S \<longrightarrow> finish < deadline + ?I + D + S" by blast
    have step: "wait_loop W transport host port deadline poll now w
                  = wait_loop W transport host port deadline poll ?now' w2"
      using True isr sl by (subst wait_loop.simps) simp
    have I1: "1 \<le> ?I" by simp
    have m0: "max 0 d \<le> D" using d "1.prems"(4) by simp
    have m0': "0 \<le> max 0 d" by simp
    have m1: "max ?I slept \<le> ?I + S" using s "1.prems"(5) by simp
    have m1': "?I \<le> max ?I slept" by simp
    from True m0 m1 have bound: "?now' < deadline + ?I + D + S" by linarith
    from m0' m1' I1 have "now \<le> ?now'" by linarith
    with f bound step show ?thesis by auto
  qed
qed

text \<open>
  C6, as the code has it. Let the interval be \<^verbatim>\<open>max(1, poll_interval)\<close>, let every probe take at
  most \<open>D\<close> seconds and every sleep overshoot by at most \<open>S\<close> seconds, and let the timeout
  not be negative. If the timeout is positive and the first probe reports the host unreachable,
  \<^verbatim>\<open>wait_for_host_down_via_transport\<close> returns true when that probe ends, without sleeping. If no
  probe ever reports the host unreachable, it returns false no earlier than the timeout and
  earlier than timeout + interval + \<open>D\<close> + \<open>S\<close> after its start; with instantaneous probes
  and exact sleeps (\<open>D = S = 0\<close>) that is within one interval after the timeout.
\<close>

theorem wait_for_host_down_timing:
  assumes probe: "\<forall>w'. snd (fst (op_open_channel W transport host port 5 w')) \<le> D"
    and slp: "\<forall>d w'. fst (op_sleep W d w') \<le> d + S"
    and D: "0 \<le> D" and S: "0 \<le> S" and T: "0 \<le> timeout_sec"
  shows "(0 < timeout_sec \<and> fst (fst (op_open_channel W transport host port 5 w)) \<noteq> None \<longrightarrow>
            fst (wait_for_host_down_via_transport W transport host port timeout_sec poll w)
              = (True, op_time W w + max 0 (snd (fst (op_open_channel W transport host port 5 w))))) \<and>
         ((\<forall>w'. fst (fst (op_open_channel W transport host port 5 w')) = None) \<longrightarrow>
            (\<exists>finish. fst (wait_for_host_down_via_transport W transport host port timeout_sec poll w)
                        = (False, finish) \<and>
                      op_time W w + real_of_int timeout_sec \<le> finish \<and>
                      finish < op_time W w + real_of_int timeout_sec + real_of_int (max 1 poll) + D + S))"
proof (intro conjI impI)
  assume a: "0 < timeout_sec \<and> fst (fst (op_open_channel W transport host port 5 w)) \<noteq> None"
  then have lt: "op_time W w < op_time W w + real_of_int timeout_sec" by simp
  from wait_loop_first_probe[OF lt, of W transport host port w poll] a
  show "fst (wait_for_host_down_via_transport W transport host port timeout_sec poll w)
              = (True, op_time W w + max 0 (snd (fst (op_open_channel W transport host port 5 w))))"
    by (auto simp: wait_for_host_down_via_transport_def)
next
  assume reach: "\<forall>w'. fst (fst (op_open_channel W transport host port 5 w')) = None"
  let ?start = "op_time W w"
  let ?deadline = "?start + real_of_int timeout_sec"
  from wait_loop_timeout[OF reach probe slp D S, of ?deadline poll ?start w]
  obtain finish w' where
    f: "wait_loop W transport host port ?deadline poll ?start w = (False, finish, w')"
      "?deadline \<le> finish"
      "?start < ?deadline + real_of_int (max 1 poll) + D + S
         \<longrightarrow> finish < ?deadline + real_of_int (max 1 poll) + D + S" by blast
  have "1 \<le> real_of_int (max 1 poll)" by simp
  with T D S have "?start < ?deadline + real_of_int (max 1 poll) + D + S" by simp
  with f show "\<exists>finish. fst (wait_for_host_down_via_transport W transport host port timeout_sec poll w)
                        = (False, finish) \<and>
                      op_time W w + real_of_int timeout_sec \<le> finish \<and>
                      finish < op_time W w + real_of_int timeout_sec + real_of_int (max 1 poll) + D + S"
    by (simp add: wait_for_host_down_via_transport_def)
qed

text \<open>
  With the target down the wait returns true at its start; with the target up, a timeout of 3
  and a poll interval of 2 it returns false 4 seconds after its start.
\<close>

theorem wait_for_host_down_timing_witness:
  "(\<forall>w'. snd (fst (op_open_channel env_target_down ws0 ''node1'' 22 5 w')) \<le> 0) \<and>
   (\<forall>d w'. fst (op_sleep env_target_down d w') \<le> d + 0) \<and>
   fst (fst (op_open_channel env_target_down ws0 ''node1'' 22 5 0)) \<noteq> None \<and>
   fst (wait_for_host_down_via_transport env_target_down ws0 ''node1'' 22 600 5 0) = (True, 0) \<and>
   (\<forall>w'. snd (fst (op_open_channel env_calm ws0 ''node1'' 22 5 w')) \<le> 0) \<and>
   (\<forall>d w'. fst (op_sleep env_calm d w') \<le> d + 0) \<and>
   (\<forall>w'. fst (fst (op_open_channel env_calm ws0 ''node1'' 22 5 w')) = None) \<and>
   (\<exists>finish. fst (wait_for_host_down_via_transport env_calm ws0 ''node1'' 22 3 2 0) = (False, finish) \<and>
      3 \<le> finish \<and> finish < 5)"
proof -
  have p1: "\<forall>w'. snd (fst (op_open_channel env_target_down ws0 ''node1'' 22 5 w')) \<le> 0"
    and s1: "\<forall>d w'. fst (op_sleep env_target_down d w') \<le> d + 0"
    and f1: "fst (fst (op_open_channel env_target_down ws0 ''node1'' 22 5 0)) \<noteq> None"
    by (simp_all add: env_target_down_def env_calm_def)
  have p2: "\<forall>w'. snd (fst (op_open_channel env_calm ws0 ''node1'' 22 5 w')) \<le> 0"
    and s2: "\<forall>d w'. fst (op_sleep env_calm d w') \<le> d + 0"
    and r2: "\<forall>w'. fst (fst (op_open_channel env_calm ws0 ''node1'' 22 5 w')) = None"
    by (simp_all add: env_calm_def)
  have a: "fst (wait_for_host_down_via_transport env_target_down ws0 ''node1'' 22 600 5 0) = (True, 0)"
    using wait_for_host_down_timing[OF p1 s1, of 600 0 5] f1
    by (simp add: env_target_down_def env_calm_def)
  have b: "\<exists>finish. fst (wait_for_host_down_via_transport env_calm ws0 ''node1'' 22 3 2 0) = (False, finish) \<and>
      3 \<le> finish \<and> finish < 5"
    using wait_for_host_down_timing[OF p2 s2, of 3 0 2] r2
    by (simp add: env_calm_def)
  from p1 s1 f1 a p2 s2 r2 b show ?thesis by blast
qed

text \<open>
  C6 as stated fails on each of these runs. A host that stays up and answers each probe after
  0.9 seconds, timeout 2, interval 1: false comes 3.8 seconds after the start, later than
  timeout + interval. Sleeps that last 1.5 seconds too long, timeout 3, interval 1: false comes
  after 5 seconds. A host that is down and whose probe fails only after 5 seconds, timeout 10,
  interval 1: true comes after 5 seconds, not within one interval. A host that is down, timeout
  0: the loop is not entered, no probe is made and the answer is false. A timeout of -5: false
  comes at the start, later than timeout + interval. An interval of -1, timeout 1: the loop
  sleeps \<^verbatim>\<open>max(1, poll_interval)\<close> = 1 second, and false comes after 1 second, later than
  timeout + interval = 0.
\<close>

theorem wait_for_host_down_bounds_exceeded:
  "fst (wait_for_host_down_via_transport env_slow_probe ws0 ''node1'' 22 2 1 0) = (False, 19 / 5) \<and>
   op_time env_slow_probe 0 + real_of_int 2 + real_of_int 1 < 19 / 5 \<and>
   fst (wait_for_host_down_via_transport env_oversleeps ws0 ''node1'' 22 3 1 0) = (False, 5) \<and>
   op_time env_oversleeps 0 + real_of_int 3 + real_of_int 1 < 5 \<and>
   fst (fst (op_open_channel env_slow_refusal ws0 ''node1'' 22 5 0)) \<noteq> None \<and>
   fst (wait_for_host_down_via_transport env_slow_refusal ws0 ''node1'' 22 10 1 0) = (True, 5) \<and>
   op_time env_slow_refusal 0 + real_of_int 1 < 5 \<and>
   fst (fst (op_open_channel env_target_down ws0 ''node1'' 22 5 0)) \<noteq> None \<and>
   fst (wait_for_host_down_via_transport env_target_down ws0 ''node1'' 22 0 5 0) = (False, 0) \<and>
   fst (wait_for_host_down_via_transport env_calm ws0 ''node1'' 22 (-5) 1 0) = (False, 0) \<and>
   op_time env_calm 0 + real_of_int (-5) + real_of_int 1 < 0 \<and>
   fst (wait_for_host_down_via_transport env_calm ws0 ''node1'' 22 1 (-1) 0) = (False, 1) \<and>
   op_time env_calm 0 + real_of_int 1 + real_of_int (-1) < 1"
  by (simp add: wait_for_host_down_via_transport_def wait_loop.simps
        is_ssh_reachable_via_transport_def env_calm_def env_slow_probe_def env_oversleeps_def
        env_slow_refusal_def env_target_down_def)

section \<open>The actions of the orchestration\<close>


lemma dns_loop_events:
  assumes "dns_loop W s cmds result w = (r, evs, w')"
  shows "\<forall>e\<in>set evs. \<exists>c. e = E_run s c"
  using assms
proof (induction cmds arbitrary: w r evs w')
  case Nil
  then show ?case by simp
next
  case (Cons cmd cmds)
  then show ?case
    by (fastforce simp: remote_run_def split: prod.splits sum.splits if_splits)
qed

lemma tcp_probe_events:
  assumes "tcp_probe W G s host port result w = (r, evs, w')"
  shows "\<forall>e\<in>set evs. \<exists>c. e = E_run s c"
  using assms
  by (auto simp: tcp_probe_def remote_run_def split: prod.splits sum.splits if_splits)

lemma diagnose_on_remote_events:
  assumes "diagnose_on_remote W G s host port w = (r, evs, w')"
  shows "\<forall>e\<in>set evs. \<exists>c. e = E_run s c"
proof -
  let ?cmds = "[Getent_hosts host, Getent_ahosts host, Nslookup_awk host]"
  let ?init = "\<lparr>dns_ok = None, dns_ips = [], tcp_ok = None, tcp_method = None, diag_notes = []\<rparr>"
  obtain r1 evs1 w1 where d: "dns_loop W s ?cmds ?init w = (r1, evs1, w1)"
    by (cases "dns_loop W s ?cmds ?init w") auto
  note e1 = dns_loop_events[OF d]
  show ?thesis
  proof (cases r1)
    case (Inl e)
    with d assms e1 show ?thesis by (simp add: diagnose_on_remote_def)
  next
    case (Inr D1)
    let ?D2 = "if dns_ok D1 = None
               then D1\<lparr>dns_ok := Some False, diag_notes := diag_notes D1 @ [Note_dns_failed]\<rparr> else D1"
    obtain r2 evs2 w2 where t: "tcp_probe W G s host port ?D2 w1 = (r2, evs2, w2)"
      by (cases "tcp_probe W G s host port ?D2 w1") auto
    note e2 = tcp_probe_events[OF t]
    from d Inr t assms have "evs = evs1 @ evs2" by (simp add: diagnose_on_remote_def)
    with e1 e2 show ?thesis by auto
  qed
qed

lemma connect_host_cases:
  assumes "connect_host W host user port pk pw sock w = (r, evs, w')"
  shows "(r = Inr (SSH host user port sock) \<and> evs = [E_connect (SSH host user port sock) None]) \<or>
         (\<exists>e. r = Inl e \<and> evs = [E_connect (SSH host user port sock) (Some e)])"
  using assms by (auto simp: connect_host_def Let_def split: prod.splits option.splits)

lemma open_channel_cases:
  assumes "open_direct_tcpip_channel W G s host port w = (r, evs, w')"
  shows "evs = [E_open_channel s host port] \<and> (r = Inr (Channel s host port) \<or> (\<exists>e. r = Inl e))"
  using assms by (auto simp: open_direct_tcpip_channel_def split: prod.splits option.splits)

lemma shutdown_host_events:
  assumes "shutdown_host W G tag client sudo pw dry w = (r, evs, w')"
  shows "\<exists>rest. evs = E_shutdown_host tag client dry # rest \<and>
           (dry \<longrightarrow> rest = [] \<and> r = Inr () \<and> w' = w) \<and>
           (\<forall>e\<in>set rest. (\<exists>c i. e = E_exec client c i) \<or> (\<exists>c. e = E_warn_exit tag c))"
  using assms
  by (auto simp: shutdown_host_def run_remote_command_def Let_def split: prod.splits sum.splits if_splits)

lemma node_try_events:
  assumes res: "node_try W G f pw ws node w = (r, evs, w')"
    and run: "\<And>c. P (E_run ws c)" and issue: "\<And>i. P (E_issue i)"
    and chan: "P (E_open_channel ws node (fl_port f))"
    and conn: "\<And>x. P (E_connect (node_ssh f ws node) x)"
  shows "\<forall>e\<in>set evs. P e"
proof -
  obtain r1 evs1 w1 where d: "diagnose_on_remote W G ws node (fl_port f) w = (r1, evs1, w1)"
    by (cases "diagnose_on_remote W G ws node (fl_port f) w") auto
  from diagnose_on_remote_events[OF d] run have e1: "\<forall>e\<in>set evs1. P e" by auto
  show ?thesis
  proof (cases r1)
    case (Inl e)
    with d res e1 show ?thesis by (simp add: node_try_def)
  next
    case (Inr pre)
    obtain r3 evs3 w3 where o: "open_direct_tcpip_channel W G ws node (fl_port f) w1 = (r3, evs3, w3)"
      by (cases "open_direct_tcpip_channel W G ws node (fl_port f) w1") auto
    from open_channel_cases[OF o] chan have e3: "\<forall>e\<in>set evs3. P e" by auto
    show ?thesis
    proof (cases r3)
      case (Inl e)
      with d Inr o res e1 e3 issue show ?thesis by (auto simp: node_try_def Let_def)
    next
      case r3: (Inr sock)
      with open_channel_cases[OF o] have sock: "sock = Channel ws node (fl_port f)" by auto
      obtain r4 evs4 w4 where
        c: "connect_host W node (fl_user f) (fl_port f) None (Some pw) (Some sock) w3 = (r4, evs4, w4)"
        by (cases "connect_host W node (fl_user f) (fl_port f) None (Some pw) (Some sock) w3") auto
      from connect_host_cases[OF c] conn sock have e4: "\<forall>e\<in>set evs4. P e" by auto
      from d Inr o r3 c res e1 e3 e4 issue show ?thesis by (auto simp: node_try_def Let_def)
    qed
  qed
qed

lemma node_try_result:
  assumes "node_try W G f pw ws node w = (Inr s, evs, w')"
  shows "s = node_ssh f ws node \<and> (\<exists>pre. evs = pre @ [E_connect s None] \<and>
           (\<forall>e\<in>set pre. (\<exists>c. e = E_run ws c) \<or> (\<exists>i. e = E_issue i \<and> issue_stage i = ''node(precheck)'') \<or>
              e = E_open_channel ws node (fl_port f)))"
proof -
  obtain r1 evs1 w1 where d: "diagnose_on_remote W G ws node (fl_port f) w = (r1, evs1, w1)"
    by (cases "diagnose_on_remote W G ws node (fl_port f) w") auto
  note e1 = diagnose_on_remote_events[OF d]
  show ?thesis
  proof (cases r1)
    case (Inl e)
    with d assms show ?thesis by (simp add: node_try_def)
  next
    case (Inr pre)
    obtain r3 evs3 w3 where o: "open_direct_tcpip_channel W G ws node (fl_port f) w1 = (r3, evs3, w3)"
      by (cases "open_direct_tcpip_channel W G ws node (fl_port f) w1") auto
    note e3 = open_channel_cases[OF o]
    show ?thesis
    proof (cases r3)
      case (Inl e)
      with d Inr o assms show ?thesis by (auto simp: node_try_def Let_def)
    next
      case r3: (Inr sock)
      with e3 have sock: "sock = Channel ws node (fl_port f)" by auto
      obtain r4 evs4 w4 where
        c: "connect_host W node (fl_user f) (fl_port f) None (Some pw) (Some sock) w3 = (r4, evs4, w4)"
        by (cases "connect_host W node (fl_user f) (fl_port f) None (Some pw) (Some sock) w3") auto
      note e4 = connect_host_cases[OF c]
      from d Inr o r3 c assms have r4: "r4 = Inr s" and evs: "evs = (evs1 @
           (if dns_ok pre = Some False \<or> tcp_ok pre = Some False then
                    [E_issue \<lparr>issue_stage = ''node(precheck)'', issue_via = fl_name f, issue_target = node,
                              issue_reason = (if dns_ok pre = Some False then R_dns_failed else R_tcp_unreachable),
                              issue_hint = (if dns_ok pre = Some False then H_precheck_dns else H_precheck_route),
                              issue_diag = pre, issue_error = Text []\<rparr>]
                  else []) @ evs3) @ evs4"
        by (auto simp: node_try_def Let_def)
      from r4 e4 sock have s: "s = node_ssh f ws node" and ev4: "evs4 = [E_connect s None]" by auto
      from e1 e3 have "\<forall>e\<in>set (evs1 @
           (if dns_ok pre = Some False \<or> tcp_ok pre = Some False then
                    [E_issue \<lparr>issue_stage = ''node(precheck)'', issue_via = fl_name f, issue_target = node,
                              issue_reason = (if dns_ok pre = Some False then R_dns_failed else R_tcp_unreachable),
                              issue_hint = (if dns_ok pre = Some False then H_precheck_dns else H_precheck_route),
                              issue_diag = pre, issue_error = Text []\<rparr>]
                  else []) @ evs3). (\<exists>c. e = E_run ws c) \<or> (\<exists>i. e = E_issue i \<and> issue_stage i = ''node(precheck)'') \<or>
              e = E_open_channel ws node (fl_port f)"
        by auto
      with s evs ev4 show ?thesis by blast
    qed
  qed
qed

lemma node_except_cases:
  assumes "node_except W G args f ws node parent_skip e w = (r, evs, w')"
  shows "(\<exists>e2. r = Inl e2 \<and> diagnose_on_remote W G ws node (fl_port f) w = (Inl e2, evs, w')) \<or>
         (\<exists>d evs1. diagnose_on_remote W G ws node (fl_port f) w = (Inr d, evs1, w') \<and>
            r = Inr (if \<not> dry_run args \<and> \<not> non_strict args then True else parent_skip) \<and>
            evs = evs1 @ [E_issue \<lparr>issue_stage = ''node'', issue_via = fl_name f, issue_target = node,
                           issue_reason = fst (classify_failure e (Some d)),
                           issue_hint = snd (classify_failure e (Some d)),
                           issue_diag = d, issue_error = msg e\<rparr>])"
  using assms by (auto simp: node_except_def split: prod.splits sum.splits)

lemma node_except_events:
  assumes res: "node_except W G args f ws node parent_skip e w = (r, evs, w')"
    and run: "\<And>c. P (E_run ws c)" and issue: "\<And>i. P (E_issue i)"
  shows "\<forall>e\<in>set evs. P e"
  using node_except_cases[OF res] diagnose_on_remote_events run issue
  by (elim disjE exE conjE) fastforce+

lemma wait_events:
  assumes "wait_for_host_down_via_transport W ws node port t p w = ((ok, fin), evs, w')"
  shows "evs = [E_wait ws node port ok]"
  using assms by (auto simp: wait_for_host_down_via_transport_def Let_def split: prod.splits)

lemma node_shutdown_dry:
  assumes dry: "dry_run args"
    and res: "node_shutdown W G args f pw ws node node_cli parent_skip w = (r, evs, w')"
  shows "evs = [E_shutdown_host node node_cli True, E_close node_cli] \<and> r = Inr parent_skip"
  using assms
  by (auto simp: node_shutdown_def shutdown_host_def ssh_close_def split: prod.splits sum.splits)

lemma node_shutdown_live:
  assumes live: "\<not> dry_run args"
    and res: "node_shutdown W G args f pw ws node node_cli parent_skip w = (r, evs, w')"
  shows "\<exists>r1 evs1 w1 ok.
           shutdown_host W G node node_cli (fl_needs_sudo_password f) (Some pw) False w = (r1, evs1, w1) \<and>
           evs = evs1 @ E_close node_cli # E_wait ws node (fl_port f) ok #
                   (if \<not> ok \<and> \<not> non_strict args then [E_protect node (fl_name f)] else []) \<and>
           r = (case r1 of Inl e \<Rightarrow> Inl e
                | Inr u \<Rightarrow> Inr (if \<not> ok \<and> \<not> non_strict args then True else parent_skip))"
proof -
  obtain r1 evs1 w1 where
    s: "shutdown_host W G node node_cli (fl_needs_sudo_password f) (Some pw) False w = (r1, evs1, w1)"
    by (cases "shutdown_host W G node node_cli (fl_needs_sudo_password f) (Some pw) False w") auto
  let ?t = "case node_timeout args of None \<Rightarrow> DEFAULT_NODE_SHUTDOWN_TIMEOUT G | Some t \<Rightarrow> t"
  let ?p = "case poll_interval args of None \<Rightarrow> DEFAULT_POLL_INTERVAL G | Some i \<Rightarrow> i"
  obtain ok fin evs3 w3 where
    wt: "wait_for_host_down_via_transport W ws node (fl_port f) ?t ?p (op_close W node_cli w1) = ((ok, fin), evs3, w3)"
    by (cases "wait_for_host_down_via_transport W ws node (fl_port f) ?t ?p (op_close W node_cli w1)") auto
  from wait_events[OF wt] have e3: "evs3 = [E_wait ws node (fl_port f) ok]" .
  obtain slept w4 where sl: "op_sleep W (1 / 5) w3 = (slept, w4)" by (cases "op_sleep W (1 / 5) w3") auto
  have ev: "evs = evs1 @ E_close node_cli # E_wait ws node (fl_port f) ok #
                   (if \<not> ok \<and> \<not> non_strict args then [E_protect node (fl_name f)] else [])"
    using res s live wt e3 sl
    by (cases r1; cases "\<not> ok \<and> \<not> non_strict args") (auto simp: node_shutdown_def ssh_close_def)
  have rr: "r = (case r1 of Inl e \<Rightarrow> Inl e
                | Inr u \<Rightarrow> Inr (if \<not> ok \<and> \<not> non_strict args then True else parent_skip))"
    using res s live wt e3 sl
    by (cases r1; cases "\<not> ok \<and> \<not> non_strict args") (auto simp: node_shutdown_def ssh_close_def)
  from s ev rr show ?thesis by blast
qed

lemma node_shutdown_events:
  assumes res: "node_shutdown W G args f pw ws node node_cli parent_skip w = (r, evs, w')"
    and shut: "P (E_shutdown_host node node_cli (dry_run args))"
    and exec: "\<And>c i. \<not> dry_run args \<Longrightarrow> P (E_exec node_cli c i)"
    and warn: "\<And>c. \<not> dry_run args \<Longrightarrow> P (E_warn_exit node c)"
    and close: "P (E_close node_cli)"
    and wait: "\<And>ok. \<not> dry_run args \<Longrightarrow> P (E_wait ws node (fl_port f) ok)"
    and protect: "\<not> dry_run args \<Longrightarrow> \<not> non_strict args \<Longrightarrow> P (E_protect node (fl_name f))"
  shows "\<forall>e\<in>set evs. P e"
proof (cases "dry_run args")
  case True
  from node_shutdown_dry[OF True res] True shut close show ?thesis by auto
next
  case False
  from node_shutdown_live[OF False res] obtain r1 evs1 w1 ok where
    s: "shutdown_host W G node node_cli (fl_needs_sudo_password f) (Some pw) False w = (r1, evs1, w1)"
    and ev: "evs = evs1 @ E_close node_cli # E_wait ws node (fl_port f) ok #
                   (if \<not> ok \<and> \<not> non_strict args then [E_protect node (fl_name f)] else [])"
    by blast
  from shutdown_host_events[OF s] obtain rest where
    rest: "evs1 = E_shutdown_host node node_cli False # rest"
      "\<forall>e\<in>set rest. (\<exists>c i. e = E_exec node_cli c i) \<or> (\<exists>c. e = E_warn_exit node c)" by blast
  from rest(2) exec warn False have "\<forall>e\<in>set rest. P e" by auto
  with rest(1) shut False have "\<forall>e\<in>set evs1. P e" by auto
  with ev close wait protect False show ?thesis by auto
qed

lemma process_node_split:
  assumes res: "process_node W G args f pw ws node parent_skip w = (r, evs, w')"
  shows "(\<exists>e evs1 w1 evs2. node_try W G f pw ws node w = (Inl e, evs1, w1) \<and>
            node_except W G args f ws node parent_skip e w1 = (r, evs2, w') \<and> evs = evs1 @ evs2) \<or>
         (\<exists>evs1 w1 evs2. node_try W G f pw ws node w = (Inr (node_ssh f ws node), evs1, w1) \<and>
            node_shutdown W G args f pw ws node (node_ssh f ws node) parent_skip w1 = (r, evs2, w') \<and>
            evs = evs1 @ evs2)"
proof -
  obtain r1 evs1 w1 where t: "node_try W G f pw ws node w = (r1, evs1, w1)"
    by (cases "node_try W G f pw ws node w") auto
  show ?thesis
  proof (cases r1)
    case (Inl e)
    obtain r2 evs2 w2 where x: "node_except W G args f ws node parent_skip e w1 = (r2, evs2, w2)"
      by (cases "node_except W G args f ws node parent_skip e w1") auto
    from res t Inl x have "r = r2" "evs = evs1 @ evs2" "w' = w2" by (simp_all add: process_node_def)
    with t Inl x show ?thesis by simp
  next
    case (Inr node_cli)
    from t Inr have "node_try W G f pw ws node w = (Inr node_cli, evs1, w1)" by simp
    from node_try_result[OF this] have nc: "node_cli = node_ssh f ws node" by (rule conjunct1)
    obtain r2 evs2 w2 where
      x: "node_shutdown W G args f pw ws node node_cli parent_skip w1 = (r2, evs2, w2)"
      by (cases "node_shutdown W G args f pw ws node node_cli parent_skip w1") auto
    from res t Inr x have "r = r2" "evs = evs1 @ evs2" "w' = w2" by (simp_all add: process_node_def)
    with t Inr x nc show ?thesis by simp
  qed
qed

lemma process_node_events:
  assumes res: "process_node W G args f pw ws node parent_skip w = (r, evs, w')"
    and run: "\<And>c. P (E_run ws c)" and issue: "\<And>i. P (E_issue i)"
    and chan: "P (E_open_channel ws node (fl_port f))"
    and conn: "\<And>x. P (E_connect (node_ssh f ws node) x)"
    and shut: "P (E_shutdown_host node (node_ssh f ws node) (dry_run args))"
    and exec: "\<And>c i. \<not> dry_run args \<Longrightarrow> P (E_exec (node_ssh f ws node) c i)"
    and warn: "\<And>c. \<not> dry_run args \<Longrightarrow> P (E_warn_exit node c)"
    and close: "P (E_close (node_ssh f ws node))"
    and wait: "\<And>ok. \<not> dry_run args \<Longrightarrow> P (E_wait ws node (fl_port f) ok)"
    and protect: "\<not> dry_run args \<Longrightarrow> \<not> non_strict args \<Longrightarrow> P (E_protect node (fl_name f))"
  shows "\<forall>e\<in>set evs. P e"
  using process_node_split[OF res]
proof (elim disjE exE conjE)
  fix e evs1 w1 evs2
  assume t: "node_try W G f pw ws node w = (Inl e, evs1, w1)"
    and x: "node_except W G args f ws node parent_skip e w1 = (r, evs2, w')"
    and ev: "evs = evs1 @ evs2"
  have e1: "\<forall>e\<in>set evs1. P e"
    by (rule node_try_events[OF t]) (rule run issue chan conn)+
  have e2: "\<forall>e\<in>set evs2. P e"
    by (rule node_except_events[OF x]) (rule run issue)+
  from e1 e2 ev show ?thesis by auto
next
  fix evs1 w1 evs2
  assume t: "node_try W G f pw ws node w = (Inr (node_ssh f ws node), evs1, w1)"
    and x: "node_shutdown W G args f pw ws node (node_ssh f ws node) parent_skip w1 = (r, evs2, w')"
    and ev: "evs = evs1 @ evs2"
  have e1: "\<forall>e\<in>set evs1. P e"
    by (rule node_try_events[OF t]) (rule run issue chan conn)+
  have e2: "\<forall>e\<in>set evs2. P e"
  proof (rule node_shutdown_events[OF x])
    show "P (E_shutdown_host node (node_ssh f ws node) (dry_run args))" by (rule shut)
    show "\<And>c i. \<not> dry_run args \<Longrightarrow> P (E_exec (node_ssh f ws node) c i)" by (rule exec)
    show "\<And>c. \<not> dry_run args \<Longrightarrow> P (E_warn_exit node c)" by (rule warn)
    show "P (E_close (node_ssh f ws node))" by (rule close)
    show "\<And>ok. \<not> dry_run args \<Longrightarrow> P (E_wait ws node (fl_port f) ok)" by (rule wait)
    show "\<not> dry_run args \<Longrightarrow> \<not> non_strict args \<Longrightarrow> P (E_protect node (fl_name f))" by (rule protect)
  qed
  from e1 e2 ev show ?thesis by auto
qed

lemma nodes_loop_split:
  assumes "nodes_loop W G args f pw ws (node # nodes) parent_skip w = (r, evs, w')"
  shows "(\<exists>e. r = Inl e \<and> process_node W G args f pw ws node parent_skip w = (Inl e, evs, w')) \<or>
         (\<exists>ps evs1 w1 evs2. process_node W G args f pw ws node parent_skip w = (Inr ps, evs1, w1) \<and>
            nodes_loop W G args f pw ws nodes ps w1 = (r, evs2, w') \<and> evs = evs1 @ evs2)"
proof -
  obtain r1 evs1 w1 where p: "process_node W G args f pw ws node parent_skip w = (r1, evs1, w1)"
    by (cases "process_node W G args f pw ws node parent_skip w") auto
  show ?thesis
  proof (cases r1)
    case (Inl e)
    with p assms show ?thesis by auto
  next
    case (Inr ps)
    obtain r2 evs2 w2 where l: "nodes_loop W G args f pw ws nodes ps w1 = (r2, evs2, w2)"
      by (cases "nodes_loop W G args f pw ws nodes ps w1") auto
    with p Inr assms show ?thesis by auto
  qed
qed

lemma nodes_loop_events:
  assumes res: "nodes_loop W G args f pw ws nodes parent_skip w = (r, evs, w')"
    and run: "\<And>c. P (E_run ws c)" and issue: "\<And>i. P (E_issue i)"
    and chan: "\<And>n. P (E_open_channel ws n (fl_port f))"
    and conn: "\<And>n x. P (E_connect (node_ssh f ws n) x)"
    and shut: "\<And>n. P (E_shutdown_host n (node_ssh f ws n) (dry_run args))"
    and exec: "\<And>n c i. \<not> dry_run args \<Longrightarrow> P (E_exec (node_ssh f ws n) c i)"
    and warn: "\<And>n c. \<not> dry_run args \<Longrightarrow> P (E_warn_exit n c)"
    and close: "\<And>n. P (E_close (node_ssh f ws n))"
    and wait: "\<And>n ok. \<not> dry_run args \<Longrightarrow> P (E_wait ws n (fl_port f) ok)"
    and protect: "\<And>n. \<not> dry_run args \<Longrightarrow> \<not> non_strict args \<Longrightarrow> P (E_protect n (fl_name f))"
  shows "\<forall>e\<in>set evs. P e"
  using res
proof (induction nodes arbitrary: parent_skip w r evs w')
  case Nil
  then show ?case by simp
next
  case (Cons node nodes)
  have pn: "\<forall>e\<in>set evs1. P e"
    if p: "process_node W G args f pw ws node parent_skip w = (r1, evs1, w1)" for r1 evs1 w1
  proof (rule process_node_events[OF p])
    show "\<And>c. P (E_run ws c)" by (rule run)
    show "\<And>i. P (E_issue i)" by (rule issue)
    show "P (E_open_channel ws node (fl_port f))" by (rule chan)
    show "\<And>x. P (E_connect (node_ssh f ws node) x)" by (rule conn)
    show "P (E_shutdown_host node (node_ssh f ws node) (dry_run args))" by (rule shut)
    show "\<And>c i. \<not> dry_run args \<Longrightarrow> P (E_exec (node_ssh f ws node) c i)" by (rule exec)
    show "\<And>c. \<not> dry_run args \<Longrightarrow> P (E_warn_exit node c)" by (rule warn)
    show "P (E_close (node_ssh f ws node))" by (rule close)
    show "\<And>ok. \<not> dry_run args \<Longrightarrow> P (E_wait ws node (fl_port f) ok)" by (rule wait)
    show "\<not> dry_run args \<Longrightarrow> \<not> non_strict args \<Longrightarrow> P (E_protect node (fl_name f))" by (rule protect)
  qed
  from nodes_loop_split[OF Cons.prems] show ?case
  proof (elim disjE exE conjE)
    fix e assume "process_node W G args f pw ws node parent_skip w = (Inl e, evs, w')"
    then show ?thesis by (rule pn)
  next
    fix ps evs1 w1 evs2
    assume p: "process_node W G args f pw ws node parent_skip w = (Inr ps, evs1, w1)"
      and l: "nodes_loop W G args f pw ws nodes ps w1 = (r, evs2, w')"
      and ev: "evs = evs1 @ evs2"
    from pn[OF p] Cons.IH[OF l] ev show ?thesis by auto
  qed
qed

section \<open>Protection of the fleet host\<close>

text \<open>
  How one fleet is processed, case by case, and what the loop over its nodes leaves in
  \<^verbatim>\<open>parent_skip\<close> in strict mode outside dry-run: once set it stays set, and it is unset at
  the end only if no node failed.
\<close>

lemma fleet_try_cases:
  assumes "fleet_try W G gw_conn f pw w = (r, evs, w')"
  shows "(r = Inr (fleet_ssh gw_conn f) \<and>
            evs = [E_open_channel gw_conn (fl_name f) (fl_port f), E_connect (fleet_ssh gw_conn f) None]) \<or>
         (\<exists>e. r = Inl e \<and>
            (evs = [E_open_channel gw_conn (fl_name f) (fl_port f)] \<or>
             evs = [E_open_channel gw_conn (fl_name f) (fl_port f), E_connect (fleet_ssh gw_conn f) (Some e)]))"
proof -
  obtain r1 evs1 w1 where o: "open_direct_tcpip_channel W G gw_conn (fl_name f) (fl_port f) w = (r1, evs1, w1)"
    by (cases "open_direct_tcpip_channel W G gw_conn (fl_name f) (fl_port f) w") auto
  note oc = open_channel_cases[OF o]
  show ?thesis
  proof (cases r1)
    case (Inl e)
    with o oc assms show ?thesis by (auto simp: fleet_try_def)
  next
    case (Inr sock)
    with oc have sock: "sock = Channel gw_conn (fl_name f) (fl_port f)" by auto
    obtain r2 evs2 w2 where
      c: "connect_host W (fl_name f) (fl_user f) (fl_port f) None (Some pw) (Some sock) w1 = (r2, evs2, w2)"
      by (cases "connect_host W (fl_name f) (fl_user f) (fl_port f) None (Some pw) (Some sock) w1") auto
    from o Inr c assms have "r = r2" "evs = evs1 @ evs2" by (simp_all add: fleet_try_def)
    with connect_host_cases[OF c] oc sock show ?thesis by auto
  qed
qed

lemma fleet_except_cases:
  assumes "fleet_except W G gw_conn f e w = (r, evs, w')"
  shows "(\<exists>e2. r = Inl e2 \<and> diagnose_on_remote W G gw_conn (fl_name f) (fl_port f) w = (Inl e2, evs, w')) \<or>
         (\<exists>d evs1. diagnose_on_remote W G gw_conn (fl_name f) (fl_port f) w = (Inr d, evs1, w') \<and>
            r = Inr () \<and>
            evs = evs1 @ [E_issue \<lparr>issue_stage = ''workstation'', issue_via = ''triton'',
                           issue_target = fl_name f,
                           issue_reason = fst (classify_failure e (Some d)),
                           issue_hint = snd (classify_failure e (Some d)),
                           issue_diag = d, issue_error = msg e\<rparr>])"
  using assms by (auto simp: fleet_except_def split: prod.splits sum.splits)

lemma fleet_body_cases:
  assumes "fleet_body W G args f pw ws w = (r, evs, w')"
  shows "\<exists>rn evs1 w1. nodes_loop W G args f pw ws (fl_nodes f) False w = (rn, evs1, w1) \<and>
           ((\<exists>e. rn = Inl e \<and> r = Inl e \<and> evs = evs1 @ [E_close ws]) \<or>
            (rn = Inr True \<and> r = Inr () \<and> evs = evs1 @ [E_skipped (fl_name f), E_close ws]) \<or>
            (rn = Inr False \<and>
               (\<exists>evs2 w2. shutdown_host W G (fl_name f) ws (fl_needs_sudo_password f) (Some pw)
                              (dry_run args) w1 = (r, evs2, w2) \<and>
                           evs = evs1 @ evs2 @ [E_close ws])))"
proof -
  obtain rn evs1 w1 where n: "nodes_loop W G args f pw ws (fl_nodes f) False w = (rn, evs1, w1)"
    by (cases "nodes_loop W G args f pw ws (fl_nodes f) False w") auto
  show ?thesis
  proof (cases rn)
    case (Inl e)
    with n assms show ?thesis
      by (auto simp: fleet_body_def ssh_close_def split: prod.splits)
  next
    case (Inr ps)
    show ?thesis
    proof (cases ps)
      case True
      with n Inr assms show ?thesis
        by (auto simp: fleet_body_def ssh_close_def split: prod.splits)
    next
      case False
      obtain r2 evs2 w2 where
        s: "shutdown_host W G (fl_name f) ws (fl_needs_sudo_password f) (Some pw) (dry_run args) w1 = (r2, evs2, w2)"
        by (cases "shutdown_host W G (fl_name f) ws (fl_needs_sudo_password f) (Some pw) (dry_run args) w1") auto
      with n Inr False assms show ?thesis
        by (auto simp: fleet_body_def ssh_close_def split: prod.splits)
    qed
  qed
qed

lemma process_fleet_cases:
  assumes "process_fleet W G args gw_conn fleet_pw_map f w = (r, evs, w')"
  shows "(fleet_pw_map (fl_name f) = None \<and> evs = [] \<and> (\<exists>e. r = Inl e)) \<or>
         (\<exists>pw e evs1 w1 evs2. fleet_pw_map (fl_name f) = Some pw \<and>
            fleet_try W G gw_conn f pw w = (Inl e, evs1, w1) \<and>
            fleet_except W G gw_conn f e w1 = (r, evs2, w') \<and> evs = evs1 @ evs2) \<or>
         (\<exists>pw evs1 w1 evs2. fleet_pw_map (fl_name f) = Some pw \<and>
            fleet_try W G gw_conn f pw w = (Inr (fleet_ssh gw_conn f), evs1, w1) \<and>
            fleet_body W G args f pw (fleet_ssh gw_conn f) w1 = (r, evs2, w') \<and> evs = evs1 @ evs2)"
proof (cases "fleet_pw_map (fl_name f)")
  case None
  with assms show ?thesis by (auto simp: process_fleet_def)
next
  case (Some pw)
  obtain r1 evs1 w1 where t: "fleet_try W G gw_conn f pw w = (r1, evs1, w1)"
    by (cases "fleet_try W G gw_conn f pw w") auto
  show ?thesis
  proof (cases r1)
    case (Inl e)
    obtain r2 evs2 w2 where x: "fleet_except W G gw_conn f e w1 = (r2, evs2, w2)"
      by (cases "fleet_except W G gw_conn f e w1") auto
    from assms Some t Inl x have "r = r2" "evs = evs1 @ evs2" "w' = w2" by (simp_all add: process_fleet_def)
    with Some t Inl x show ?thesis by simp
  next
    case (Inr ws)
    from fleet_try_cases[OF t] Inr have ws: "ws = fleet_ssh gw_conn f" by auto
    obtain r2 evs2 w2 where x: "fleet_body W G args f pw ws w1 = (r2, evs2, w2)"
      by (cases "fleet_body W G args f pw ws w1") auto
    from assms Some t Inr x have "r = r2" "evs = evs1 @ evs2" "w' = w2" by (simp_all add: process_fleet_def)
    with Some t Inr x ws show ?thesis by simp
  qed
qed

lemma fleets_loop_split:
  assumes "fleets_loop W G args gw_conn fleet_pw_map (f # fs) w = (r, evs, w')"
  shows "(\<exists>e. r = Inl e \<and> process_fleet W G args gw_conn fleet_pw_map f w = (Inl e, evs, w')) \<or>
         (\<exists>evs1 w1 evs2. process_fleet W G args gw_conn fleet_pw_map f w = (Inr (), evs1, w1) \<and>
            fleets_loop W G args gw_conn fleet_pw_map fs w1 = (r, evs2, w') \<and> evs = evs1 @ evs2)"
proof -
  obtain r1 evs1 w1 where p: "process_fleet W G args gw_conn fleet_pw_map f w = (r1, evs1, w1)"
    by (cases "process_fleet W G args gw_conn fleet_pw_map f w") auto
  show ?thesis
  proof (cases r1)
    case (Inl e)
    with p assms show ?thesis by auto
  next
    case (Inr u)
    obtain r2 evs2 w2 where l: "fleets_loop W G args gw_conn fleet_pw_map fs w1 = (r2, evs2, w2)"
      by (cases "fleets_loop W G args gw_conn fleet_pw_map fs w1") auto
    with p Inr assms show ?thesis by auto
  qed
qed

lemmas run_defs =
  main_def gateway_body_def fleets_loop.simps process_fleet_def fleet_try_def fleet_body_def
  fleet_except_def nodes_loop.simps process_node_def node_try_def node_except_def node_shutdown_def
  diagnose_on_remote_def dns_loop.simps tcp_probe_def remote_run_def open_direct_tcpip_channel_def
  connect_host_def shutdown_host_def run_remote_command_def ssh_close_def
  wait_for_host_down_via_transport_def wait_loop.simps is_ssh_reachable_via_transport_def
  resolve_passwords.simps resolve_password_def parse_ips_def splitlines_def strip_def Let_def

lemmas example_defs =
  env_calm_def env_dead_session_def env_target_down_def env_node_rejects_def
  env_first_command_fails_def
  default_globals_def gw0_def gw_conn0_def ws0_def fleet1_def args_live_def args_dry_def
  env_no_file_def env_stays_up_def env_shutdown_drops_def fleet_file_def fleet_env_def args_live_fast_def
  env_gateway_refuses_def env_hop_lost_def fleet2_def
  env_slow_probe_def env_slow_refusal_def env_oversleeps_def

text \<open>
  The line \<^verbatim>\<open>10.0.0.5 OK\<close> that the answering environments print: it holds an address and the
  word the probes look for.
\<close>

lemma answer_parse: "parse_ips ''10.0.0.5 OK'' = [''10.0.0.5'']"
  by (simp add: parse_ips_def splitlines_def strip_def split_def is_address_token_def
        py_isspace_def py_isdigit_char_def py_is_linebreak_def)

lemma answer_strip: "strip ''10.0.0.5 OK'' = ''10.0.0.5 OK''"
  by (simp add: strip_def py_isspace_def)

lemma answer_contains: "contains ''OK'' ''10.0.0.5 OK''"
  by simp

lemma answer_unique: "unique [''10.0.0.5''] = [''10.0.0.5'']"
  by (simp add: unique_def)

lemmas run_defs_answer =
  main_def gateway_body_def fleets_loop.simps process_fleet_def fleet_try_def fleet_body_def
  fleet_except_def nodes_loop.simps process_node_def node_try_def node_except_def node_shutdown_def
  diagnose_on_remote_def dns_loop.simps tcp_probe_def remote_run_def open_direct_tcpip_channel_def
  connect_host_def shutdown_host_def run_remote_command_def ssh_close_def
  wait_for_host_down_via_transport_def wait_loop.simps is_ssh_reachable_via_transport_def
  resolve_passwords.simps resolve_password_def Let_def
  answer_parse answer_strip answer_contains answer_unique








section \<open>A pre-check that raises\<close>

text \<open>
  C10, as the code has it. If the advisory pre-check diagnosis of a node raises and the second
  diagnosis, run by the handler of line 510, returns: the node's step ends normally with exactly
  the actions of the two diagnoses followed by one issue of stage \<^verbatim>\<open>node\<close>, classified from the
  exception of the pre-check and the second diagnosis; neither a channel nor a connection nor a
  shutdown is attempted for the node; and \<^verbatim>\<open>parent_skip\<close> becomes true when neither
  \<^verbatim>\<open>dry_run\<close> nor \<^verbatim>\<open>non_strict\<close> is set, and is unchanged otherwise.
\<close>

theorem precheck_exception_recorded:
  assumes pre: "diagnose_on_remote W G ws node (fl_port f) w = (Inl e, evs1, w1)"
    and second: "diagnose_on_remote W G ws node (fl_port f) w1 = (Inr d, evs2, w2)"
  shows "process_node W G args f pw ws node parent_skip w =
           (Inr (if \<not> dry_run args \<and> \<not> non_strict args then True else parent_skip),
            evs1 @ evs2 @
            [E_issue \<lparr>issue_stage = ''node'', issue_via = fl_name f, issue_target = node,
                      issue_reason = fst (classify_failure e (Some d)),
                      issue_hint = snd (classify_failure e (Some d)),
                      issue_diag = d, issue_error = msg e\<rparr>],
            w2) \<and>
         (\<forall>a\<in>set (evs1 @ evs2). \<exists>c. a = E_run ws c)"
proof -
  have "process_node W G args f pw ws node parent_skip w =
           (Inr (if \<not> dry_run args \<and> \<not> non_strict args then True else parent_skip),
            evs1 @ evs2 @
            [E_issue \<lparr>issue_stage = ''node'', issue_via = fl_name f, issue_target = node,
                      issue_reason = fst (classify_failure e (Some d)),
                      issue_hint = snd (classify_failure e (Some d)),
                      issue_diag = d, issue_error = msg e\<rparr>],
            w2)"
    using pre second by (simp add: process_node_def node_try_def node_except_def)
  moreover from diagnose_on_remote_events[OF pre] diagnose_on_remote_events[OF second]
  have "\<forall>a\<in>set (evs1 @ evs2). \<exists>c. a = E_run ws c" by auto
  ultimately show ?thesis by blast
qed

text \<open>
  The first command of the pre-check raises, the second diagnosis runs: the node's step returns
  with \<^verbatim>\<open>parent_skip\<close> set and one issue.
\<close>

theorem precheck_exception_recorded_witness:
  "diagnose_on_remote env_first_command_fails default_globals ws0 ''node1'' (fl_port fleet1) 0
     = (Inl (Exc SSHException (Text ''Timeout opening channel.'')), [E_run ws0 (Getent_hosts ''node1'')], 1) \<and>
   fst (diagnose_on_remote env_first_command_fails default_globals ws0 ''node1'' (fl_port fleet1) 1)
     = Inr \<lparr>dns_ok = Some False, dns_ips = [], tcp_ok = Some False, tcp_method = Some ''nc|/dev/tcp'',
            diag_notes = [Note_dns_failed]\<rparr> \<and>
   fst (process_node env_first_command_fails default_globals args_live fleet1 ''pw'' ws0 ''node1'' False 0)
     = Inr True \<and>
   length (issues_of (fst (snd
     (process_node env_first_command_fails default_globals args_live fleet1 ''pw'' ws0 ''node1'' False 0)))) = 1"
proof -
  let ?d2 = "diagnose_on_remote env_first_command_fails default_globals ws0 ''node1'' (fl_port fleet1) 1"
  have p: "diagnose_on_remote env_first_command_fails default_globals ws0 ''node1'' (fl_port fleet1) 0
     = (Inl (Exc SSHException (Text ''Timeout opening channel.'')), [E_run ws0 (Getent_hosts ''node1'')], 1)"
    by (simp add: run_defs example_defs)
  have s1: "fst ?d2 = Inr \<lparr>dns_ok = Some False, dns_ips = [], tcp_ok = Some False,
                tcp_method = Some ''nc|/dev/tcp'', diag_notes = [Note_dns_failed]\<rparr>"
    by (simp add: run_defs example_defs)
  then have s: "?d2 = (Inr \<lparr>dns_ok = Some False, dns_ips = [], tcp_ok = Some False,
                tcp_method = Some ''nc|/dev/tcp'', diag_notes = [Note_dns_failed]\<rparr>,
                fst (snd ?d2), snd (snd ?d2))"
    by (metis prod.collapse)
  from precheck_exception_recorded[OF p s, of args_live "''pw''" False]
  have "fst (process_node env_first_command_fails default_globals args_live fleet1 ''pw'' ws0 ''node1'' False 0)
     = Inr True \<and>
   length (issues_of (fst (snd
     (process_node env_first_command_fails default_globals args_live fleet1 ''pw'' ws0 ''node1'' False 0)))) = 1"
    using diagnose_on_remote_events[OF p] diagnose_on_remote_events[OF s]
    by (auto simp: args_live_def issues_of_def)
  with p s1 show ?thesis by blast
qed

text \<open>
  C10 as stated fails when the second diagnosis raises as well (the session of the fleet host
  is dead, the likely cause of a pre-check that raises): no issue is recorded for the node, and
  the exception leaves the node's step.
\<close>

theorem precheck_exception_lost:
  "fst (diagnose_on_remote env_dead_session default_globals ws0 ''node1'' (fl_port fleet1) 0)
     = Inl (Exc SSHException (Text ''SSH session not active'')) \<and>
   fst (process_node env_dead_session default_globals args_live fleet1 ''pw'' ws0 ''node1'' False 0)
     = Inl (Exc SSHException (Text ''SSH session not active'')) \<and>
   issues_of (fst (snd
     (process_node env_dead_session default_globals args_live fleet1 ''pw'' ws0 ''node1'' False 0))) = []"
  by (simp add: run_defs example_defs issues_of_def)

section \<open>Sessions are released\<close>

text \<open>
  The run, case by case; the actions of each part leave the stack of open sessions as they
  found it, the part that connects to a host opens that host's session and the \<^verbatim>\<open>finally\<close>
  block of the same part closes it.
\<close>

lemma open_sessions_append:
  "open_sessions (a @ b) st = (case open_sessions a st of None \<Rightarrow> None | Some st' \<Rightarrow> open_sessions b st')"
  by (induction a st rule: open_sessions.induct) (auto split: list.splits)

lemma open_sessions_neutral:
  assumes "\<forall>e\<in>set evs. (\<forall>s. e \<noteq> E_connect s None) \<and> (\<forall>s. e \<noteq> E_close s)"
  shows "open_sessions evs st = Some st"
  using assms
  by (induction evs st rule: open_sessions.induct) auto

lemma open_sessions_counts:
  assumes "open_sessions evs st = Some st'"
  shows "count_list (opened evs) s + count_list st s = count_list (closed evs) s + count_list st' s"
  using assms
  by (induction evs st rule: open_sessions.induct)
     (auto simp: opened_def closed_def split: list.splits if_splits)

lemma resolve_password_events:
  assumes "resolve_password W val prompt_label w = (r, evs, w')"
  shows "\<forall>e\<in>set evs. e = E_getpass prompt_label \<or> (\<exists>k. e = E_environ k) \<or> (\<exists>p. e = E_read_file p)"
  using assms
  by (auto simp: resolve_password_def Let_def split: option.splits if_splits prod.splits sum.splits)

lemma resolve_passwords_events:
  assumes "resolve_passwords W fleets m w = (r, evs, w')"
  shows "\<forall>e\<in>set evs. (\<exists>n. e = E_getpass (FleetPasswordPrompt n)) \<or> (\<exists>k. e = E_environ k) \<or>
                      (\<exists>p. e = E_read_file p)"
  using assms
proof (induction fleets arbitrary: m w r evs w')
  case Nil
  then show ?case by simp
next
  case (Cons f fs)
  obtain r1 evs1 w1 where
    p: "resolve_password W (fl_password f) (FleetPasswordPrompt (fl_name f)) w = (r1, evs1, w1)"
    by (cases "resolve_password W (fl_password f) (FleetPasswordPrompt (fl_name f)) w") auto
  from resolve_password_events[OF p]
  have e1: "\<forall>e\<in>set evs1. (\<exists>n. e = E_getpass (FleetPasswordPrompt n)) \<or> (\<exists>k. e = E_environ k) \<or>
                      (\<exists>p. e = E_read_file p)" by auto
  show ?case
  proof (cases r1)
    case (Inl e)
    with p Cons.prems e1 show ?thesis by simp
  next
    case (Inr pw)
    obtain r2 evs2 w2 where
      l: "resolve_passwords W fs (m(fl_name f \<mapsto> pw)) w1 = (r2, evs2, w2)"
      by (cases "resolve_passwords W fs (m(fl_name f \<mapsto> pw)) w1") auto
    from p Inr l Cons.prems have "evs = evs1 @ evs2" by simp
    with e1 Cons.IH[OF l] show ?thesis by auto
  qed
qed

lemma gateway_body_cases:
  assumes "gateway_body W G args gw fleets m gw_sudo_pw gw_conn w = (r, evs, w')"
  shows "\<exists>rl evsl wl. fleets_loop W G args gw_conn m fleets w = (rl, evsl, wl) \<and>
           ((\<exists>e. rl = Inl e \<and> r = Inl e \<and> evs = evsl @ [E_close gw_conn]) \<or>
            (rl = Inr () \<and>
               (\<exists>evs2 w2. shutdown_host W G ''triton'' gw_conn (gw_needs_sudo_password gw) gw_sudo_pw
                              (dry_run args) wl = (r, evs2, w2) \<and>
                           evs = evsl @ evs2 @ [E_close gw_conn])))"
proof -
  obtain rl evsl wl where l: "fleets_loop W G args gw_conn m fleets w = (rl, evsl, wl)"
    by (cases "fleets_loop W G args gw_conn m fleets w") auto
  show ?thesis
  proof (cases rl)
    case (Inl e)
    with l assms show ?thesis by (auto simp: gateway_body_def ssh_close_def)
  next
    case (Inr u)
    obtain r2 evs2 w2 where
      s: "shutdown_host W G ''triton'' gw_conn (gw_needs_sudo_password gw) gw_sudo_pw (dry_run args) wl
            = (r2, evs2, w2)"
      by (cases "shutdown_host W G ''triton'' gw_conn (gw_needs_sudo_password gw) gw_sudo_pw (dry_run args) wl")
         auto
    with l Inr assms show ?thesis by (auto simp: gateway_body_def ssh_close_def)
  qed
qed

lemma main_cases:
  assumes "main W G args gw fleets w = (r, evs, w')"
  shows "\<exists>pre. (\<forall>e\<in>set pre. (\<exists>p. e = E_getpass p) \<or> (\<exists>k. e = E_environ k) \<or> (\<exists>p. e = E_read_file p) \<or>
                              (\<exists>p. e = E_load_pkey p)) \<and>
           ((\<exists>e. r = Inl e \<and> evs = pre) \<or>
            (\<exists>e. r = Inr () \<and>
                 evs = pre @ [E_connect (SSH (gw_host gw) (gw_user gw) (gw_port gw) None) (Some e),
                              E_fatal (fst (classify_failure e None)) (snd (classify_failure e None)) e]) \<or>
            (\<exists>m pw evs4 w4.
                 gateway_body W G args gw fleets m pw (SSH (gw_host gw) (gw_user gw) (gw_port gw) None) w4
                   = (r, evs4, w') \<and>
                 evs = pre @ E_connect (SSH (gw_host gw) (gw_user gw) (gw_port gw) None) None # evs4))"
proof -
  let ?gwc = "SSH (gw_host gw) (gw_user gw) (gw_port gw) None"
  let ?L = "\<lambda>e. (\<exists>p. e = E_getpass p) \<or> (\<exists>k. e = E_environ k) \<or> (\<exists>p. e = E_read_file p) \<or>
                 (\<exists>p. e = E_load_pkey p)"
  obtain rp evs1 w1 where rp: "resolve_passwords W fleets Map.empty w = (rp, evs1, w1)"
    by (cases "resolve_passwords W fleets Map.empty w") auto
  from resolve_passwords_events[OF rp] have l1: "\<forall>e\<in>set evs1. ?L e" by auto
  show ?thesis
  proof (cases rp)
    case (Inl e)
    with rp assms have "r = Inl e" "evs = evs1" by (simp_all add: main_def)
    with l1 show ?thesis by blast
  next
    case (Inr m)
    define g where "g = (if gw_needs_sudo_password gw then
                   (case op_getpass W GatewaySudoPrompt w1 of
                      (Inl e, w2) \<Rightarrow> (Inl e, [E_getpass GatewaySudoPrompt], w2)
                    | (Inr p, w2) \<Rightarrow> (Inr (Some p), [E_getpass GatewaySudoPrompt], w2))
                 else (Inr None, [], w1))"
    obtain rg evs2 w2 where g: "g = (rg, evs2, w2)" by (cases g) auto
    have l2: "\<forall>e\<in>set evs2. ?L e"
      using g unfolding g_def by (auto split: if_splits prod.splits sum.splits)
    have m1: "main W G args gw fleets w =
      (case g of
             (Inl e, evs2, w2) \<Rightarrow> (Inl e, evs1 @ evs2, w2)
           | (Inr gw_sudo_pw, evs2, w2) \<Rightarrow>
               (case op_load_pkey W (gw_pkey_path gw) w2 of
                  (Inl e, w3) \<Rightarrow> (Inl e, evs1 @ evs2 @ [E_load_pkey (gw_pkey_path gw)], w3)
                | (Inr pk, w3) \<Rightarrow>
                    (case connect_host W (gw_host gw) (gw_user gw) (gw_port gw) (Some pk) None None w3 of
                       (Inl e, evs3, w4) \<Rightarrow>
                         (Inr (),
                          evs1 @ evs2 @ [E_load_pkey (gw_pkey_path gw)] @ evs3 @
                          [E_fatal (fst (classify_failure e None)) (snd (classify_failure e None)) e],
                          w4)
                     | (Inr gw_conn, evs3, w4) \<Rightarrow>
                         (case gateway_body W G args gw fleets m gw_sudo_pw gw_conn w4 of
                            (r, evs4, w5) \<Rightarrow>
                              (r, evs1 @ evs2 @ [E_load_pkey (gw_pkey_path gw)] @ evs3 @ evs4, w5)))))"
      using rp Inr unfolding g_def by (simp add: main_def)
    show ?thesis
    proof (cases rg)
      case (Inl e)
      with m1 g assms have "r = Inl e" "evs = evs1 @ evs2" by simp_all
      moreover from l1 l2 have "\<forall>e\<in>set (evs1 @ evs2). ?L e" by auto
      ultimately show ?thesis by blast
    next
      case rg: (Inr gw_sudo_pw)
      obtain rk w3 where k: "op_load_pkey W (gw_pkey_path gw) w2 = (rk, w3)"
        by (cases "op_load_pkey W (gw_pkey_path gw) w2") auto
      let ?pre = "evs1 @ evs2 @ [E_load_pkey (gw_pkey_path gw)]"
      from l1 l2 have lp: "\<forall>e\<in>set ?pre. ?L e" by auto
      show ?thesis
      proof (cases rk)
        case (Inl e)
        with m1 g rg k assms have "r = Inl e" "evs = ?pre" by simp_all
        with lp show ?thesis by blast
      next
        case rk: (Inr pk)
        obtain rc evs3 w4 where
          c: "connect_host W (gw_host gw) (gw_user gw) (gw_port gw) (Some pk) None None w3 = (rc, evs3, w4)"
          by (cases "connect_host W (gw_host gw) (gw_user gw) (gw_port gw) (Some pk) None None w3") auto
        note cc = connect_host_cases[OF c]
        show ?thesis
        proof (cases rc)
          case (Inl e)
          with cc have "evs3 = [E_connect ?gwc (Some e)]" by auto
          with m1 g rg k rk c Inl assms have "r = Inr ()"
            "evs = ?pre @ [E_connect ?gwc (Some e),
                           E_fatal (fst (classify_failure e None)) (snd (classify_failure e None)) e]"
            by simp_all
          with lp show ?thesis by blast
        next
          case rc: (Inr gw_conn)
          with cc have gc: "gw_conn = ?gwc" "evs3 = [E_connect ?gwc None]" by auto
          obtain r4 evs4 w5 where
            b: "gateway_body W G args gw fleets m gw_sudo_pw ?gwc w4 = (r4, evs4, w5)"
            by (cases "gateway_body W G args gw fleets m gw_sudo_pw ?gwc w4") auto
          with m1 g rg k rk c rc gc assms have "r = r4" "w' = w5"
            "evs = ?pre @ E_connect ?gwc None # evs4" by simp_all
          with b lp show ?thesis by blast
        qed
      qed
    qed
  qed
qed

lemma diagnose_neutral:
  assumes "diagnose_on_remote W G s host port w = (r, evs, w')"
  shows "open_sessions evs st = Some st"
  using diagnose_on_remote_events[OF assms] by (intro open_sessions_neutral) auto

lemma shutdown_host_neutral:
  assumes "shutdown_host W G tag client sudo pw dry w = (r, evs, w')"
  shows "open_sessions evs st = Some st"
proof -
  from shutdown_host_events[OF assms] obtain rest where
    r: "evs = E_shutdown_host tag client dry # rest"
      "\<forall>e\<in>set rest. (\<exists>c i. e = E_exec client c i) \<or> (\<exists>c. e = E_warn_exit tag c)" by blast
  from r(2) have "\<forall>e\<in>set rest. (\<forall>s. e \<noteq> E_connect s None) \<and> (\<forall>s. e \<noteq> E_close s)" by fastforce
  with r(1) show ?thesis by (intro open_sessions_neutral) simp
qed

lemma node_try_failure_neutral:
  assumes res: "node_try W G f pw ws node w = (Inl x, evs, w')"
  shows "open_sessions evs st = Some st"
proof -
  obtain r1 evs1 w1 where d: "diagnose_on_remote W G ws node (fl_port f) w = (r1, evs1, w1)"
    by (cases "diagnose_on_remote W G ws node (fl_port f) w") auto
  note e1 = diagnose_neutral[OF d]
  show ?thesis
  proof (cases r1)
    case (Inl e)
    with d res e1 show ?thesis by (simp add: node_try_def)
  next
    case (Inr pre)
    obtain r3 evs3 w3 where o: "open_direct_tcpip_channel W G ws node (fl_port f) w1 = (r3, evs3, w3)"
      by (cases "open_direct_tcpip_channel W G ws node (fl_port f) w1") auto
    note e3 = open_channel_cases[OF o]
    show ?thesis
    proof (cases r3)
      case (Inl e)
      with d Inr o res e1 e3 show ?thesis
        by (auto simp: node_try_def Let_def open_sessions_append)
    next
      case r3: (Inr sock)
      obtain r4 evs4 w4 where
        c: "connect_host W node (fl_user f) (fl_port f) None (Some pw) (Some sock) w3 = (r4, evs4, w4)"
        by (cases "connect_host W node (fl_user f) (fl_port f) None (Some pw) (Some sock) w3") auto
      from d Inr o r3 c res have r4: "r4 = Inl x" by (auto simp: node_try_def Let_def)
      with connect_host_cases[OF c] have "\<exists>s. evs4 = [E_connect s (Some x)]" by auto
      with d Inr o r3 c res e1 e3 show ?thesis
        by (auto simp: node_try_def Let_def open_sessions_append)
    qed
  qed
qed

lemma node_except_neutral:
  assumes "node_except W G args f ws node parent_skip e w = (r, evs, w')"
  shows "open_sessions evs st = Some st"
  using node_except_events[OF assms, of "\<lambda>e. (\<forall>s. e \<noteq> E_connect s None) \<and> (\<forall>s. e \<noteq> E_close s)"]
  by (intro open_sessions_neutral) simp

lemma process_node_balanced:
  assumes res: "process_node W G args f pw ws node parent_skip w = (r, evs, w')"
  shows "open_sessions evs st = Some st"
  using process_node_split[OF res]
proof (elim disjE exE conjE)
  fix e evs1 w1 evs2
  assume t: "node_try W G f pw ws node w = (Inl e, evs1, w1)"
    and x: "node_except W G args f ws node parent_skip e w1 = (r, evs2, w')"
    and ev: "evs = evs1 @ evs2"
  from node_try_failure_neutral[OF t] node_except_neutral[OF x] ev show ?thesis
    by (simp add: open_sessions_append)
next
  fix evs1 w1 evs2
  let ?s = "node_ssh f ws node"
  assume t: "node_try W G f pw ws node w = (Inr ?s, evs1, w1)"
    and x: "node_shutdown W G args f pw ws node ?s parent_skip w1 = (r, evs2, w')"
    and ev: "evs = evs1 @ evs2"
  from node_try_result[OF t] obtain pre where
    pre: "evs1 = pre @ [E_connect ?s None]"
      "\<forall>e\<in>set pre. (\<exists>c. e = E_run ws c) \<or> (\<exists>i. e = E_issue i \<and> issue_stage i = ''node(precheck)'') \<or>
              e = E_open_channel ws node (fl_port f)" by blast
  from pre(2) have "\<forall>e\<in>set pre. (\<forall>s. e \<noteq> E_connect s None) \<and> (\<forall>s. e \<noteq> E_close s)" by auto
  then have p0: "open_sessions pre st = Some st" by (rule open_sessions_neutral)
  with pre(1) have o1: "open_sessions evs1 st = Some (?s # st)" by (simp add: open_sessions_append)
  have o2: "open_sessions evs2 (?s # st) = Some st"
  proof (cases "dry_run args")
    case True
    from node_shutdown_dry[OF True x] show ?thesis by simp
  next
    case False
    from node_shutdown_live[OF False x] obtain r1 evs3 w3 ok where
      s: "shutdown_host W G node ?s (fl_needs_sudo_password f) (Some pw) False w1 = (r1, evs3, w3)"
      and ev2: "evs2 = evs3 @ E_close ?s # E_wait ws node (fl_port f) ok #
                   (if \<not> ok \<and> \<not> non_strict args then [E_protect node (fl_name f)] else [])"
      by blast
    from shutdown_host_neutral[OF s] ev2 show ?thesis by (simp add: open_sessions_append)
  qed
  from o1 o2 ev show ?thesis by (simp add: open_sessions_append)
qed

lemma nodes_loop_balanced:
  assumes "nodes_loop W G args f pw ws nodes parent_skip w = (r, evs, w')"
  shows "open_sessions evs st = Some st"
  using assms
proof (induction nodes arbitrary: parent_skip w r evs w')
  case Nil
  then show ?case by simp
next
  case (Cons node nodes)
  from nodes_loop_split[OF Cons.prems] show ?case
  proof (elim disjE exE conjE)
    fix e assume "process_node W G args f pw ws node parent_skip w = (Inl e, evs, w')"
    then show ?thesis by (rule process_node_balanced)
  next
    fix ps evs1 w1 evs2
    assume p: "process_node W G args f pw ws node parent_skip w = (Inr ps, evs1, w1)"
      and l: "nodes_loop W G args f pw ws nodes ps w1 = (r, evs2, w')"
      and ev: "evs = evs1 @ evs2"
    from process_node_balanced[OF p] Cons.IH[OF l] ev show ?thesis
      by (simp add: open_sessions_append)
  qed
qed

lemma fleet_except_neutral:
  assumes "fleet_except W G gw_conn f e w = (r, evs, w')"
  shows "open_sessions evs st = Some st"
  using fleet_except_cases[OF assms]
proof (elim disjE exE conjE)
  fix e2 assume "diagnose_on_remote W G gw_conn (fl_name f) (fl_port f) w = (Inl e2, evs, w')"
  then show ?thesis by (rule diagnose_neutral)
next
  fix d evs1
  assume d: "diagnose_on_remote W G gw_conn (fl_name f) (fl_port f) w = (Inr d, evs1, w')"
    and ev: "evs = evs1 @ [E_issue \<lparr>issue_stage = ''workstation'', issue_via = ''triton'',
                           issue_target = fl_name f,
                           issue_reason = fst (classify_failure e (Some d)),
                           issue_hint = snd (classify_failure e (Some d)),
                           issue_diag = d, issue_error = msg e\<rparr>]"
  from diagnose_neutral[OF d] ev show ?thesis by (simp add: open_sessions_append)
qed

lemma process_fleet_balanced:
  assumes run: "process_fleet W G args gw_conn m f w = (r, evs, w')"
  shows "open_sessions evs st = Some st"
  using process_fleet_cases[OF run]
proof (elim disjE exE conjE)
  assume "evs = []"
  then show ?thesis by simp
next
  fix pw e evs1 w1 evs2
  assume t: "fleet_try W G gw_conn f pw w = (Inl e, evs1, w1)"
    and x: "fleet_except W G gw_conn f e w1 = (r, evs2, w')"
    and ev: "evs = evs1 @ evs2"
  from fleet_try_cases[OF t] have "open_sessions evs1 st = Some st" by auto
  with fleet_except_neutral[OF x] ev show ?thesis by (simp add: open_sessions_append)
next
  fix pw evs1 w1 evs2
  let ?ws = "fleet_ssh gw_conn f"
  assume t: "fleet_try W G gw_conn f pw w = (Inr ?ws, evs1, w1)"
    and b: "fleet_body W G args f pw ?ws w1 = (r, evs2, w')"
    and ev: "evs = evs1 @ evs2"
  from fleet_try_cases[OF t] have o1: "open_sessions evs1 st = Some (?ws # st)" by auto
  from fleet_body_cases[OF b] obtain rn evsn wn where
    n: "nodes_loop W G args f pw ?ws (fl_nodes f) False w1 = (rn, evsn, wn)"
    and cs: "(\<exists>e. rn = Inl e \<and> r = Inl e \<and> evs2 = evsn @ [E_close ?ws]) \<or>
          (rn = Inr True \<and> r = Inr () \<and> evs2 = evsn @ [E_skipped (fl_name f), E_close ?ws]) \<or>
          (rn = Inr False \<and>
             (\<exists>evs3 w3. shutdown_host W G (fl_name f) ?ws (fl_needs_sudo_password f) (Some pw)
                            (dry_run args) wn = (r, evs3, w3) \<and>
                         evs2 = evsn @ evs3 @ [E_close ?ws]))" by blast
  note nb = nodes_loop_balanced[OF n]
  from cs have o2: "open_sessions evs2 (?ws # st) = Some st"
  proof (elim disjE exE conjE)
    fix e assume "evs2 = evsn @ [E_close ?ws]"
    with nb show ?thesis by (simp add: open_sessions_append)
  next
    assume "evs2 = evsn @ [E_skipped (fl_name f), E_close ?ws]"
    with nb show ?thesis by (simp add: open_sessions_append)
  next
    fix evs3 w3
    assume s: "shutdown_host W G (fl_name f) ?ws (fl_needs_sudo_password f) (Some pw)
                            (dry_run args) wn = (r, evs3, w3)"
      and "evs2 = evsn @ evs3 @ [E_close ?ws]"
    with nb shutdown_host_neutral[OF s] show ?thesis by (simp add: open_sessions_append)
  qed
  from o1 o2 ev show ?thesis by (simp add: open_sessions_append)
qed

lemma fleets_loop_balanced:
  assumes "fleets_loop W G args gw_conn m fleets w = (r, evs, w')"
  shows "open_sessions evs st = Some st"
  using assms
proof (induction fleets arbitrary: w r evs w')
  case Nil
  then show ?case by simp
next
  case (Cons f fs)
  from fleets_loop_split[OF Cons.prems] show ?case
  proof (elim disjE exE conjE)
    fix e assume "process_fleet W G args gw_conn m f w = (Inl e, evs, w')"
    then show ?thesis by (rule process_fleet_balanced)
  next
    fix evs1 w1 evs2
    assume p: "process_fleet W G args gw_conn m f w = (Inr (), evs1, w1)"
      and l: "fleets_loop W G args gw_conn m fs w1 = (r, evs2, w')"
      and ev: "evs = evs1 @ evs2"
    from process_fleet_balanced[OF p] Cons.IH[OF l] ev show ?thesis
      by (simp add: open_sessions_append)
  qed
qed

lemma gateway_body_balanced:
  assumes "gateway_body W G args gw fleets m pw gw_conn w = (r, evs, w')"
  shows "open_sessions evs (gw_conn # st) = Some st"
proof -
  from gateway_body_cases[OF assms] obtain rl evsl wl where
    l: "fleets_loop W G args gw_conn m fleets w = (rl, evsl, wl)"
    and cs: "(\<exists>e. rl = Inl e \<and> r = Inl e \<and> evs = evsl @ [E_close gw_conn]) \<or>
            (rl = Inr () \<and>
               (\<exists>evs2 w2. shutdown_host W G ''triton'' gw_conn (gw_needs_sudo_password gw) pw
                              (dry_run args) wl = (r, evs2, w2) \<and>
                           evs = evsl @ evs2 @ [E_close gw_conn]))" by blast
  note lb = fleets_loop_balanced[OF l]
  from cs show ?thesis
  proof (elim disjE exE conjE)
    fix e assume "evs = evsl @ [E_close gw_conn]"
    with lb show ?thesis by (simp add: open_sessions_append)
  next
    fix evs2 w2
    assume s: "shutdown_host W G ''triton'' gw_conn (gw_needs_sudo_password gw) pw
                              (dry_run args) wl = (r, evs2, w2)"
      and "evs = evsl @ evs2 @ [E_close gw_conn]"
    with lb shutdown_host_neutral[OF s] show ?thesis by (simp add: open_sessions_append)
  qed
qed

text \<open>
  What the environment itself sees. If the environment keeps a record of its sessions, every
  part of the run leaves the record longer by exactly the session actions it performed: the
  closes in the list of actions are closes the environment was asked for.
\<close>

lemma rs_connect:
  assumes "records_sessions W L" and "op_connect W s pk pw w = (x, w1)"
  shows "L w1 = L w @ (case x of None \<Rightarrow> [E_connect s None] | Some e \<Rightarrow> [])"
proof -
  from assms(1) have "L (snd (op_connect W s pk pw w)) =
        L w @ (case fst (op_connect W s pk pw w) of None \<Rightarrow> [E_connect s None] | Some e \<Rightarrow> [])"
    by (simp add: records_sessions_def)
  with assms(2) show ?thesis by simp
qed

lemma rs_close:
  assumes "records_sessions W L"
  shows "L (op_close W s w) = L w @ [E_close s]"
  using assms by (simp add: records_sessions_def)

lemma rs_getpass:
  assumes "records_sessions W L" and "op_getpass W p w = (x, w1)"
  shows "L w1 = L w"
proof -
  from assms(1) have "L (snd (op_getpass W p w)) = L w" by (simp add: records_sessions_def)
  with assms(2) show ?thesis by simp
qed

lemma rs_read_file:
  assumes "records_sessions W L" and "op_read_file W p w = (x, w1)"
  shows "L w1 = L w"
proof -
  from assms(1) have "L (snd (op_read_file W p w)) = L w" by (simp add: records_sessions_def)
  with assms(2) show ?thesis by simp
qed

lemma rs_load_pkey:
  assumes "records_sessions W L" and "op_load_pkey W p w = (x, w1)"
  shows "L w1 = L w"
proof -
  from assms(1) have "L (snd (op_load_pkey W p w)) = L w" by (simp add: records_sessions_def)
  with assms(2) show ?thesis by simp
qed

lemma rs_open_channel:
  assumes "records_sessions W L" and "op_open_channel W s h p t w = (x, w1)"
  shows "L w1 = L w"
proof -
  from assms(1) have "L (snd (op_open_channel W s h p t w)) = L w" by (simp add: records_sessions_def)
  with assms(2) show ?thesis by simp
qed

lemma rs_close_channel:
  assumes "records_sessions W L"
  shows "L (op_close_channel W c w) = L w"
  using assms by (simp add: records_sessions_def)

lemma rs_exec_command:
  assumes "records_sessions W L" and "op_exec_command W s c pty t i w = (x, w1)"
  shows "L w1 = L w"
proof -
  from assms(1) have "L (snd (op_exec_command W s c pty t i w)) = L w"
    by (simp add: records_sessions_def)
  with assms(2) show ?thesis by simp
qed

lemma rs_sleep:
  assumes "records_sessions W L" and "op_sleep W d w = (x, w1)"
  shows "L w1 = L w"
proof -
  from assms(1) have "L (snd (op_sleep W d w)) = L w" by (simp add: records_sessions_def)
  with assms(2) show ?thesis by simp
qed

lemma connect_host_ledger:
  assumes rs: "records_sessions W L" and res: "connect_host W host user port pk pw sock w = (r, evs, w')"
  shows "L w' = L w @ filter session_event evs"
  using res
  by (auto simp: connect_host_def Let_def split: prod.splits option.splits dest!: rs_connect[OF rs])

lemma ssh_close_ledger:
  assumes rs: "records_sessions W L" and res: "ssh_close W s w = (evs, w')"
  shows "L w' = L w @ filter session_event evs"
  using res by (auto simp: ssh_close_def rs_close[OF rs])

lemma open_channel_ledger:
  assumes rs: "records_sessions W L" and res: "open_direct_tcpip_channel W G s host port w = (r, evs, w')"
  shows "L w' = L w @ filter session_event evs"
  using res
  by (auto simp: open_direct_tcpip_channel_def split: prod.splits option.splits
           dest!: rs_open_channel[OF rs])

lemma is_ssh_reachable_ledger:
  assumes rs: "records_sessions W L" and res: "is_ssh_reachable_via_transport W s host port w = (x, w')"
  shows "L w' = L w"
  using res
  by (auto simp: is_ssh_reachable_via_transport_def rs_close_channel[OF rs]
           split: prod.splits option.splits dest!: rs_open_channel[OF rs])

lemma wait_loop_ledger:
  assumes rs: "records_sessions W L"
    and res: "wait_loop W s host port deadline poll now w = (ok, fin, w')"
  shows "L w' = L w"
  using assms
proof (induction W s host port deadline poll now w rule: wait_loop.induct)
  case (1 W s host port deadline poll now w)
  note rs = "1.prems"(1) and res = "1.prems"(2)
  show ?case
  proof (cases "now < deadline")
    case False
    with res show ?thesis by (subst (asm) wait_loop.simps) simp
  next
    case True
    obtain reachable d w1 where
      isr: "is_ssh_reachable_via_transport W s host port w = ((reachable, d), w1)"
      by (cases "is_ssh_reachable_via_transport W s host port w") auto
    from is_ssh_reachable_ledger[OF rs isr] have l1: "L w1 = L w" .
    show ?thesis
    proof (cases reachable)
      case False
      with res True isr have "w' = w1" by (subst (asm) wait_loop.simps) simp
      with l1 show ?thesis by simp
    next
      case r: True
      obtain slept w2 where sl: "op_sleep W (real_of_int (max 1 poll)) w1 = (slept, w2)"
        by (cases "op_sleep W (real_of_int (max 1 poll)) w1") auto
      from rs_sleep[OF rs sl] have l2: "L w2 = L w1" .
      from res True isr r sl have step:
        "wait_loop W s host port deadline poll
           (now + max 0 d + max (real_of_int (max 1 poll)) slept) w2 = (ok, fin, w')"
        by (subst (asm) wait_loop.simps) simp
      have "L w' = L w2"
        by (rule "1.IH"[OF True isr[symmetric] refl _ sl[symmetric] rs step]) (simp add: r)
      with l1 l2 show ?thesis by simp
    qed
  qed
qed

lemma wait_ledger:
  assumes rs: "records_sessions W L"
    and res: "wait_for_host_down_via_transport W s host port t p w = (x, evs, w')"
  shows "L w' = L w @ filter session_event evs"
  using res
  by (auto simp: wait_for_host_down_via_transport_def Let_def split: prod.splits
           dest!: wait_loop_ledger[OF rs])

lemma remote_run_ledger:
  assumes rs: "records_sessions W L" and res: "remote_run W s cmd w = (r, evs, w')"
  shows "L w' = L w @ filter session_event evs"
  using res by (auto simp: remote_run_def split: prod.splits dest!: rs_exec_command[OF rs])

lemma dns_loop_ledger:
  assumes rs: "records_sessions W L" and res: "dns_loop W s cmds result w = (r, evs, w')"
  shows "L w' = L w @ filter session_event evs"
  using res
proof (induction cmds arbitrary: w r evs w')
  case Nil
  then show ?case by simp
next
  case (Cons cmd cmds)
  obtain r1 evs1 w1 where x: "remote_run W s cmd w = (r1, evs1, w1)"
    by (cases "remote_run W s cmd w") auto
  note l1 = remote_run_ledger[OF rs x]
  show ?case
  proof (cases r1)
    case (Inl e)
    with x Cons.prems l1 show ?thesis by simp
  next
    case (Inr t)
    obtain rc out err where t: "t = (rc, out, err)" by (cases t) auto
    show ?thesis
    proof (cases "strip out \<noteq> [] \<and> parse_ips out \<noteq> []")
      case True
      with x Inr t Cons.prems l1 show ?thesis by auto
    next
      case False
      obtain r2 evs2 w2 where y: "dns_loop W s cmds result w1 = (r2, evs2, w2)"
        by (cases "dns_loop W s cmds result w1") auto
      from x Inr t False y Cons.prems have "evs = evs1 @ evs2" "w' = w2" by auto
      with l1 Cons.IH[OF y] show ?thesis by simp
    qed
  qed
qed

lemma tcp_probe_ledger:
  assumes rs: "records_sessions W L" and res: "tcp_probe W G s host port result w = (r, evs, w')"
  shows "L w' = L w @ filter session_event evs"
  using res
  by (auto simp: tcp_probe_def split: prod.splits sum.splits if_splits dest!: remote_run_ledger[OF rs])

lemma diagnose_ledger:
  assumes rs: "records_sessions W L" and res: "diagnose_on_remote W G s host port w = (r, evs, w')"
  shows "L w' = L w @ filter session_event evs"
  using res
  by (auto simp: diagnose_on_remote_def Let_def simp del: dns_loop.simps
           split: prod.splits sum.splits if_splits
           dest!: dns_loop_ledger[OF rs] tcp_probe_ledger[OF rs])

lemma run_remote_command_ledger:
  assumes rs: "records_sessions W L" and res: "run_remote_command W s cmd sudo pw w = (r, evs, w')"
  shows "L w' = L w @ filter session_event evs"
  using res
  by (auto simp: run_remote_command_def Let_def split: prod.splits sum.splits
           dest!: rs_exec_command[OF rs])

lemma shutdown_host_ledger:
  assumes rs: "records_sessions W L" and res: "shutdown_host W G tag s sudo pw dry w = (r, evs, w')"
  shows "L w' = L w @ filter session_event evs"
  using res
  by (auto simp: shutdown_host_def split: prod.splits sum.splits if_splits
           dest!: run_remote_command_ledger[OF rs])

lemma resolve_password_ledger:
  assumes rs: "records_sessions W L" and res: "resolve_password W val p w = (r, evs, w')"
  shows "L w' = L w @ filter session_event evs"
  using res
  by (auto simp: resolve_password_def Let_def split: prod.splits sum.splits if_splits option.splits
           dest!: rs_getpass[OF rs] rs_read_file[OF rs])

lemma resolve_passwords_ledger:
  assumes rs: "records_sessions W L" and res: "resolve_passwords W fleets m w = (r, evs, w')"
  shows "L w' = L w @ filter session_event evs"
  using res
proof (induction fleets arbitrary: m w r evs w')
  case Nil
  then show ?case by simp
next
  case (Cons f fs)
  obtain r1 evs1 w1 where
    p: "resolve_password W (fl_password f) (FleetPasswordPrompt (fl_name f)) w = (r1, evs1, w1)"
    by (cases "resolve_password W (fl_password f) (FleetPasswordPrompt (fl_name f)) w") auto
  note l1 = resolve_password_ledger[OF rs p]
  show ?case
  proof (cases r1)
    case (Inl e)
    with p Cons.prems l1 show ?thesis by simp
  next
    case (Inr pw)
    obtain r2 evs2 w2 where
      l: "resolve_passwords W fs (m(fl_name f \<mapsto> pw)) w1 = (r2, evs2, w2)"
      by (cases "resolve_passwords W fs (m(fl_name f \<mapsto> pw)) w1") auto
    from p Inr l Cons.prems have "evs = evs1 @ evs2" "w' = w2" by simp_all
    with l1 Cons.IH[OF l] show ?thesis by simp
  qed
qed

lemma node_try_ledger:
  assumes rs: "records_sessions W L" and res: "node_try W G f pw ws node w = (r, evs, w')"
  shows "L w' = L w @ filter session_event evs"
  using res
  by (auto simp: node_try_def Let_def split: prod.splits sum.splits if_splits
           dest!: diagnose_ledger[OF rs] open_channel_ledger[OF rs] connect_host_ledger[OF rs])

lemma node_except_ledger:
  assumes rs: "records_sessions W L" and res: "node_except W G args f ws node ps e w = (r, evs, w')"
  shows "L w' = L w @ filter session_event evs"
  using res
  by (auto simp: node_except_def split: prod.splits sum.splits if_splits
           dest!: diagnose_ledger[OF rs])

lemma node_shutdown_ledger:
  assumes rs: "records_sessions W L"
    and res: "node_shutdown W G args f pw ws node node_cli ps w = (r, evs, w')"
  shows "L w' = L w @ filter session_event evs"
proof -
  obtain r1 evs1 w1 where
    s: "shutdown_host W G node node_cli (fl_needs_sudo_password f) (Some pw) (dry_run args) w = (r1, evs1, w1)"
    by (cases "shutdown_host W G node node_cli (fl_needs_sudo_password f) (Some pw) (dry_run args) w") auto
  note l1 = shutdown_host_ledger[OF rs s]
  let ?w2 = "op_close W node_cli w1"
  have l2: "L ?w2 = L w1 @ [E_close node_cli]" by (rule rs_close[OF rs])
  let ?t = "case node_timeout args of None \<Rightarrow> DEFAULT_NODE_SHUTDOWN_TIMEOUT G | Some t \<Rightarrow> t"
  let ?p = "case poll_interval args of None \<Rightarrow> DEFAULT_POLL_INTERVAL G | Some i \<Rightarrow> i"
  show ?thesis
  proof (cases "dry_run args")
    case True
    obtain slept w4 where sl: "op_sleep W (1 / 5) ?w2 = (slept, w4)"
      by (cases "op_sleep W (1 / 5) ?w2") auto
    from res s True sl have "w' = w4" "evs = evs1 @ [E_close node_cli]"
      by (cases r1; simp add: node_shutdown_def ssh_close_def)+
    with l1 l2 rs_sleep[OF rs sl] show ?thesis by simp
  next
    case False
    obtain ok fin evs3 w3 where
      wt: "wait_for_host_down_via_transport W ws node (fl_port f) ?t ?p ?w2 = ((ok, fin), evs3, w3)"
      by (cases "wait_for_host_down_via_transport W ws node (fl_port f) ?t ?p ?w2") auto
    note l3 = wait_ledger[OF rs wt]
    from wait_events[OF wt] have e3: "evs3 = [E_wait ws node (fl_port f) ok]" .
    obtain slept w4 where sl: "op_sleep W (1 / 5) w3 = (slept, w4)"
      by (cases "op_sleep W (1 / 5) w3") auto
    from res s False wt sl have "w' = w4"
      by (cases r1; cases "\<not> ok \<and> \<not> non_strict args") (auto simp: node_shutdown_def ssh_close_def)
    moreover from res s False wt sl have
      "filter session_event evs = filter session_event (evs1 @ [E_close node_cli] @ evs3)"
      by (cases r1; cases "\<not> ok \<and> \<not> non_strict args") (auto simp: node_shutdown_def ssh_close_def)
    ultimately show ?thesis using l1 l2 l3 rs_sleep[OF rs sl] e3 by simp
  qed
qed

lemma process_node_ledger:
  assumes rs: "records_sessions W L" and res: "process_node W G args f pw ws node ps w = (r, evs, w')"
  shows "L w' = L w @ filter session_event evs"
  using res
  by (auto simp: process_node_def split: prod.splits sum.splits
           dest!: node_try_ledger[OF rs] node_except_ledger[OF rs] node_shutdown_ledger[OF rs])

lemma nodes_loop_ledger:
  assumes rs: "records_sessions W L" and res: "nodes_loop W G args f pw ws nodes ps w = (r, evs, w')"
  shows "L w' = L w @ filter session_event evs"
  using res
proof (induction nodes arbitrary: ps w r evs w')
  case Nil
  then show ?case by simp
next
  case (Cons node nodes)
  obtain r1 evs1 w1 where p: "process_node W G args f pw ws node ps w = (r1, evs1, w1)"
    by (cases "process_node W G args f pw ws node ps w") auto
  note l1 = process_node_ledger[OF rs p]
  show ?case
  proof (cases r1)
    case (Inl e)
    with p Cons.prems l1 show ?thesis by simp
  next
    case (Inr ps')
    obtain r2 evs2 w2 where l: "nodes_loop W G args f pw ws nodes ps' w1 = (r2, evs2, w2)"
      by (cases "nodes_loop W G args f pw ws nodes ps' w1") auto
    from p Inr l Cons.prems have "evs = evs1 @ evs2" "w' = w2" by simp_all
    with l1 Cons.IH[OF l] show ?thesis by simp
  qed
qed

lemma fleet_try_ledger:
  assumes rs: "records_sessions W L" and res: "fleet_try W G gw_conn f pw w = (r, evs, w')"
  shows "L w' = L w @ filter session_event evs"
  using res
  by (auto simp: fleet_try_def split: prod.splits sum.splits
           dest!: open_channel_ledger[OF rs] connect_host_ledger[OF rs])

lemma fleet_except_ledger:
  assumes rs: "records_sessions W L" and res: "fleet_except W G gw_conn f e w = (r, evs, w')"
  shows "L w' = L w @ filter session_event evs"
  using res
  by (auto simp: fleet_except_def split: prod.splits sum.splits dest!: diagnose_ledger[OF rs])

lemma fleet_body_ledger:
  assumes rs: "records_sessions W L" and res: "fleet_body W G args f pw ws w = (r, evs, w')"
  shows "L w' = L w @ filter session_event evs"
  using res
  by (auto simp: fleet_body_def ssh_close_def rs_close[OF rs] split: prod.splits sum.splits if_splits
           dest!: nodes_loop_ledger[OF rs] shutdown_host_ledger[OF rs] rs_sleep[OF rs])

lemma process_fleet_ledger:
  assumes rs: "records_sessions W L" and res: "process_fleet W G args gw_conn m f w = (r, evs, w')"
  shows "L w' = L w @ filter session_event evs"
  using res
  by (auto simp: process_fleet_def split: prod.splits sum.splits option.splits
           dest!: fleet_try_ledger[OF rs] fleet_except_ledger[OF rs] fleet_body_ledger[OF rs])

lemma fleets_loop_ledger:
  assumes rs: "records_sessions W L" and res: "fleets_loop W G args gw_conn m fleets w = (r, evs, w')"
  shows "L w' = L w @ filter session_event evs"
  using res
proof (induction fleets arbitrary: w r evs w')
  case Nil
  then show ?case by simp
next
  case (Cons f fs)
  obtain r1 evs1 w1 where p: "process_fleet W G args gw_conn m f w = (r1, evs1, w1)"
    by (cases "process_fleet W G args gw_conn m f w") auto
  note l1 = process_fleet_ledger[OF rs p]
  show ?case
  proof (cases r1)
    case (Inl e)
    with p Cons.prems l1 show ?thesis by simp
  next
    case (Inr u)
    obtain r2 evs2 w2 where l: "fleets_loop W G args gw_conn m fs w1 = (r2, evs2, w2)"
      by (cases "fleets_loop W G args gw_conn m fs w1") auto
    from p Inr l Cons.prems have "evs = evs1 @ evs2" "w' = w2" by simp_all
    with l1 Cons.IH[OF l] show ?thesis by simp
  qed
qed

lemma gateway_body_ledger:
  assumes rs: "records_sessions W L"
    and res: "gateway_body W G args gw fleets m pw gw_conn w = (r, evs, w')"
  shows "L w' = L w @ filter session_event evs"
  using res
  by (auto simp: gateway_body_def ssh_close_def rs_close[OF rs] split: prod.splits sum.splits
           dest!: fleets_loop_ledger[OF rs] shutdown_host_ledger[OF rs])

lemma main_ledger:
  assumes rs: "records_sessions W L" and res: "main W G args gw fleets w = (r, evs, w')"
  shows "L w' = L w @ filter session_event evs"
  using res
  by (auto simp: main_def split: prod.splits sum.splits if_splits
           dest!: resolve_passwords_ledger[OF rs] rs_getpass[OF rs] rs_load_pkey[OF rs]
                  connect_host_ledger[OF rs] gateway_body_ledger[OF rs])

lemma open_sessions_filter:
  "open_sessions (filter session_event evs) st = open_sessions evs st"
  by (induction evs st rule: open_sessions.induct) (auto split: list.splits)

lemma opened_filter: "opened (filter session_event evs) = opened evs"
proof (induction evs)
  case Nil
  then show ?case by simp
next
  case (Cons e evs)
  then show ?case by (cases e rule: session_event.cases) (simp_all add: opened_def)
qed

lemma closed_filter: "closed (filter session_event evs) = closed evs"
proof (induction evs)
  case Nil
  then show ?case by simp
next
  case (Cons e evs)
  then show ?case by (cases e rule: session_event.cases) (simp_all add: closed_def)
qed

text \<open>
  C8. For every configuration, every environment and every way the run ends (it returns, it
  returns after the fatal failure to reach the gateway, or an exception leaves it): every close
  closes the most recently opened session that is still open, and at the end no session is open;
  hence each session value is closed as often as it was opened. This is so in the environment
  itself: if it keeps a record of the sessions it established and of the closes it was asked
  for, then at the end of the run that record has grown by exactly the session actions of the
  run, in which every close closes the most recently established session that is still open
  and no session is left open.
\<close>

theorem sessions_closed_once:
  "open_sessions (fst (snd (main W G args gw fleets w))) [] = Some [] \<and>
   count_list (closed (fst (snd (main W G args gw fleets w)))) s
     = count_list (opened (fst (snd (main W G args gw fleets w)))) s \<and>
   (records_sessions W ledger \<longrightarrow>
      (\<exists>hist. ledger (snd (snd (main W G args gw fleets w))) = ledger w @ hist \<and>
              hist = filter session_event (fst (snd (main W G args gw fleets w))) \<and>
              open_sessions hist [] = Some [] \<and>
              count_list (closed hist) s = count_list (opened hist) s))"
proof -
  obtain r evs w' where m: "main W G args gw fleets w = (r, evs, w')"
    by (cases "main W G args gw fleets w") auto
  let ?gwc = "SSH (gw_host gw) (gw_user gw) (gw_port gw) None"
  from main_cases[OF m] obtain pre where
    pre: "\<forall>e\<in>set pre. (\<exists>p. e = E_getpass p) \<or> (\<exists>k. e = E_environ k) \<or> (\<exists>p. e = E_read_file p) \<or>
                              (\<exists>p. e = E_load_pkey p)"
    and cs: "(\<exists>e. r = Inl e \<and> evs = pre) \<or>
            (\<exists>e. r = Inr () \<and>
                 evs = pre @ [E_connect ?gwc (Some e),
                              E_fatal (fst (classify_failure e None)) (snd (classify_failure e None)) e]) \<or>
            (\<exists>m pw evs4 w4.
                 gateway_body W G args gw fleets m pw ?gwc w4 = (r, evs4, w') \<and>
                 evs = pre @ E_connect ?gwc None # evs4)" by blast
  from pre have "\<forall>e\<in>set pre. (\<forall>s. e \<noteq> E_connect s None) \<and> (\<forall>s. e \<noteq> E_close s)" by auto
  then have p0: "open_sessions pre [] = Some []" by (rule open_sessions_neutral)
  from cs have bal: "open_sessions evs [] = Some []"
  proof (elim disjE exE conjE)
    fix e assume "evs = pre"
    with p0 show ?thesis by simp
  next
    fix e assume "evs = pre @ [E_connect ?gwc (Some e),
                              E_fatal (fst (classify_failure e None)) (snd (classify_failure e None)) e]"
    with p0 show ?thesis by (simp add: open_sessions_append)
  next
    fix m pw evs4 w4
    assume b: "gateway_body W G args gw fleets m pw ?gwc w4 = (r, evs4, w')"
      and "evs = pre @ E_connect ?gwc None # evs4"
    with p0 gateway_body_balanced[OF b, of "[]"] show ?thesis by (simp add: open_sessions_append)
  qed
  from open_sessions_counts[OF bal, of s] have cnt: "count_list (closed evs) s = count_list (opened evs) s"
    by simp
  have led: "ledger w' = ledger w @ filter session_event evs" if rs: "records_sessions W ledger"
    by (rule main_ledger[OF rs m])
  from bal cnt led m show ?thesis
    by (simp add: open_sessions_filter opened_filter closed_filter)
qed

text \<open>
  A live run over one fleet with one node in the recording environment. The power-off command
  sent to the node raises and the exception leaves \<^verbatim>\<open>main\<close>; the environment has established
  three sessions and was asked to close each of them, innermost first.
\<close>

theorem sessions_closed_once_witness:
  "records_sessions env_recording (\<lambda>w. w) \<and>
   fst (main env_recording default_globals args_live_fast gw0 [fleet1] [])
     = Inl (Exc SSHException (Text ''Channel closed.'')) \<and>
   snd (snd (main env_recording default_globals args_live_fast gw0 [fleet1] []))
     = [E_connect gw_conn0 None, E_connect ws0 None, E_connect (node_ssh fleet1 ws0 ''node1'') None,
        E_close (node_ssh fleet1 ws0 ''node1''), E_close ws0, E_close gw_conn0] \<and>
   snd (snd (main env_recording default_globals args_live_fast gw0 [fleet1] []))
     = filter session_event (fst (snd (main env_recording default_globals args_live_fast gw0 [fleet1] []))) \<and>
   open_sessions (snd (snd (main env_recording default_globals args_live_fast gw0 [fleet1] []))) []
     = Some []"
proof -
  have rs: "records_sessions env_recording (\<lambda>w. w)"
    by (simp add: records_sessions_def env_recording_def)
  have r: "fst (main env_recording default_globals args_live_fast gw0 [fleet1] [])
     = Inl (Exc SSHException (Text ''Channel closed.''))"
    by (simp add: run_defs example_defs env_recording_def)
  have l: "snd (snd (main env_recording default_globals args_live_fast gw0 [fleet1] []))
     = [E_connect gw_conn0 None, E_connect ws0 None, E_connect (node_ssh fleet1 ws0 ''node1'') None,
        E_close (node_ssh fleet1 ws0 ''node1''), E_close ws0, E_close gw_conn0]"
    by (simp add: run_defs example_defs env_recording_def)
  from sessions_closed_once[of env_recording default_globals args_live_fast gw0 "[fleet1]" "[]"
         gw_conn0 "\<lambda>w. w"] rs
  obtain hist where
    h: "snd (snd (main env_recording default_globals args_live_fast gw0 [fleet1] [])) = [] @ hist"
      "hist = filter session_event (fst (snd (main env_recording default_globals args_live_fast gw0 [fleet1] [])))"
      "open_sessions hist [] = Some []"
    by (elim conjE impE exE)
  from h(1) have e: "hist = snd (snd (main env_recording default_globals args_live_fast gw0 [fleet1] []))"
    by simp
  from h(2) h(3) have
    "snd (snd (main env_recording default_globals args_live_fast gw0 [fleet1] []))
     = filter session_event (fst (snd (main env_recording default_globals args_live_fast gw0 [fleet1] [])))"
    "open_sessions (snd (snd (main env_recording default_globals args_live_fast gw0 [fleet1] []))) []
     = Some []"
    unfolding e by simp_all
  with rs r l show ?thesis by (intro conjI)
qed

section \<open>Dry run\<close>

text \<open>
  What a fleet's step and the loop over the fleets can do, and what the flag \<^verbatim>\<open>dry_run\<close>
  changes: only \<^verbatim>\<open>shutdown_host\<close> and the \<^verbatim>\<open>finally\<close> block after a node's shutdown look at
  it (and the assignment of line 517).
\<close>

lemma process_fleet_events:
  assumes res: "process_fleet W G args gw_conn m f w = (r, evs, w')"
    and run: "\<And>s c. P (E_run s c)" and issue: "\<And>i. P (E_issue i)"
    and chan: "\<And>s h p. P (E_open_channel s h p)"
    and conn: "\<And>h u p c x. P (E_connect (SSH h u p (Some c)) x)"
    and shut: "\<And>t h u p c. P (E_shutdown_host t (SSH h u p (Some c)) (dry_run args))"
    and exec: "\<And>h u p c cmd i. \<not> dry_run args \<Longrightarrow> P (E_exec (SSH h u p (Some c)) cmd i)"
    and warn: "\<And>t c. \<not> dry_run args \<Longrightarrow> P (E_warn_exit t c)"
    and close: "\<And>h u p c. P (E_close (SSH h u p (Some c)))"
    and wait: "\<And>s n p ok. \<not> dry_run args \<Longrightarrow> P (E_wait s n p ok)"
    and protect: "\<And>n fl. \<not> dry_run args \<Longrightarrow> \<not> non_strict args \<Longrightarrow> P (E_protect n fl)"
    and skipped: "\<And>fl. P (E_skipped fl)"
  shows "\<forall>e\<in>set evs. P e"
  using process_fleet_cases[OF res]
proof (elim disjE exE conjE)
  assume "evs = []"
  then show ?thesis by simp
next
  fix pw e evs1 w1 evs2
  assume t: "fleet_try W G gw_conn f pw w = (Inl e, evs1, w1)"
    and x: "fleet_except W G gw_conn f e w1 = (r, evs2, w')"
    and ev: "evs = evs1 @ evs2"
  from fleet_try_cases[OF t] chan conn have e1: "\<forall>a\<in>set evs1. P a" by auto
  have e2: "\<forall>a\<in>set evs2. P a"
    using fleet_except_cases[OF x]
  proof (elim disjE exE conjE)
    fix e2 assume "diagnose_on_remote W G gw_conn (fl_name f) (fl_port f) w1 = (Inl e2, evs2, w')"
    from diagnose_on_remote_events[OF this] run show ?thesis by auto
  next
    fix d evsd
    assume d: "diagnose_on_remote W G gw_conn (fl_name f) (fl_port f) w1 = (Inr d, evsd, w')"
      and "evs2 = evsd @ [E_issue \<lparr>issue_stage = ''workstation'', issue_via = ''triton'',
                           issue_target = fl_name f,
                           issue_reason = fst (classify_failure e (Some d)),
                           issue_hint = snd (classify_failure e (Some d)),
                           issue_diag = d, issue_error = msg e\<rparr>]"
    with diagnose_on_remote_events[OF d] run issue show ?thesis by auto
  qed
  from e1 e2 ev show ?thesis by auto
next
  fix pw evs1 w1 evs2
  let ?ws = "fleet_ssh gw_conn f"
  assume t: "fleet_try W G gw_conn f pw w = (Inr ?ws, evs1, w1)"
    and b: "fleet_body W G args f pw ?ws w1 = (r, evs2, w')"
    and ev: "evs = evs1 @ evs2"
  from fleet_try_cases[OF t] chan conn have e1: "\<forall>a\<in>set evs1. P a" by auto
  from fleet_body_cases[OF b] obtain rn evsn wn where
    n: "nodes_loop W G args f pw ?ws (fl_nodes f) False w1 = (rn, evsn, wn)"
    and cs: "(\<exists>e. rn = Inl e \<and> r = Inl e \<and> evs2 = evsn @ [E_close ?ws]) \<or>
          (rn = Inr True \<and> r = Inr () \<and> evs2 = evsn @ [E_skipped (fl_name f), E_close ?ws]) \<or>
          (rn = Inr False \<and>
             (\<exists>evs3 w3. shutdown_host W G (fl_name f) ?ws (fl_needs_sudo_password f) (Some pw)
                            (dry_run args) wn = (r, evs3, w3) \<and>
                         evs2 = evsn @ evs3 @ [E_close ?ws]))" by blast
  have en: "\<forall>a\<in>set evsn. P a"
  proof (rule nodes_loop_events[OF n])
    show "\<And>c. P (E_run ?ws c)" by (rule run)
    show "\<And>i. P (E_issue i)" by (rule issue)
    show "\<And>n. P (E_open_channel ?ws n (fl_port f))" by (rule chan)
    show "\<And>n x. P (E_connect (node_ssh f ?ws n) x)" by (rule conn)
    show "\<And>n. P (E_shutdown_host n (node_ssh f ?ws n) (dry_run args))" by (rule shut)
    show "\<And>n c i. \<not> dry_run args \<Longrightarrow> P (E_exec (node_ssh f ?ws n) c i)" by (rule exec)
    show "\<And>n c. \<not> dry_run args \<Longrightarrow> P (E_warn_exit n c)" by (rule warn)
    show "\<And>n. P (E_close (node_ssh f ?ws n))" by (rule close)
    show "\<And>n ok. \<not> dry_run args \<Longrightarrow> P (E_wait ?ws n (fl_port f) ok)" by (rule wait)
    show "\<And>n. \<not> dry_run args \<Longrightarrow> \<not> non_strict args \<Longrightarrow> P (E_protect n (fl_name f))" by (rule protect)
  qed
  have cl: "P (E_close ?ws)" by (rule close)
  have sk: "P (E_skipped (fl_name f))" by (rule skipped)
  from cs have e2: "\<forall>a\<in>set evs2. P a"
  proof (elim disjE exE conjE)
    fix e assume "evs2 = evsn @ [E_close ?ws]"
    with en cl show ?thesis by auto
  next
    assume "evs2 = evsn @ [E_skipped (fl_name f), E_close ?ws]"
    with en cl sk show ?thesis by auto
  next
    fix evs3 w3
    assume s: "shutdown_host W G (fl_name f) ?ws (fl_needs_sudo_password f) (Some pw)
                            (dry_run args) wn = (r, evs3, w3)"
      and ev2: "evs2 = evsn @ evs3 @ [E_close ?ws]"
    from shutdown_host_events[OF s] obtain rest where
      rest: "evs3 = E_shutdown_host (fl_name f) ?ws (dry_run args) # rest"
        "dry_run args \<longrightarrow> rest = []"
        "\<forall>e\<in>set rest. (\<exists>c i. e = E_exec ?ws c i) \<or> (\<exists>c. e = E_warn_exit (fl_name f) c)" by blast
    have sh: "P (E_shutdown_host (fl_name f) ?ws (dry_run args))" by (rule shut)
    have "\<forall>a\<in>set rest. P a"
    proof (cases "dry_run args")
      case True
      with rest(2) show ?thesis by simp
    next
      case False
      from exec[OF False] warn[OF False] rest(3) show ?thesis by auto
    qed
    with rest(1) sh have "\<forall>a\<in>set evs3. P a" by simp
    with en cl ev2 show ?thesis by auto
  qed
  from e1 e2 ev show ?thesis by auto
qed

lemma fleets_loop_events:
  assumes res: "fleets_loop W G args gw_conn m fleets w = (r, evs, w')"
    and run: "\<And>s c. P (E_run s c)" and issue: "\<And>i. P (E_issue i)"
    and chan: "\<And>s h p. P (E_open_channel s h p)"
    and conn: "\<And>h u p c x. P (E_connect (SSH h u p (Some c)) x)"
    and shut: "\<And>t h u p c. P (E_shutdown_host t (SSH h u p (Some c)) (dry_run args))"
    and exec: "\<And>h u p c cmd i. \<not> dry_run args \<Longrightarrow> P (E_exec (SSH h u p (Some c)) cmd i)"
    and warn: "\<And>t c. \<not> dry_run args \<Longrightarrow> P (E_warn_exit t c)"
    and close: "\<And>h u p c. P (E_close (SSH h u p (Some c)))"
    and wait: "\<And>s n p ok. \<not> dry_run args \<Longrightarrow> P (E_wait s n p ok)"
    and protect: "\<And>n fl. \<not> dry_run args \<Longrightarrow> \<not> non_strict args \<Longrightarrow> P (E_protect n fl)"
    and skipped: "\<And>fl. P (E_skipped fl)"
  shows "\<forall>e\<in>set evs. P e"
  using res
proof (induction fleets arbitrary: w r evs w')
  case Nil
  then show ?case by simp
next
  case (Cons f fs)
  have pf: "\<forall>e\<in>set evs1. P e"
    if p: "process_fleet W G args gw_conn m f w = (r1, evs1, w1)" for r1 evs1 w1
  proof (rule process_fleet_events[OF p])
    show "\<And>s c. P (E_run s c)" by (rule run)
    show "\<And>i. P (E_issue i)" by (rule issue)
    show "\<And>s h p. P (E_open_channel s h p)" by (rule chan)
    show "\<And>h u p c x. P (E_connect (SSH h u p (Some c)) x)" by (rule conn)
    show "\<And>t h u p c. P (E_shutdown_host t (SSH h u p (Some c)) (dry_run args))" by (rule shut)
    show "\<And>h u p c cmd i. \<not> dry_run args \<Longrightarrow> P (E_exec (SSH h u p (Some c)) cmd i)" by (rule exec)
    show "\<And>t c. \<not> dry_run args \<Longrightarrow> P (E_warn_exit t c)" by (rule warn)
    show "\<And>h u p c. P (E_close (SSH h u p (Some c)))" by (rule close)
    show "\<And>s n p ok. \<not> dry_run args \<Longrightarrow> P (E_wait s n p ok)" by (rule wait)
    show "\<And>n fl. \<not> dry_run args \<Longrightarrow> \<not> non_strict args \<Longrightarrow> P (E_protect n fl)" by (rule protect)
    show "\<And>fl. P (E_skipped fl)" by (rule skipped)
  qed
  from fleets_loop_split[OF Cons.prems] show ?case
  proof (elim disjE exE conjE)
    fix e assume "process_fleet W G args gw_conn m f w = (Inl e, evs, w')"
    then show ?thesis by (rule pf)
  next
    fix evs1 w1 evs2
    assume p: "process_fleet W G args gw_conn m f w = (Inr (), evs1, w1)"
      and l: "fleets_loop W G args gw_conn m fs w1 = (r, evs2, w')"
      and ev: "evs = evs1 @ evs2"
    from pf[OF p] Cons.IH[OF l] ev show ?thesis by auto
  qed
qed









section \<open>The gateway is shut down last\<close>

text \<open>
  A fleet's step that returns ended in one of three ways; the loop over the fleets that returns
  ran one such step per fleet, in order; and a list of actions has at most one place where the
  gateway's session is shut down.
\<close>

lemma process_fleet_outcome:
  assumes run: "process_fleet W G args gw_conn m f w = (Inr (), seg, w')"
  shows "(\<exists>i. E_issue i \<in> set seg \<and> issue_stage i = ''workstation'') \<or>
         E_skipped (fl_name f) \<in> set seg \<or>
         E_shutdown_host (fl_name f) (fleet_ssh gw_conn f) (dry_run args) \<in> set seg"
  using process_fleet_cases[OF run]
proof (elim disjE exE conjE)
  fix e :: exc assume "Inr () = Inl e"
  then show ?thesis by simp
next
  fix pw e evs1 w1 evs2
  assume x: "fleet_except W G gw_conn f e w1 = (Inr (), evs2, w')" and ev: "seg = evs1 @ evs2"
  from fleet_except_cases[OF x] obtain d evsd where
    "evs2 = evsd @ [E_issue \<lparr>issue_stage = ''workstation'', issue_via = ''triton'',
                           issue_target = fl_name f,
                           issue_reason = fst (classify_failure e (Some d)),
                           issue_hint = snd (classify_failure e (Some d)),
                           issue_diag = d, issue_error = msg e\<rparr>]" by auto
  with ev have "E_issue \<lparr>issue_stage = ''workstation'', issue_via = ''triton'',
                           issue_target = fl_name f,
                           issue_reason = fst (classify_failure e (Some d)),
                           issue_hint = snd (classify_failure e (Some d)),
                           issue_diag = d, issue_error = msg e\<rparr> \<in> set seg" by simp
  then have "\<exists>i. E_issue i \<in> set seg \<and> issue_stage i = ''workstation''"
    by (intro exI conjI) (assumption, simp)
  then show ?thesis by (rule disjI1)
next
  fix pw evs1 w1 evs2
  let ?ws = "fleet_ssh gw_conn f"
  assume b: "fleet_body W G args f pw ?ws w1 = (Inr (), evs2, w')" and ev: "seg = evs1 @ evs2"
  from fleet_body_cases[OF b] obtain rn evsn wn where
    cs: "(\<exists>e. rn = Inl e \<and> Inr () = (Inl e :: exc + unit) \<and> evs2 = evsn @ [E_close ?ws]) \<or>
          (rn = Inr True \<and> evs2 = evsn @ [E_skipped (fl_name f), E_close ?ws]) \<or>
          (rn = Inr False \<and>
             (\<exists>evs3 w3. shutdown_host W G (fl_name f) ?ws (fl_needs_sudo_password f) (Some pw)
                            (dry_run args) wn = (Inr (), evs3, w3) \<and>
                         evs2 = evsn @ evs3 @ [E_close ?ws]))" by blast
  from cs show ?thesis
  proof (elim disjE exE conjE)
    fix e :: exc assume "Inr () = (Inl e :: exc + unit)"
    then show ?thesis by simp
  next
    assume "evs2 = evsn @ [E_skipped (fl_name f), E_close ?ws]"
    with ev show ?thesis by simp
  next
    fix evs3 w3
    assume s: "shutdown_host W G (fl_name f) ?ws (fl_needs_sudo_password f) (Some pw)
                            (dry_run args) wn = (Inr (), evs3, w3)"
      and e2: "evs2 = evsn @ evs3 @ [E_close ?ws]"
    from shutdown_host_events[OF s] obtain rest where
      "evs3 = E_shutdown_host (fl_name f) ?ws (dry_run args) # rest" by blast
    with ev e2 show ?thesis by simp
  qed
qed

lemma fleets_loop_segments:
  assumes "fleets_loop W G args gw_conn m fleets w = (Inr (), evs, w')"
  shows "\<exists>segs. evs = concat segs \<and>
           list_all2 (\<lambda>f seg. \<exists>wi wi'. process_fleet W G args gw_conn m f wi = (Inr (), seg, wi'))
             fleets segs"
  using assms
proof (induction fleets arbitrary: w evs w')
  case Nil
  then have "evs = concat []" by simp
  then show ?case by (intro exI[of _ "[]"]) simp
next
  case (Cons f fs)
  from fleets_loop_split[OF Cons.prems] show ?case
  proof (elim disjE exE conjE)
    fix e :: exc assume "Inr () = Inl e"
    then show ?thesis by simp
  next
    fix evs1 w1 evs2
    assume p: "process_fleet W G args gw_conn m f w = (Inr (), evs1, w1)"
      and l: "fleets_loop W G args gw_conn m fs w1 = (Inr (), evs2, w')"
      and ev: "evs = evs1 @ evs2"
    from Cons.IH[OF l] obtain segs where
      segs: "evs2 = concat segs"
        "list_all2 (\<lambda>f seg. \<exists>wi wi'. process_fleet W G args gw_conn m f wi = (Inr (), seg, wi')) fs segs"
      by blast
    from p have "\<exists>wi wi'. process_fleet W G args gw_conn m f wi = (Inr (), evs1, wi')" by blast
    with segs ev show ?thesis by (intro exI[of _ "evs1 # segs"]) simp
  qed
qed

lemma unique_split:
  assumes eq: "a @ x # b = a' @ x' # b'"
    and a: "\<forall>e\<in>set a. \<not> Q e" and b: "\<forall>e\<in>set b. \<not> Q e" and x: "Q x" and x': "Q x'"
  shows "a = a' \<and> x = x' \<and> b = b'"
  using eq a
proof (induction a arbitrary: a')
  case Nil
  show ?case
  proof (cases a')
    case Nil
    with Nil.prems show ?thesis by simp
  next
    case (Cons y ys)
    with Nil.prems have "b = ys @ x' # b'" by simp
    with b x' show ?thesis by auto
  qed
next
  case (Cons z zs)
  show ?case
  proof (cases a')
    case Nil
    with Cons.prems x' show ?thesis by auto
  next
    case c: (Cons y ys)
    with Cons.prems have "zs @ x # b = ys @ x' # b'" "z = y" "\<forall>e\<in>set zs. \<not> Q e" by simp_all
    with Cons.IH[of ys] c show ?thesis by simp
  qed
qed

text \<open>
  C2. Wherever \<^verbatim>\<open>shutdown_host\<close> is invoked on a session that is connected directly (the
  gateway's; the sessions of fleet hosts and nodes run over channels), it is the call of line
  557 on the gateway's session, and the actions before it are, in this order: the prompts, the
  key and the connection to the gateway; then for every fleet of the plan, in the order of the
  plan, the actions of a step that processed this fleet to its end without an exception, ending
  in a recorded connection failure, in a protective skip or in the shutdown of the fleet host.
  The actions after it only send the gateway's command, warn about its exit status and close the
  gateway's session: nothing of any fleet comes after or in between.
\<close>

theorem gateway_shutdown_after_fleets:
  assumes run: "main W G args gw fleets w = (r, evs, w')"
    and at: "evs = before @ E_shutdown_host tag (SSH h u p None) d # after"
  shows "\<exists>pre segs m.
           before = pre @ concat segs \<and>
           (\<forall>e\<in>set pre. (\<exists>q. e = E_getpass q) \<or> (\<exists>k. e = E_environ k) \<or> (\<exists>q. e = E_read_file q) \<or>
                           (\<exists>q. e = E_load_pkey q) \<or>
                           e = E_connect (SSH (gw_host gw) (gw_user gw) (gw_port gw) None) None) \<and>
           list_all2
             (\<lambda>f seg.
                (\<exists>wi wi'. process_fleet W G args (SSH (gw_host gw) (gw_user gw) (gw_port gw) None) m f wi
                             = (Inr (), seg, wi')) \<and>
                ((\<exists>i. E_issue i \<in> set seg \<and> issue_stage i = ''workstation'') \<or>
                 E_skipped (fl_name f) \<in> set seg \<or>
                 E_shutdown_host (fl_name f)
                   (fleet_ssh (SSH (gw_host gw) (gw_user gw) (gw_port gw) None) f) (dry_run args) \<in> set seg))
             fleets segs \<and>
           (\<forall>e\<in>set after. (\<exists>c i. e = E_exec (SSH (gw_host gw) (gw_user gw) (gw_port gw) None) c i) \<or>
                             (\<exists>c. e = E_warn_exit ''triton'' c) \<or>
                             e = E_close (SSH (gw_host gw) (gw_user gw) (gw_port gw) None)) \<and>
           tag = ''triton'' \<and> SSH h u p None = SSH (gw_host gw) (gw_user gw) (gw_port gw) None"
proof -
  let ?gwc = "SSH (gw_host gw) (gw_user gw) (gw_port gw) None"
  define Q where "Q = (\<lambda>e. \<exists>t h u p d. e = E_shutdown_host t (SSH h u p None) d)"
  have Qat: "Q (E_shutdown_host tag (SSH h u p None) d)" unfolding Q_def by blast
  have nQ: "\<not> Q (E_getpass q)" "\<not> Q (E_environ k)" "\<not> Q (E_read_file k)" "\<not> Q (E_load_pkey k)"
    "\<not> Q (E_connect s x)" "\<not> Q (E_fatal a b c)" "\<not> Q (E_close s)" "\<not> Q (E_exec s cm i)"
    "\<not> Q (E_warn_exit k n)" "\<not> Q (E_run s cm)" "\<not> Q (E_issue is)" "\<not> Q (E_open_channel s k n)"
    "\<not> Q (E_wait s k n ok)" "\<not> Q (E_protect k k')" "\<not> Q (E_skipped k)"
    "\<not> Q (E_shutdown_host k (SSH h' u' p' (Some ch)) dd)"
    for q k s x a b c cm i n "is" ok k' h' u' p' ch dd
    by (simp_all add: Q_def)
  from main_cases[OF run] obtain pre where
    pre: "\<forall>e\<in>set pre. (\<exists>p. e = E_getpass p) \<or> (\<exists>k. e = E_environ k) \<or> (\<exists>p. e = E_read_file p) \<or>
                              (\<exists>p. e = E_load_pkey p)"
    and cs: "(\<exists>e. r = Inl e \<and> evs = pre) \<or>
            (\<exists>e. r = Inr () \<and>
                 evs = pre @ [E_connect ?gwc (Some e),
                              E_fatal (fst (classify_failure e None)) (snd (classify_failure e None)) e]) \<or>
            (\<exists>m pw evs4 w4.
                 gateway_body W G args gw fleets m pw ?gwc w4 = (r, evs4, w') \<and>
                 evs = pre @ E_connect ?gwc None # evs4)" by blast
  from pre nQ have p0: "\<forall>e\<in>set pre. \<not> Q e" by fastforce
  from at Qat have has: "\<exists>e\<in>set evs. Q e" by auto
  from cs show ?thesis
  proof (elim disjE exE conjE)
    fix e assume "evs = pre"
    with p0 has show ?thesis by blast
  next
    fix e assume "evs = pre @ [E_connect ?gwc (Some e),
                              E_fatal (fst (classify_failure e None)) (snd (classify_failure e None)) e]"
    with p0 nQ have "\<forall>a\<in>set evs. \<not> Q a" by auto
    with has show ?thesis by blast
  next
    fix m pw evs4 w4
    assume b: "gateway_body W G args gw fleets m pw ?gwc w4 = (r, evs4, w')"
      and ev: "evs = pre @ E_connect ?gwc None # evs4"
    from gateway_body_cases[OF b] obtain rl evsl wl where
      l: "fleets_loop W G args ?gwc m fleets w4 = (rl, evsl, wl)"
      and cs2: "(\<exists>e. rl = Inl e \<and> r = Inl e \<and> evs4 = evsl @ [E_close ?gwc]) \<or>
            (rl = Inr () \<and>
               (\<exists>evs2 w2. shutdown_host W G ''triton'' ?gwc (gw_needs_sudo_password gw) pw
                              (dry_run args) wl = (r, evs2, w2) \<and>
                           evs4 = evsl @ evs2 @ [E_close ?gwc]))" by blast
    have el: "\<forall>e\<in>set evsl. \<not> Q e"
      by (rule fleets_loop_events[OF l]) (rule nQ)+
    from cs2 show ?thesis
    proof (elim disjE exE conjE)
      fix e assume "evs4 = evsl @ [E_close ?gwc]"
      with el p0 nQ ev have "\<forall>a\<in>set evs. \<not> Q a" by auto
      with has show ?thesis by blast
    next
      fix evs2 w2
      assume rl: "rl = Inr ()"
        and s: "shutdown_host W G ''triton'' ?gwc (gw_needs_sudo_password gw) pw
                              (dry_run args) wl = (r, evs2, w2)"
        and e4: "evs4 = evsl @ evs2 @ [E_close ?gwc]"
      from shutdown_host_events[OF s] obtain rest where
        rest: "evs2 = E_shutdown_host ''triton'' ?gwc (dry_run args) # rest"
          "\<forall>e\<in>set rest. (\<exists>c i. e = E_exec ?gwc c i) \<or> (\<exists>c. e = E_warn_exit ''triton'' c)" by blast
      let ?A = "pre @ E_connect ?gwc None # evsl"
      let ?x = "E_shutdown_host ''triton'' ?gwc (dry_run args)"
      let ?B = "rest @ [E_close ?gwc]"
      from ev e4 rest(1) at
      have eq: "?A @ ?x # ?B = before @ E_shutdown_host tag (SSH h u p None) d # after" by simp
      from p0 el nQ have nA: "\<forall>e\<in>set ?A. \<not> Q e" by auto
      from rest(2) nQ have "\<forall>e\<in>set rest. \<not> Q e" by fastforce
      with nQ have nB: "\<forall>e\<in>set ?B. \<not> Q e" by auto
      have Qx: "Q ?x" unfolding Q_def by blast
      note us = unique_split[OF eq nA nB Qx Qat]
      have u: "?A = before" "?x = E_shutdown_host tag (SSH h u p None) d" "?B = after"
        by (rule us[THEN conjunct1], rule us[THEN conjunct2, THEN conjunct1],
            rule us[THEN conjunct2, THEN conjunct2])
      from fleets_loop_segments[OF l[unfolded rl]] obtain segs where
        segs: "evsl = concat segs"
          "list_all2 (\<lambda>f seg. \<exists>wi wi'. process_fleet W G args ?gwc m f wi = (Inr (), seg, wi')) fleets segs"
        by blast
      from segs(2) have full: "list_all2
             (\<lambda>f seg.
                (\<exists>wi wi'. process_fleet W G args ?gwc m f wi = (Inr (), seg, wi')) \<and>
                ((\<exists>i. E_issue i \<in> set seg \<and> issue_stage i = ''workstation'') \<or>
                 E_skipped (fl_name f) \<in> set seg \<or>
                 E_shutdown_host (fl_name f) (fleet_ssh ?gwc f) (dry_run args) \<in> set seg))
             fleets segs"
      proof (rule list_all2_mono)
        fix f seg
        assume "\<exists>wi wi'. process_fleet W G args ?gwc m f wi = (Inr (), seg, wi')"
        then obtain wi wi' where pf: "process_fleet W G args ?gwc m f wi = (Inr (), seg, wi')" by blast
        from process_fleet_outcome[OF pf] pf
        show "(\<exists>wi wi'. process_fleet W G args ?gwc m f wi = (Inr (), seg, wi')) \<and>
                ((\<exists>i. E_issue i \<in> set seg \<and> issue_stage i = ''workstation'') \<or>
                 E_skipped (fl_name f) \<in> set seg \<or>
                 E_shutdown_host (fl_name f) (fleet_ssh ?gwc f) (dry_run args) \<in> set seg)"
          by (intro conjI exI) assumption+
      qed
      have b1: "before = (pre @ [E_connect ?gwc None]) @ concat segs" using u(1) segs(1) by simp
      have b2: "\<forall>e\<in>set (pre @ [E_connect ?gwc None]).
                  (\<exists>q. e = E_getpass q) \<or> (\<exists>k. e = E_environ k) \<or> (\<exists>q. e = E_read_file q) \<or>
                           (\<exists>q. e = E_load_pkey q) \<or> e = E_connect ?gwc None"
        using pre by auto
      have b3: "\<forall>e\<in>set after. (\<exists>c i. e = E_exec ?gwc c i) \<or> (\<exists>c. e = E_warn_exit ''triton'' c) \<or>
                             e = E_close ?gwc"
      proof
        fix e assume "e \<in> set after"
        with u(3) have "e \<in> set rest \<or> e = E_close ?gwc" by auto
        then show "(\<exists>c i. e = E_exec ?gwc c i) \<or> (\<exists>c. e = E_warn_exit ''triton'' c) \<or>
                             e = E_close ?gwc"
        proof
          assume "e \<in> set rest"
          with rest(2) have "(\<exists>c i. e = E_exec ?gwc c i) \<or> (\<exists>c. e = E_warn_exit ''triton'' c)" by (rule bspec)
          then show ?thesis by (elim disjE) (rule disjI1, assumption, rule disjI2, rule disjI1, assumption)
        next
          assume "e = E_close ?gwc"
          then show ?thesis by (intro disjI2)
        qed
      qed
      from u(2) have b4: "tag = ''triton''" "SSH h u p None = ?gwc" by simp_all
      show ?thesis
        by (intro exI[of _ "pre @ [E_connect ?gwc None]"] exI[of _ segs] exI[of _ m] conjI)
           (rule b1 b2 full b3 b4)+
    qed
  qed
qed

text \<open>
  A dry run over one fleet in the calm environment: the gateway's shutdown comes after the one
  fleet's step and before the gateway's session is closed.
\<close>

theorem gateway_shutdown_after_fleets_witness:
  "main env_calm default_globals args_dry gw0 [fleet1] 0 =
     (Inr (),
      [E_load_pkey ''~/.ssh/id_ed25519'', E_connect gw_conn0 None,
       E_open_channel gw_conn0 ''ws1'' 22, E_connect ws0 None,
       E_run ws0 (Getent_hosts ''node1''), E_run ws0 (Getent_ahosts ''node1''),
       E_run ws0 (Nslookup_awk ''node1''), E_run ws0 (Nc_probe 3 ''node1'' 22),
       E_run ws0 (Dev_tcp_probe ''node1'' 22),
       E_issue \<lparr>issue_stage = ''node(precheck)'', issue_via = ''ws1'', issue_target = ''node1'',
                issue_reason = R_dns_failed, issue_hint = H_precheck_dns,
                issue_diag = \<lparr>dns_ok = Some False, dns_ips = [], tcp_ok = Some False,
                               tcp_method = Some ''nc|/dev/tcp'', diag_notes = [Note_dns_failed]\<rparr>,
                issue_error = Text []\<rparr>,
       E_open_channel ws0 ''node1'' 22, E_connect (node_ssh fleet1 ws0 ''node1'') None,
       E_shutdown_host ''node1'' (node_ssh fleet1 ws0 ''node1'') True,
       E_close (node_ssh fleet1 ws0 ''node1''),
       E_shutdown_host ''ws1'' ws0 True, E_close ws0] @
      E_shutdown_host ''triton'' (SSH ''triton'' ''admin'' 22 None) True # [E_close gw_conn0],
      0) \<and>
   (\<exists>pre segs.
      [E_load_pkey ''~/.ssh/id_ed25519'', E_connect gw_conn0 None,
       E_open_channel gw_conn0 ''ws1'' 22, E_connect ws0 None,
       E_run ws0 (Getent_hosts ''node1''), E_run ws0 (Getent_ahosts ''node1''),
       E_run ws0 (Nslookup_awk ''node1''), E_run ws0 (Nc_probe 3 ''node1'' 22),
       E_run ws0 (Dev_tcp_probe ''node1'' 22),
       E_issue \<lparr>issue_stage = ''node(precheck)'', issue_via = ''ws1'', issue_target = ''node1'',
                issue_reason = R_dns_failed, issue_hint = H_precheck_dns,
                issue_diag = \<lparr>dns_ok = Some False, dns_ips = [], tcp_ok = Some False,
                               tcp_method = Some ''nc|/dev/tcp'', diag_notes = [Note_dns_failed]\<rparr>,
                issue_error = Text []\<rparr>,
       E_open_channel ws0 ''node1'' 22, E_connect (node_ssh fleet1 ws0 ''node1'') None,
       E_shutdown_host ''node1'' (node_ssh fleet1 ws0 ''node1'') True,
       E_close (node_ssh fleet1 ws0 ''node1''),
       E_shutdown_host ''ws1'' ws0 True, E_close ws0] = pre @ concat segs \<and>
      length segs = 1)"
proof -
  let ?B = "[E_load_pkey ''~/.ssh/id_ed25519'', E_connect gw_conn0 None,
       E_open_channel gw_conn0 ''ws1'' 22, E_connect ws0 None,
       E_run ws0 (Getent_hosts ''node1''), E_run ws0 (Getent_ahosts ''node1''),
       E_run ws0 (Nslookup_awk ''node1''), E_run ws0 (Nc_probe 3 ''node1'' 22),
       E_run ws0 (Dev_tcp_probe ''node1'' 22),
       E_issue \<lparr>issue_stage = ''node(precheck)'', issue_via = ''ws1'', issue_target = ''node1'',
                issue_reason = R_dns_failed, issue_hint = H_precheck_dns,
                issue_diag = \<lparr>dns_ok = Some False, dns_ips = [], tcp_ok = Some False,
                               tcp_method = Some ''nc|/dev/tcp'', diag_notes = [Note_dns_failed]\<rparr>,
                issue_error = Text []\<rparr>,
       E_open_channel ws0 ''node1'' 22, E_connect (node_ssh fleet1 ws0 ''node1'') None,
       E_shutdown_host ''node1'' (node_ssh fleet1 ws0 ''node1'') True,
       E_close (node_ssh fleet1 ws0 ''node1''),
       E_shutdown_host ''ws1'' ws0 True, E_close ws0]"
  have run: "main env_calm default_globals args_dry gw0 [fleet1] 0 =
     (Inr (), ?B @ E_shutdown_host ''triton'' (SSH ''triton'' ''admin'' 22 None) True # [E_close gw_conn0], 0)"
    by (simp add: run_defs example_defs)
  from gateway_shutdown_after_fleets[OF run refl] obtain pre segs m where
    b: "?B = pre @ concat segs"
    and l: "list_all2
             (\<lambda>f seg.
                (\<exists>wi wi'. process_fleet env_calm default_globals args_dry
                             (SSH (gw_host gw0) (gw_user gw0) (gw_port gw0) None) m f wi
                             = (Inr (), seg, wi')) \<and>
                ((\<exists>i. E_issue i \<in> set seg \<and> issue_stage i = ''workstation'') \<or>
                 E_skipped (fl_name f) \<in> set seg \<or>
                 E_shutdown_host (fl_name f)
                   (fleet_ssh (SSH (gw_host gw0) (gw_user gw0) (gw_port gw0) None) f) (dry_run args_dry) \<in> set seg))
             [fleet1] segs"
    by (elim exE conjE)
  from list_all2_lengthD[OF l] have "length segs = 1" by simp
  with b have "\<exists>pre segs. ?B = pre @ concat segs \<and> length segs = 1" by auto
  with run show ?thesis by (rule conjI)
qed

section \<open>Credentials come first\<close>

text \<open>
  The loop of lines 405-407 stops at the first credential that cannot be resolved, and
  \<^verbatim>\<open>main\<close> is left with that exception; what \<^verbatim>\<open>main\<close> does after the loop consults no fleet
  credential any more.
\<close>

lemma resolve_password_env_unset:
  assumes "op_environ_get W name w = None"
  shows "resolve_password W (Some (''env:'' @ name)) prompt_label w
           = (Inl (Exc OtherException (EnvUnset name prompt_label)), [E_environ name], w)"
  using assms by (simp add: resolve_password_def)

lemma resolve_passwords_append:
  "resolve_passwords W (a @ b) m w =
     (case resolve_passwords W a m w of
        (Inl e, evs, w1) \<Rightarrow> (Inl e, evs, w1)
      | (Inr m1, evs, w1) \<Rightarrow>
          (case resolve_passwords W b m1 w1 of (r, evs2, w2) \<Rightarrow> (r, evs @ evs2, w2)))"
  by (induction a arbitrary: m w) (auto split: prod.splits sum.splits)

lemma resolve_passwords_env_unset:
  assumes "f \<in> set fleets" and "fl_password f = Some (''env:'' @ name)"
    and "\<forall>w1. op_environ_get W name w1 = None"
  shows "\<exists>e. fst (resolve_passwords W fleets m w) = Inl e"
  using assms(1)
proof (induction fleets arbitrary: m w)
  case Nil
  then show ?case by simp
next
  case (Cons g gs)
  obtain r1 evs1 w1 where
    p: "resolve_password W (fl_password g) (FleetPasswordPrompt (fl_name g)) w = (r1, evs1, w1)"
    by (cases "resolve_password W (fl_password g) (FleetPasswordPrompt (fl_name g)) w") auto
  show ?case
  proof (cases r1)
    case (Inl e)
    with p show ?thesis by simp
  next
    case (Inr pw)
    have "g \<noteq> f"
    proof
      assume "g = f"
      with assms(2,3) resolve_password_env_unset[of W name w "FleetPasswordPrompt (fl_name f)"] p Inr
      show False by simp
    qed
    with Cons.prems have "f \<in> set gs" by simp
    from Cons.IH[OF this, of "m(fl_name g \<mapsto> pw)" w1] obtain e where
      "fst (resolve_passwords W gs (m(fl_name g \<mapsto> pw)) w1) = Inl e" by blast
    with p Inr show ?thesis by (auto split: prod.splits)
  qed
qed

lemma resolve_passwords_first_unset:
  assumes "resolve_passwords W pre m w = (Inr m1, evs1, w1)"
    and "fl_password f = Some (''env:'' @ name)" and "op_environ_get W name w1 = None"
  shows "resolve_passwords W (pre @ f # post) m w
           = (Inl (Exc OtherException (EnvUnset name (FleetPasswordPrompt (fl_name f)))),
              evs1 @ [E_environ name], w1)"
  using assms resolve_password_env_unset[of W name w1 "FleetPasswordPrompt (fl_name f)"]
  by (simp add: resolve_passwords_append)

lemma main_resolve_failure:
  assumes "resolve_passwords W fleets Map.empty w = (Inl e, evs1, w1)"
  shows "main W G args gw fleets w = (Inl e, evs1, w1)"
  using assms by (simp add: main_def)

lemma gateway_body_no_credentials:
  assumes b: "gateway_body W G args gw fleets m pw gw_conn w = (r, evs, w')"
  shows "\<forall>e\<in>set evs. (\<forall>q. e \<noteq> E_getpass q) \<and> (\<forall>k. e \<noteq> E_environ k) \<and> (\<forall>q. e \<noteq> E_read_file q)"
proof -
  define P where "P = (\<lambda>e. (\<forall>q. e \<noteq> E_getpass q) \<and> (\<forall>k. e \<noteq> E_environ k) \<and> (\<forall>q. e \<noteq> E_read_file q))"
  have pc: "P (E_connect s x)" "P (E_close s)" "P (E_shutdown_host t s dd)" "P (E_exec s cm i)"
    "P (E_warn_exit t n)" "P (E_run s cm)" "P (E_issue is)" "P (E_open_channel s t n)"
    "P (E_wait s t n ok)" "P (E_protect t t')" "P (E_skipped t)"
    for s x t dd cm i n "is" ok t'
    by (simp_all add: P_def)
  from gateway_body_cases[OF b] obtain rl evsl wl where
    l: "fleets_loop W G args gw_conn m fleets w = (rl, evsl, wl)"
    and cs2: "(\<exists>e. rl = Inl e \<and> r = Inl e \<and> evs = evsl @ [E_close gw_conn]) \<or>
            (rl = Inr () \<and>
               (\<exists>evs2 w2. shutdown_host W G ''triton'' gw_conn (gw_needs_sudo_password gw) pw
                              (dry_run args) wl = (r, evs2, w2) \<and>
                           evs = evsl @ evs2 @ [E_close gw_conn]))" by blast
  have el: "\<forall>e\<in>set evsl. P e"
    by (rule fleets_loop_events[OF l]) (rule pc)+
  from cs2 have "\<forall>e\<in>set evs. P e"
  proof (elim disjE exE conjE)
    fix e assume "evs = evsl @ [E_close gw_conn]"
    with el pc show ?thesis by auto
  next
    fix evs2 w2
    assume s: "shutdown_host W G ''triton'' gw_conn (gw_needs_sudo_password gw) pw
                              (dry_run args) wl = (r, evs2, w2)"
      and e4: "evs = evsl @ evs2 @ [E_close gw_conn]"
    from shutdown_host_events[OF s] obtain rest where
      rest: "evs2 = E_shutdown_host ''triton'' gw_conn (dry_run args) # rest"
        "\<forall>e\<in>set rest. (\<exists>c i. e = E_exec gw_conn c i) \<or> (\<exists>c. e = E_warn_exit ''triton'' c)" by blast
    from rest(2) pc have "\<forall>e\<in>set rest. P e" by fastforce
    with rest(1) pc have "\<forall>e\<in>set evs2. P e" by simp
    with el e4 pc show ?thesis by auto
  qed
  then show ?thesis unfolding P_def .
qed

lemma main_after_credentials:
  assumes rp: "resolve_passwords W fleets Map.empty w = (rp, evs1, w1)"
    and mn: "main W G args gw fleets w = (r, evs, w')"
  shows "\<exists>rest. evs = evs1 @ rest \<and>
           (\<forall>e\<in>set rest. (\<forall>n. e \<noteq> E_getpass (FleetPasswordPrompt n)) \<and> (\<forall>k. e \<noteq> E_environ k) \<and>
                           (\<forall>q. e \<noteq> E_read_file q))"
proof -
  define P where "P = (\<lambda>e. (\<forall>n. e \<noteq> E_getpass (FleetPasswordPrompt n)) \<and> (\<forall>k. e \<noteq> E_environ k) \<and>
                           (\<forall>q. e \<noteq> E_read_file q))"
  let ?gwc = "SSH (gw_host gw) (gw_user gw) (gw_port gw) None"
  have pc: "P (E_getpass GatewaySudoPrompt)" "P (E_load_pkey p)" "P (E_connect s x)" "P (E_fatal a b c)"
    for p s x a b c by (simp_all add: P_def)
  have "\<exists>rest. evs = evs1 @ rest \<and> (\<forall>e\<in>set rest. P e)"
  proof (cases rp)
    case (Inl e)
    with rp mn have "evs = evs1 @ []" by (simp add: main_def)
    then show ?thesis by (intro exI[of _ "[]"]) simp
  next
    case (Inr m)
    define g where "g = (if gw_needs_sudo_password gw then
                   (case op_getpass W GatewaySudoPrompt w1 of
                      (Inl e, w2) \<Rightarrow> (Inl e, [E_getpass GatewaySudoPrompt], w2)
                    | (Inr p, w2) \<Rightarrow> (Inr (Some p), [E_getpass GatewaySudoPrompt], w2))
                 else (Inr None, [], w1))"
    obtain rg evs2 w2 where g: "g = (rg, evs2, w2)" by (cases g) auto
    have l2: "\<forall>e\<in>set evs2. P e"
      using g pc(1) unfolding g_def by (auto split: if_splits prod.splits sum.splits)
    have m1: "main W G args gw fleets w =
      (case g of
             (Inl e, evs2, w2) \<Rightarrow> (Inl e, evs1 @ evs2, w2)
           | (Inr gw_sudo_pw, evs2, w2) \<Rightarrow>
               (case op_load_pkey W (gw_pkey_path gw) w2 of
                  (Inl e, w3) \<Rightarrow> (Inl e, evs1 @ evs2 @ [E_load_pkey (gw_pkey_path gw)], w3)
                | (Inr pk, w3) \<Rightarrow>
                    (case connect_host W (gw_host gw) (gw_user gw) (gw_port gw) (Some pk) None None w3 of
                       (Inl e, evs3, w4) \<Rightarrow>
                         (Inr (),
                          evs1 @ evs2 @ [E_load_pkey (gw_pkey_path gw)] @ evs3 @
                          [E_fatal (fst (classify_failure e None)) (snd (classify_failure e None)) e],
                          w4)
                     | (Inr gw_conn, evs3, w4) \<Rightarrow>
                         (case gateway_body W G args gw fleets m gw_sudo_pw gw_conn w4 of
                            (r, evs4, w5) \<Rightarrow>
                              (r, evs1 @ evs2 @ [E_load_pkey (gw_pkey_path gw)] @ evs3 @ evs4, w5)))))"
      using rp Inr unfolding g_def by (simp add: main_def)
    show ?thesis
    proof (cases rg)
      case (Inl e)
      with m1 g mn have "evs = evs1 @ evs2" by simp
      with l2 show ?thesis by blast
    next
      case rg: (Inr gw_sudo_pw)
      obtain rk w3 where k: "op_load_pkey W (gw_pkey_path gw) w2 = (rk, w3)"
        by (cases "op_load_pkey W (gw_pkey_path gw) w2") auto
      let ?pre = "evs2 @ [E_load_pkey (gw_pkey_path gw)]"
      from l2 pc(2) have lp: "\<forall>e\<in>set ?pre. P e" by auto
      show ?thesis
      proof (cases rk)
        case (Inl e)
        with m1 g rg k mn have "evs = evs1 @ ?pre" by simp
        with lp show ?thesis by blast
      next
        case rk: (Inr pk)
        obtain rc evs3 w4 where
          c: "connect_host W (gw_host gw) (gw_user gw) (gw_port gw) (Some pk) None None w3 = (rc, evs3, w4)"
          by (cases "connect_host W (gw_host gw) (gw_user gw) (gw_port gw) (Some pk) None None w3") auto
        note cc = connect_host_cases[OF c]
        show ?thesis
        proof (cases rc)
          case (Inl e)
          with cc have "evs3 = [E_connect ?gwc (Some e)]" by auto
          with m1 g rg k rk c Inl mn have
            "evs = evs1 @ (?pre @ [E_connect ?gwc (Some e),
                           E_fatal (fst (classify_failure e None)) (snd (classify_failure e None)) e])"
            by simp
          moreover from lp pc(3,4) have
            "\<forall>x\<in>set (?pre @ [E_connect ?gwc (Some e),
                           E_fatal (fst (classify_failure e None)) (snd (classify_failure e None)) e]). P x"
            by auto
          ultimately show ?thesis by blast
        next
          case rc: (Inr gw_conn)
          with cc have gc: "gw_conn = ?gwc" "evs3 = [E_connect ?gwc None]" by auto
          obtain r4 evs4 w5 where
            b: "gateway_body W G args gw fleets m gw_sudo_pw ?gwc w4 = (r4, evs4, w5)"
            by (cases "gateway_body W G args gw fleets m gw_sudo_pw ?gwc w4") auto
          from gateway_body_no_credentials[OF b] have "\<forall>e\<in>set evs4. P e"
            unfolding P_def by simp
          with lp pc(3) have "\<forall>x\<in>set (?pre @ E_connect ?gwc None # evs4). P x" by auto
          moreover from b m1 g rg k rk c rc gc mn have
            "evs = evs1 @ (?pre @ E_connect ?gwc None # evs4)" by simp
          ultimately show ?thesis by blast
        qed
      qed
    qed
  qed
  then show ?thesis unfolding P_def .
qed

lemma resolve_passwords_no_connection:
  assumes "resolve_passwords W fleets m w = (r, evs, w')"
  shows "\<forall>e\<in>set evs. (\<forall>s x. e \<noteq> E_connect s x) \<and> (\<forall>s h p. e \<noteq> E_open_channel s h p)"
  using resolve_passwords_events[OF assms] by fastforce

text \<open>
  C9. The actions of a run are those of the loop that resolves the credentials of all fleets,
  followed by actions none of which prompts for a fleet's password, reads the environment or
  reads a credential file; and the loop neither connects nor opens a channel. If the credential
  of some fleet is \<^verbatim>\<open>env:NAME\<close> and \<^verbatim>\<open>NAME\<close> is unset, an exception leaves \<^verbatim>\<open>main\<close> and the
  run has made no connection and opened no channel. That exception is the \<^verbatim>\<open>RuntimeError\<close> of
  line 331 naming \<^verbatim>\<open>NAME\<close> and the fleet when the credentials of the fleets listed before it
  resolve.
\<close>

theorem credentials_resolved_first:
  "(\<exists>rest. fst (snd (main W G args gw fleets w))
             = fst (snd (resolve_passwords W fleets Map.empty w)) @ rest \<and>
           (\<forall>e\<in>set rest. (\<forall>n. e \<noteq> E_getpass (FleetPasswordPrompt n)) \<and> (\<forall>k. e \<noteq> E_environ k) \<and>
                           (\<forall>q. e \<noteq> E_read_file q))) \<and>
   (\<forall>e\<in>set (fst (snd (resolve_passwords W fleets Map.empty w))).
       (\<forall>s x. e \<noteq> E_connect s x) \<and> (\<forall>s h p. e \<noteq> E_open_channel s h p)) \<and>
   (f \<in> set fleets \<and> fl_password f = Some (''env:'' @ name) \<and>
    (\<forall>w1. op_environ_get W name w1 = None) \<longrightarrow>
      (\<exists>e. fst (main W G args gw fleets w) = Inl e) \<and>
      (\<forall>e\<in>set (fst (snd (main W G args gw fleets w))).
          (\<forall>s x. e \<noteq> E_connect s x) \<and> (\<forall>s h p. e \<noteq> E_open_channel s h p))) \<and>
   (fleets = pre @ f # post \<and> fl_password f = Some (''env:'' @ name) \<and>
    resolve_passwords W pre Map.empty w = (Inr m1, evs1, w1) \<and> op_environ_get W name w1 = None \<longrightarrow>
      main W G args gw fleets w
        = (Inl (Exc OtherException (EnvUnset name (FleetPasswordPrompt (fl_name f)))),
           evs1 @ [E_environ name], w1))"
proof (intro conjI impI)
  obtain rp evs1' w1' where rp: "resolve_passwords W fleets Map.empty w = (rp, evs1', w1')"
    by (cases "resolve_passwords W fleets Map.empty w") auto
  obtain r evs w' where mn: "main W G args gw fleets w = (r, evs, w')"
    by (cases "main W G args gw fleets w") auto
  from main_after_credentials[OF rp mn] rp mn
  show "\<exists>rest. fst (snd (main W G args gw fleets w))
             = fst (snd (resolve_passwords W fleets Map.empty w)) @ rest \<and>
           (\<forall>e\<in>set rest. (\<forall>n. e \<noteq> E_getpass (FleetPasswordPrompt n)) \<and> (\<forall>k. e \<noteq> E_environ k) \<and>
                           (\<forall>q. e \<noteq> E_read_file q))"
    by simp
  from resolve_passwords_no_connection[OF rp] rp
  show "\<forall>e\<in>set (fst (snd (resolve_passwords W fleets Map.empty w))).
       (\<forall>s x. e \<noteq> E_connect s x) \<and> (\<forall>s h p. e \<noteq> E_open_channel s h p)"
    by simp
next
  assume h: "f \<in> set fleets \<and> fl_password f = Some (''env:'' @ name) \<and>
    (\<forall>w1. op_environ_get W name w1 = None)"
  obtain rp evs1' w1' where rp: "resolve_passwords W fleets Map.empty w = (rp, evs1', w1')"
    by (cases "resolve_passwords W fleets Map.empty w") auto
  from h have "\<exists>e. fst (resolve_passwords W fleets Map.empty w) = Inl e"
    by (intro resolve_passwords_env_unset[where f = f and name = name]) simp_all
  with rp obtain e where e: "rp = Inl e" by auto
  from main_resolve_failure[OF rp[unfolded e]]
  have mn: "main W G args gw fleets w = (Inl e, evs1', w1')" .
  from mn show "\<exists>e. fst (main W G args gw fleets w) = Inl e" by simp
  from resolve_passwords_no_connection[OF rp] mn
  show "\<forall>e\<in>set (fst (snd (main W G args gw fleets w))).
          (\<forall>s x. e \<noteq> E_connect s x) \<and> (\<forall>s h p. e \<noteq> E_open_channel s h p)"
    by simp
next
  assume h: "fleets = pre @ f # post \<and> fl_password f = Some (''env:'' @ name) \<and>
    resolve_passwords W pre Map.empty w = (Inr m1, evs1, w1) \<and> op_environ_get W name w1 = None"
  then have "resolve_passwords W fleets Map.empty w
           = (Inl (Exc OtherException (EnvUnset name (FleetPasswordPrompt (fl_name f)))),
              evs1 @ [E_environ name], w1)"
    using resolve_passwords_first_unset[of W pre Map.empty w m1 evs1 w1 f name post] by simp
  then show "main W G args gw fleets w
        = (Inl (Exc OtherException (EnvUnset name (FleetPasswordPrompt (fl_name f)))),
           evs1 @ [E_environ name], w1)"
    by (rule main_resolve_failure)
qed

text \<open>
  A dry run over one fleet whose credential is \<^verbatim>\<open>env:MYPASS\<close>, with no environment variable
  set: the run looks the variable up and is left with the error that names it.
\<close>

theorem credentials_resolved_first_witness:
  "fleet_env \<in> set [fleet_env] \<and> [fleet_env] = [] @ fleet_env # [] \<and>
   fl_password fleet_env = Some (''env:'' @ ''MYPASS'') \<and>
   (\<forall>w1. op_environ_get env_calm ''MYPASS'' w1 = None) \<and>
   resolve_passwords env_calm [] Map.empty 0 = (Inr Map.empty, [], 0) \<and>
   main env_calm default_globals args_dry gw0 [fleet_env] 0
     = (Inl (Exc OtherException (EnvUnset ''MYPASS'' (FleetPasswordPrompt ''ws2''))),
        [E_environ ''MYPASS''], 0) \<and>
   fst (snd (resolve_passwords env_calm [fleet_env] Map.empty 0)) = [E_environ ''MYPASS'']"
proof -
  have a: "fleet_env \<in> set [fleet_env]" "[fleet_env] = [] @ fleet_env # []"
    "fl_password fleet_env = Some (''env:'' @ ''MYPASS'')"
    "\<forall>w1. op_environ_get env_calm ''MYPASS'' w1 = None"
    "resolve_passwords env_calm [] Map.empty 0 = (Inr Map.empty, [], 0)"
    by (simp_all add: fleet_env_def env_calm_def)
  from credentials_resolved_first[of env_calm default_globals args_dry gw0 "[fleet_env]" 0
         fleet_env "''MYPASS''" "[]" "[]" Map.empty "[]" 0] a
  have m: "main env_calm default_globals args_dry gw0 [fleet_env] 0
        = (Inl (Exc OtherException (EnvUnset ''MYPASS'' (FleetPasswordPrompt (fl_name fleet_env)))),
           [] @ [E_environ ''MYPASS''], 0)"
    by blast
  have n: "fl_name fleet_env = ''ws2''" by (simp add: fleet_env_def)
  have r: "fst (snd (resolve_passwords env_calm [fleet_env] Map.empty 0)) = [E_environ ''MYPASS'']"
    by (simp add: resolve_password_def Let_def fleet_env_def env_calm_def)
  from a m n r show ?thesis by simp
qed

text \<open>
  Two fleets: the first with a credential file that cannot be read, the second with the
  credential \<^verbatim>\<open>env:MYPASS\<close> and the variable unset. The run is left with the error of the file;
  the variable is never looked up and no error names it.
\<close>

theorem credentials_error_other_than_variable:
  "fleet_env \<in> set [fleet_file, fleet_env] \<and>
   fl_password fleet_env = Some ''env:MYPASS'' \<and>
   (\<forall>w1. op_environ_get env_no_file ''MYPASS'' w1 = None) \<and>
   main env_no_file default_globals args_dry gw0 [fleet_file, fleet_env] 0
     = (Inl (Exc OtherException (Text ''No such file or directory'')), [E_read_file ''/etc/ws1.pw''], 0)"
  by (simp add: main_def resolve_password_def Let_def fleet_env_def fleet_file_def env_no_file_def env_calm_def)

section \<open>Which failures are absorbed\<close>

text \<open>
  The handlers of the run, one by one: what the handler of a refused gateway does, what the
  handlers of lines 481-491 and 510-519 do with a failed connection, what the \<^verbatim>\<open>finally\<close> block
  of lines 526-538 does when the wait times out, and which exceptions no handler catches.
\<close>

lemma issues_of_none:
  assumes "\<forall>e\<in>set evs. \<forall>i. e \<noteq> E_issue i"
  shows "issues_of evs = []"
  using assms by (induction evs) (auto simp: issues_of_def split: event.splits)

lemma gateway_body_no_direct_connection:
  assumes b: "gateway_body W G args gw fleets m pw gw_conn w = (r, evs, w')"
  shows "\<forall>e\<in>set evs. \<forall>h u p x. e \<noteq> E_connect (SSH h u p None) x"
proof -
  define P where "P = (\<lambda>e. \<forall>h u p x. e \<noteq> E_connect (SSH h u p None) x)"
  have pc: "P (E_connect (SSH h u p (Some c)) x)" "P (E_close s)" "P (E_shutdown_host t s dd)"
    "P (E_exec s cm i)" "P (E_warn_exit t n)" "P (E_run s cm)" "P (E_issue is)"
    "P (E_open_channel s t n)" "P (E_wait s t n ok)" "P (E_protect t t')" "P (E_skipped t)"
    for h u p c s x t dd cm i n "is" ok t'
    by (simp_all add: P_def)
  from gateway_body_cases[OF b] obtain rl evsl wl where
    l: "fleets_loop W G args gw_conn m fleets w = (rl, evsl, wl)"
    and cs2: "(\<exists>e. rl = Inl e \<and> r = Inl e \<and> evs = evsl @ [E_close gw_conn]) \<or>
            (rl = Inr () \<and>
               (\<exists>evs2 w2. shutdown_host W G ''triton'' gw_conn (gw_needs_sudo_password gw) pw
                              (dry_run args) wl = (r, evs2, w2) \<and>
                           evs = evsl @ evs2 @ [E_close gw_conn]))" by blast
  have el: "\<forall>e\<in>set evsl. P e"
    by (rule fleets_loop_events[OF l]) (rule pc)+
  from cs2 have "\<forall>e\<in>set evs. P e"
  proof (elim disjE exE conjE)
    fix e assume "evs = evsl @ [E_close gw_conn]"
    with el pc show ?thesis by auto
  next
    fix evs2 w2
    assume s: "shutdown_host W G ''triton'' gw_conn (gw_needs_sudo_password gw) pw
                              (dry_run args) wl = (r, evs2, w2)"
      and e4: "evs = evsl @ evs2 @ [E_close gw_conn]"
    from shutdown_host_events[OF s] obtain rest where
      rest: "evs2 = E_shutdown_host ''triton'' gw_conn (dry_run args) # rest"
        "\<forall>e\<in>set rest. (\<exists>c i. e = E_exec gw_conn c i) \<or> (\<exists>c. e = E_warn_exit ''triton'' c)" by blast
    from rest(2) pc have "\<forall>e\<in>set rest. P e" by fastforce
    with rest(1) pc have "\<forall>e\<in>set evs2. P e" by simp
    with el e4 pc show ?thesis by auto
  qed
  then show ?thesis unfolding P_def .
qed

lemma main_gateway_refused:
  assumes mn: "main W G args gw fleets w = (r, evs, w')"
    and fail: "E_connect (SSH (gw_host gw) (gw_user gw) (gw_port gw) None) (Some e) \<in> set evs"
  shows "r = Inr () \<and>
         (\<exists>pre. evs = pre @ [E_connect (SSH (gw_host gw) (gw_user gw) (gw_port gw) None) (Some e),
                              E_fatal (fst (classify_failure e None)) (snd (classify_failure e None)) e] \<and>
                (\<forall>x\<in>set pre. (\<exists>p. x = E_getpass p) \<or> (\<exists>k. x = E_environ k) \<or>
                               (\<exists>p. x = E_read_file p) \<or> (\<exists>p. x = E_load_pkey p)))"
proof -
  let ?gwc = "SSH (gw_host gw) (gw_user gw) (gw_port gw) None"
  define L where "L = (\<lambda>x. (\<exists>p. x = E_getpass p) \<or> (\<exists>k. x = E_environ k) \<or>
                               (\<exists>p. x = E_read_file p) \<or> (\<exists>p. x = E_load_pkey p))"
  from main_cases[OF mn] obtain pre where
    pre: "\<forall>x\<in>set pre. L x"
    and cs: "(\<exists>e. r = Inl e \<and> evs = pre) \<or>
            (\<exists>e. r = Inr () \<and>
                 evs = pre @ [E_connect ?gwc (Some e),
                              E_fatal (fst (classify_failure e None)) (snd (classify_failure e None)) e]) \<or>
            (\<exists>m pw evs4 w4.
                 gateway_body W G args gw fleets m pw ?gwc w4 = (r, evs4, w') \<and>
                 evs = pre @ E_connect ?gwc None # evs4)"
    unfolding L_def by blast
  have np: "E_connect ?gwc (Some e) \<notin> set pre"
  proof
    assume "E_connect ?gwc (Some e) \<in> set pre"
    with pre have "L (E_connect ?gwc (Some e))" by blast
    then show False by (simp add: L_def)
  qed
  from cs show ?thesis
  proof (elim disjE exE conjE)
    fix e' assume "evs = pre"
    with fail np show ?thesis by simp
  next
    fix e' assume r: "r = Inr ()"
      and ev: "evs = pre @ [E_connect ?gwc (Some e'),
                           E_fatal (fst (classify_failure e' None)) (snd (classify_failure e' None)) e']"
    from fail ev np have "e' = e" by auto
    with r ev pre show ?thesis unfolding L_def by blast
  next
    fix m pw evs4 w4
    assume b: "gateway_body W G args gw fleets m pw ?gwc w4 = (r, evs4, w')"
      and ev: "evs = pre @ E_connect ?gwc None # evs4"
    from gateway_body_no_direct_connection[OF b] have "E_connect ?gwc (Some e) \<notin> set evs4" by blast
    with fail ev np show ?thesis by simp
  qed
qed

lemma fleet_failure_absorbed:
  assumes "m (fl_name f) = Some pw" and "fleet_try W G gw_conn f pw w = (Inl e, evs1, w1)"
    and "diagnose_on_remote W G gw_conn (fl_name f) (fl_port f) w1 = (Inr d, evs2, w2)"
  shows "fleets_loop W G args gw_conn m (f # fs) w =
           (case fleets_loop W G args gw_conn m fs w2 of
              (r, evs3, w3) \<Rightarrow>
                (r,
                 evs1 @ evs2 @
                 E_issue \<lparr>issue_stage = ''workstation'', issue_via = ''triton'', issue_target = fl_name f,
                          issue_reason = fst (classify_failure e (Some d)),
                          issue_hint = snd (classify_failure e (Some d)),
                          issue_diag = d, issue_error = msg e\<rparr> # evs3,
                 w3))"
  using assms by (simp add: process_fleet_def fleet_except_def split: prod.splits)

lemma node_failure_absorbed:
  assumes "node_try W G f pw ws node w = (Inl e, evs1, w1)"
    and "diagnose_on_remote W G ws node (fl_port f) w1 = (Inr d, evs2, w2)"
  shows "nodes_loop W G args f pw ws (node # nodes) ps w =
           (case nodes_loop W G args f pw ws nodes
                   (if \<not> dry_run args \<and> \<not> non_strict args then True else ps) w2 of
              (r, evs3, w3) \<Rightarrow>
                (r,
                 evs1 @ evs2 @
                 E_issue \<lparr>issue_stage = ''node'', issue_via = fl_name f, issue_target = node,
                          issue_reason = fst (classify_failure e (Some d)),
                          issue_hint = snd (classify_failure e (Some d)),
                          issue_diag = d, issue_error = msg e\<rparr> # evs3,
                 w3))"
  using assms by (simp add: process_node_def node_except_def split: prod.splits)

lemma wait_timeout_absorbed:
  assumes live: "\<not> dry_run args"
    and t: "node_try W G f pw ws node w = (Inr node_cli, evs1, w1)"
    and s: "shutdown_host W G node node_cli (fl_needs_sudo_password f) (Some pw) (dry_run args) w1
              = (Inr (), evs2, w2)"
    and wt: "wait_for_host_down_via_transport W ws node (fl_port f)
               (case node_timeout args of None \<Rightarrow> DEFAULT_NODE_SHUTDOWN_TIMEOUT G | Some t \<Rightarrow> t)
               (case poll_interval args of None \<Rightarrow> DEFAULT_POLL_INTERVAL G | Some i \<Rightarrow> i)
               (op_close W node_cli w2) = ((False, finish), evs3, w3)"
  shows "nodes_loop W G args f pw ws (node # nodes) ps w =
           (case nodes_loop W G args f pw ws nodes (if non_strict args then ps else True)
                   (snd (op_sleep W (1 / 5) w3)) of
              (r, evs4, w4) \<Rightarrow>
                (r,
                 evs1 @ evs2 @ E_close node_cli # evs3 @
                 (if non_strict args then [] else [E_protect node (fl_name f)]) @ evs4,
                 w4))"
    and "evs3 = [E_wait ws node (fl_port f) False]"
    and "issues_of (evs2 @ E_close node_cli # evs3) = []"
proof -
  show "nodes_loop W G args f pw ws (node # nodes) ps w =
           (case nodes_loop W G args f pw ws nodes (if non_strict args then ps else True)
                   (snd (op_sleep W (1 / 5) w3)) of
              (r, evs4, w4) \<Rightarrow>
                (r,
                 evs1 @ evs2 @ E_close node_cli # evs3 @
                 (if non_strict args then [] else [E_protect node (fl_name f)]) @ evs4,
                 w4))"
    using live t s wt
    by (simp add: process_node_def node_shutdown_def ssh_close_def split: prod.splits)
  from wt show e3: "evs3 = [E_wait ws node (fl_port f) False]"
    by (auto simp: wait_for_host_down_via_transport_def Let_def split: prod.splits)
  from shutdown_host_events[OF s] have "\<forall>e\<in>set evs2. \<forall>i. e \<noteq> E_issue i" by fastforce
  with e3 have "\<forall>e\<in>set (evs2 @ E_close node_cli # evs3). \<forall>i. e \<noteq> E_issue i" by simp
  then show "issues_of (evs2 @ E_close node_cli # evs3) = []" by (rule issues_of_none)
qed

lemma node_shutdown_exception_leaves:
  assumes t: "node_try W G f pw ws node w = (Inr node_cli, evs1, w1)"
    and s: "fst (shutdown_host W G node node_cli (fl_needs_sudo_password f) (Some pw) (dry_run args) w1) = Inl e"
  shows "fst (nodes_loop W G args f pw ws (node # nodes) ps w) = Inl e"
proof -
  obtain evs2 w2 where
    s2: "shutdown_host W G node node_cli (fl_needs_sudo_password f) (Some pw) (dry_run args) w1
           = (Inl e, evs2, w2)"
    using s by (cases "shutdown_host W G node node_cli (fl_needs_sudo_password f) (Some pw) (dry_run args) w1")
               auto
  have "fst (node_shutdown W G args f pw ws node node_cli ps w1) = Inl e"
    using s2 by (simp add: node_shutdown_def ssh_close_def split: prod.splits)
  then have "fst (process_node W G args f pw ws node ps w) = Inl e"
    using t by (auto simp: process_node_def split: prod.splits)
  then show ?thesis
    by (cases "process_node W G args f pw ws node ps w") simp
qed

lemma node_diagnosis_exception_leaves:
  assumes "node_try W G f pw ws node w = (Inl e, evs1, w1)"
    and "diagnose_on_remote W G ws node (fl_port f) w1 = (Inl e2, evs2, w2)"
  shows "nodes_loop W G args f pw ws (node # nodes) ps w = (Inl e2, evs1 @ evs2, w2)"
  using assms by (simp add: process_node_def node_except_def)

lemma fleet_diagnosis_exception_leaves:
  assumes "m (fl_name f) = Some pw" and "fleet_try W G gw_conn f pw w = (Inl e, evs1, w1)"
    and "diagnose_on_remote W G gw_conn (fl_name f) (fl_port f) w1 = (Inl e2, evs2, w2)"
  shows "fleets_loop W G args gw_conn m (f # fs) w = (Inl e2, evs1 @ evs2, w2)"
  using assms by (simp add: process_fleet_def fleet_except_def)

lemma nodes_exception_leaves_fleets:
  assumes m: "m (fl_name f) = Some pw" and t: "fleet_try W G gw_conn f pw w = (Inr ws, evs1, w1)"
    and n: "fst (nodes_loop W G args f pw ws (fl_nodes f) False w1) = Inl e"
  shows "fst (fleets_loop W G args gw_conn m (f # fs) w) = Inl e"
proof -
  obtain evs2 w2 where
    n2: "nodes_loop W G args f pw ws (fl_nodes f) False w1 = (Inl e, evs2, w2)"
    using n by (cases "nodes_loop W G args f pw ws (fl_nodes f) False w1") auto
  have "fst (fleet_body W G args f pw ws w1) = Inl e"
    using n2 by (simp add: fleet_body_def ssh_close_def split: prod.splits)
  then have "fst (process_fleet W G args gw_conn m f w) = Inl e"
    using m t by (auto simp: process_fleet_def split: prod.splits)
  then show ?thesis
    by (cases "process_fleet W G args gw_conn m f w") simp
qed

text \<open>
  C3, as the code has it, in eight parts. (1) If the connection to the gateway fails, \<^verbatim>\<open>main\<close>
  returns normally and its actions are the prompts and the key, the failed connection and the
  classified fatal report, and nothing else: no fleet is touched. (2) If the connection to a
  fleet host fails and the diagnosis run by the handler returns, the loop over the fleets
  appends one issue of stage \<^verbatim>\<open>workstation\<close>, classified from the exception and the diagnosis,
  and goes on with the next fleet. (3) If the connection to a node fails and the diagnosis run
  by the handler returns, the loop over the nodes appends one issue of stage \<^verbatim>\<open>node\<close>, sets
  \<^verbatim>\<open>parent_skip\<close> outside dry-run and non-strict mode, and goes on with the next node. (4) If,
  outside dry-run, the node's shutdown returned and the wait times out, the loop closes the
  node's session, sets \<^verbatim>\<open>parent_skip\<close> and reports the protection in strict mode, and goes on
  with the next node; the shutdown, the close and the wait append no issue. (5) An exception
  of the node's \<^verbatim>\<open>shutdown_host\<close> leaves the loop over the nodes. (6) An exception of the
  diagnosis run by the handler of a failed node connection leaves the loop over the nodes, and
  (7) one of the diagnosis run by the handler of a failed fleet connection leaves the loop over
  the fleets; in both cases no issue is appended. (8) An exception that leaves the loop over the
  nodes of a fleet leaves the loop over the fleets.
\<close>

theorem failures_absorbed:
  "(E_connect (SSH (gw_host gw) (gw_user gw) (gw_port gw) None) (Some e)
      \<in> set (fst (snd (main W G args gw fleets w))) \<longrightarrow>
      fst (main W G args gw fleets w) = Inr () \<and>
      (\<exists>pre. fst (snd (main W G args gw fleets w))
               = pre @ [E_connect (SSH (gw_host gw) (gw_user gw) (gw_port gw) None) (Some e),
                        E_fatal (fst (classify_failure e None)) (snd (classify_failure e None)) e] \<and>
             (\<forall>x\<in>set pre. (\<exists>p. x = E_getpass p) \<or> (\<exists>k. x = E_environ k) \<or>
                            (\<exists>p. x = E_read_file p) \<or> (\<exists>p. x = E_load_pkey p)))) \<and>
   (m (fl_name f) = Some pw \<and> fleet_try W G gw_conn f pw w = (Inl e, evs1, w1) \<and>
    diagnose_on_remote W G gw_conn (fl_name f) (fl_port f) w1 = (Inr d, evs2, w2) \<longrightarrow>
      fleets_loop W G args gw_conn m (f # fs) w =
        (case fleets_loop W G args gw_conn m fs w2 of
           (r, evs3, w3) \<Rightarrow>
             (r,
              evs1 @ evs2 @
              E_issue \<lparr>issue_stage = ''workstation'', issue_via = ''triton'', issue_target = fl_name f,
                       issue_reason = fst (classify_failure e (Some d)),
                       issue_hint = snd (classify_failure e (Some d)),
                       issue_diag = d, issue_error = msg e\<rparr> # evs3,
              w3))) \<and>
   (node_try W G f pw ws node w = (Inl e, evs1, w1) \<and>
    diagnose_on_remote W G ws node (fl_port f) w1 = (Inr d, evs2, w2) \<longrightarrow>
      nodes_loop W G args f pw ws (node # nodes) ps w =
        (case nodes_loop W G args f pw ws nodes
                (if \<not> dry_run args \<and> \<not> non_strict args then True else ps) w2 of
           (r, evs3, w3) \<Rightarrow>
             (r,
              evs1 @ evs2 @
              E_issue \<lparr>issue_stage = ''node'', issue_via = fl_name f, issue_target = node,
                       issue_reason = fst (classify_failure e (Some d)),
                       issue_hint = snd (classify_failure e (Some d)),
                       issue_diag = d, issue_error = msg e\<rparr> # evs3,
              w3))) \<and>
   (\<not> dry_run args \<and> node_try W G f pw ws node w = (Inr node_cli, evs1, w1) \<and>
    shutdown_host W G node node_cli (fl_needs_sudo_password f) (Some pw) (dry_run args) w1
      = (Inr (), evs2, w2) \<and>
    wait_for_host_down_via_transport W ws node (fl_port f)
       (case node_timeout args of None \<Rightarrow> DEFAULT_NODE_SHUTDOWN_TIMEOUT G | Some t \<Rightarrow> t)
       (case poll_interval args of None \<Rightarrow> DEFAULT_POLL_INTERVAL G | Some i \<Rightarrow> i)
       (op_close W node_cli w2) = ((False, finish), evs3, w3) \<longrightarrow>
      nodes_loop W G args f pw ws (node # nodes) ps w =
        (case nodes_loop W G args f pw ws nodes (if non_strict args then ps else True)
                (snd (op_sleep W (1 / 5) w3)) of
           (r, evs4, w4) \<Rightarrow>
             (r,
              evs1 @ evs2 @ E_close node_cli # evs3 @
              (if non_strict args then [] else [E_protect node (fl_name f)]) @ evs4,
              w4)) \<and>
      evs3 = [E_wait ws node (fl_port f) False] \<and>
      issues_of (evs2 @ E_close node_cli # evs3) = []) \<and>
   (node_try W G f pw ws node w = (Inr node_cli, evs1, w1) \<and>
    fst (shutdown_host W G node node_cli (fl_needs_sudo_password f) (Some pw) (dry_run args) w1) = Inl e \<longrightarrow>
      fst (nodes_loop W G args f pw ws (node # nodes) ps w) = Inl e) \<and>
   (node_try W G f pw ws node w = (Inl e, evs1, w1) \<and>
    diagnose_on_remote W G ws node (fl_port f) w1 = (Inl e2, evs2, w2) \<longrightarrow>
      nodes_loop W G args f pw ws (node # nodes) ps w = (Inl e2, evs1 @ evs2, w2)) \<and>
   (m (fl_name f) = Some pw \<and> fleet_try W G gw_conn f pw w = (Inl e, evs1, w1) \<and>
    diagnose_on_remote W G gw_conn (fl_name f) (fl_port f) w1 = (Inl e2, evs2, w2) \<longrightarrow>
      fleets_loop W G args gw_conn m (f # fs) w = (Inl e2, evs1 @ evs2, w2)) \<and>
   (m (fl_name f) = Some pw \<and> fleet_try W G gw_conn f pw w = (Inr ws, evs1, w1) \<and>
    fst (nodes_loop W G args f pw ws (fl_nodes f) False w1) = Inl e \<longrightarrow>
      fst (fleets_loop W G args gw_conn m (f # fs) w) = Inl e)"
proof (intro conjI impI)
  assume a: "E_connect (SSH (gw_host gw) (gw_user gw) (gw_port gw) None) (Some e)
      \<in> set (fst (snd (main W G args gw fleets w)))"
  obtain r evs w' where mn: "main W G args gw fleets w = (r, evs, w')"
    by (cases "main W G args gw fleets w") auto
  from a mn have "E_connect (SSH (gw_host gw) (gw_user gw) (gw_port gw) None) (Some e) \<in> set evs"
    by simp
  note g = main_gateway_refused[OF mn this]
  from g mn show "fst (main W G args gw fleets w) = Inr ()" by simp
  from g mn show "\<exists>pre. fst (snd (main W G args gw fleets w))
               = pre @ [E_connect (SSH (gw_host gw) (gw_user gw) (gw_port gw) None) (Some e),
                        E_fatal (fst (classify_failure e None)) (snd (classify_failure e None)) e] \<and>
             (\<forall>x\<in>set pre. (\<exists>p. x = E_getpass p) \<or> (\<exists>k. x = E_environ k) \<or>
                            (\<exists>p. x = E_read_file p) \<or> (\<exists>p. x = E_load_pkey p))"
    by simp
next
  assume h: "m (fl_name f) = Some pw \<and> fleet_try W G gw_conn f pw w = (Inl e, evs1, w1) \<and>
    diagnose_on_remote W G gw_conn (fl_name f) (fl_port f) w1 = (Inr d, evs2, w2)"
  show "fleets_loop W G args gw_conn m (f # fs) w =
        (case fleets_loop W G args gw_conn m fs w2 of
           (r, evs3, w3) \<Rightarrow>
             (r,
              evs1 @ evs2 @
              E_issue \<lparr>issue_stage = ''workstation'', issue_via = ''triton'', issue_target = fl_name f,
                       issue_reason = fst (classify_failure e (Some d)),
                       issue_hint = snd (classify_failure e (Some d)),
                       issue_diag = d, issue_error = msg e\<rparr> # evs3,
              w3))"
    by (rule fleet_failure_absorbed[where m = m and f = f and pw = pw,
          OF conjunct1[OF h] conjunct1[OF conjunct2[OF h]] conjunct2[OF conjunct2[OF h]]])
next
  assume h: "node_try W G f pw ws node w = (Inl e, evs1, w1) \<and>
    diagnose_on_remote W G ws node (fl_port f) w1 = (Inr d, evs2, w2)"
  show "nodes_loop W G args f pw ws (node # nodes) ps w =
        (case nodes_loop W G args f pw ws nodes
                (if \<not> dry_run args \<and> \<not> non_strict args then True else ps) w2 of
           (r, evs3, w3) \<Rightarrow>
             (r,
              evs1 @ evs2 @
              E_issue \<lparr>issue_stage = ''node'', issue_via = fl_name f, issue_target = node,
                       issue_reason = fst (classify_failure e (Some d)),
                       issue_hint = snd (classify_failure e (Some d)),
                       issue_diag = d, issue_error = msg e\<rparr> # evs3,
              w3))"
    by (rule node_failure_absorbed[OF conjunct1[OF h] conjunct2[OF h]])
next
  assume h: "\<not> dry_run args \<and> node_try W G f pw ws node w = (Inr node_cli, evs1, w1) \<and>
    shutdown_host W G node node_cli (fl_needs_sudo_password f) (Some pw) (dry_run args) w1
      = (Inr (), evs2, w2) \<and>
    wait_for_host_down_via_transport W ws node (fl_port f)
       (case node_timeout args of None \<Rightarrow> DEFAULT_NODE_SHUTDOWN_TIMEOUT G | Some t \<Rightarrow> t)
       (case poll_interval args of None \<Rightarrow> DEFAULT_POLL_INTERVAL G | Some i \<Rightarrow> i)
       (op_close W node_cli w2) = ((False, finish), evs3, w3)"
  note h1 = conjunct1[OF h] and h2 = conjunct1[OF conjunct2[OF h]]
    and h3 = conjunct1[OF conjunct2[OF conjunct2[OF h]]]
    and h4 = conjunct2[OF conjunct2[OF conjunct2[OF h]]]
  show "nodes_loop W G args f pw ws (node # nodes) ps w =
        (case nodes_loop W G args f pw ws nodes (if non_strict args then ps else True)
                (snd (op_sleep W (1 / 5) w3)) of
           (r, evs4, w4) \<Rightarrow>
             (r,
              evs1 @ evs2 @ E_close node_cli # evs3 @
              (if non_strict args then [] else [E_protect node (fl_name f)]) @ evs4,
              w4))"
    by (rule wait_timeout_absorbed(1)[OF h1 h2 h3 h4])
  show "evs3 = [E_wait ws node (fl_port f) False]"
    by (rule wait_timeout_absorbed(2)[OF h1 h2 h3 h4])
  show "issues_of (evs2 @ E_close node_cli # evs3) = []"
    by (rule wait_timeout_absorbed(3)[OF h1 h2 h3 h4])
next
  assume h: "node_try W G f pw ws node w = (Inr node_cli, evs1, w1) \<and>
    fst (shutdown_host W G node node_cli (fl_needs_sudo_password f) (Some pw) (dry_run args) w1) = Inl e"
  show "fst (nodes_loop W G args f pw ws (node # nodes) ps w) = Inl e"
    by (rule node_shutdown_exception_leaves[OF conjunct1[OF h] conjunct2[OF h]])
next
  assume h: "node_try W G f pw ws node w = (Inl e, evs1, w1) \<and>
    diagnose_on_remote W G ws node (fl_port f) w1 = (Inl e2, evs2, w2)"
  show "nodes_loop W G args f pw ws (node # nodes) ps w = (Inl e2, evs1 @ evs2, w2)"
    by (rule node_diagnosis_exception_leaves[OF conjunct1[OF h] conjunct2[OF h]])
next
  assume h: "m (fl_name f) = Some pw \<and> fleet_try W G gw_conn f pw w = (Inl e, evs1, w1) \<and>
    diagnose_on_remote W G gw_conn (fl_name f) (fl_port f) w1 = (Inl e2, evs2, w2)"
  show "fleets_loop W G args gw_conn m (f # fs) w = (Inl e2, evs1 @ evs2, w2)"
    by (rule fleet_diagnosis_exception_leaves[where m = m and f = f and pw = pw,
          OF conjunct1[OF h] conjunct1[OF conjunct2[OF h]] conjunct2[OF conjunct2[OF h]]])
next
  assume h: "m (fl_name f) = Some pw \<and> fleet_try W G gw_conn f pw w = (Inr ws, evs1, w1) \<and>
    fst (nodes_loop W G args f pw ws (fl_nodes f) False w1) = Inl e"
  show "fst (fleets_loop W G args gw_conn m (f # fs) w) = Inl e"
    by (rule nodes_exception_leaves_fleets[where m = m and f = f and pw = pw,
          OF conjunct1[OF h] conjunct1[OF conjunct2[OF h]] conjunct2[OF conjunct2[OF h]]])
qed

text \<open>
  C3 as stated fails in two ways. An exception does cross the node and fleet boundaries: when
  the power-off command sent to a node raises, or when the session of the fleet host is dead so
  that the diagnosis of the handler raises too, the exception leaves \<^verbatim>\<open>main\<close>, in the second
  run without any issue recorded. And a confirmation timeout is not absorbed into an issue: with
  a node that stays up the wait times out, the run returns, and the list of issues is empty.
\<close>

theorem failures_not_all_absorbed:
  "fst (main env_shutdown_drops default_globals args_live_fast gw0 [fleet1] 0)
     = Inl (Exc SSHException (Text ''Channel closed.'')) \<and>
   fst (main env_dead_session default_globals args_live_fast gw0 [fleet1] 0)
     = Inl (Exc SSHException (Text ''SSH session not active'')) \<and>
   issues_of (fst (snd (main env_dead_session default_globals args_live_fast gw0 [fleet1] 0))) = [] \<and>
   fst (main env_stays_up default_globals args_live_fast gw0 [fleet1] 0) = Inr () \<and>
   E_wait ws0 ''node1'' 22 False
     \<in> set (fst (snd (main env_stays_up default_globals args_live_fast gw0 [fleet1] 0))) \<and>
   issues_of (fst (snd (main env_stays_up default_globals args_live_fast gw0 [fleet1] 0))) = []"
proof (intro conjI)
  show "fst (main env_shutdown_drops default_globals args_live_fast gw0 [fleet1] 0)
     = Inl (Exc SSHException (Text ''Channel closed.''))"
    by (simp add: run_defs_answer example_defs)
  show "fst (main env_dead_session default_globals args_live_fast gw0 [fleet1] 0)
     = Inl (Exc SSHException (Text ''SSH session not active''))"
    by (simp add: run_defs example_defs)
  show "issues_of (fst (snd (main env_dead_session default_globals args_live_fast gw0 [fleet1] 0))) = []"
    by (simp add: run_defs example_defs issues_of_def)
  show "fst (main env_stays_up default_globals args_live_fast gw0 [fleet1] 0) = Inr ()"
    by (simp add: run_defs_answer example_defs)
  show "E_wait ws0 ''node1'' 22 False
     \<in> set (fst (snd (main env_stays_up default_globals args_live_fast gw0 [fleet1] 0)))"
    by (simp add: run_defs_answer example_defs)
  show "issues_of (fst (snd (main env_stays_up default_globals args_live_fast gw0 [fleet1] 0))) = []"
    by (simp add: run_defs_answer example_defs issues_of_def)
qed

text \<open>
  One run for each part: a gateway that refuses the key; two fleet hosts that cannot be reached;
  two nodes that reject the password; a node that stays up after its shutdown; a power-off
  command that raises; a dead session of the fleet host; a dead session of the gateway; and the
  exception of the power-off command again, leaving the loop over the fleets.
\<close>

theorem failures_absorbed_witness:
  "E_connect gw_conn0 (Some (Exc AuthenticationException (Text ''Authentication failed.'')))
     \<in> set (fst (snd (main env_gateway_refuses default_globals args_live gw0 [fleet1] 0))) \<and>
   fst (main env_gateway_refuses default_globals args_live gw0 [fleet1] 0) = Inr () \<and>
   fst (fleet_try env_target_down default_globals gw_conn0 fleet1 ''pw'' 0)
     = Inl (Exc ChannelException (Text ''Connect failed'')) \<and>
   fst (fleets_loop env_target_down default_globals args_live gw_conn0
          [''ws1'' \<mapsto> ''pw'', ''ws2'' \<mapsto> ''pw2''] [fleet1, fleet2] 0) = Inr () \<and>
   map issue_target (issues_of (fst (snd (fleets_loop env_target_down default_globals args_live gw_conn0
          [''ws1'' \<mapsto> ''pw'', ''ws2'' \<mapsto> ''pw2''] [fleet1, fleet2] 0)))) = [''ws1'', ''ws2''] \<and>
   fst (node_try env_node_rejects default_globals fleet1 ''pw'' ws0 ''node1'' 0)
     = Inl (Exc AuthenticationException (Text ''Authentication failed.'')) \<and>
   fst (nodes_loop env_node_rejects default_globals args_live fleet1 ''pw'' ws0 [''node1'', ''node9''] False 0)
     = Inr True \<and>
   map issue_stage (issues_of (fst (snd
       (nodes_loop env_node_rejects default_globals args_live fleet1 ''pw'' ws0 [''node1'', ''node9''] False 0))))
     = [''node(precheck)'', ''node'', ''node(precheck)'', ''node''] \<and>
   fst (wait_for_host_down_via_transport env_calm ws0 ''node1'' 22 1 1 0) = (False, 1) \<and>
   fst (nodes_loop env_calm default_globals args_live_fast fleet1 ''pw'' ws0 [''node1''] False 0) = Inr True \<and>
   map issue_stage (issues_of (fst (snd
       (nodes_loop env_calm default_globals args_live_fast fleet1 ''pw'' ws0 [''node1''] False 0))))
     = [''node(precheck)''] \<and>
   fst (shutdown_host env_shutdown_drops default_globals ''node1'' (node_ssh fleet1 ws0 ''node1'') True
          (Some ''pw'') False 0) = Inl (Exc SSHException (Text ''Channel closed.'')) \<and>
   fst (nodes_loop env_shutdown_drops default_globals args_live_fast fleet1 ''pw'' ws0 [''node1'', ''node9''] False 0)
     = Inl (Exc SSHException (Text ''Channel closed.'')) \<and>
   nodes_loop env_dead_session default_globals args_live fleet1 ''pw'' ws0 [''node1'', ''node9''] False 0
     = (Inl (Exc SSHException (Text ''SSH session not active'')),
        [E_run ws0 (Getent_hosts ''node1''), E_run ws0 (Getent_hosts ''node1'')], 0) \<and>
   fleets_loop env_hop_lost default_globals args_live gw_conn0
       [''ws1'' \<mapsto> ''pw'', ''ws2'' \<mapsto> ''pw2''] [fleet1, fleet2] 0
     = (Inl (Exc SSHException (Text ''SSH session not active'')),
        [E_open_channel gw_conn0 ''ws1'' 22, E_run gw_conn0 (Getent_hosts ''ws1'')], 0) \<and>
   fst (fleets_loop env_shutdown_drops default_globals args_live_fast gw_conn0
          [''ws1'' \<mapsto> ''pw'', ''ws2'' \<mapsto> ''pw2''] [fleet1, fleet2] 0)
     = Inl (Exc SSHException (Text ''Channel closed.''))"
proof -
  let ?m = "[''ws1'' \<mapsto> ''pw'', ''ws2'' \<mapsto> ''pw2'']"
  let ?node = "node_ssh fleet1 ws0 ''node1''"
  let ?auth = "Exc AuthenticationException (Text ''Authentication failed.'')"
  let ?chan = "Exc ChannelException (Text ''Connect failed'')"
  let ?closed = "Exc SSHException (Text ''Channel closed.'')"
  let ?dead = "Exc SSHException (Text ''SSH session not active'')"
  let ?d = "\<lparr>dns_ok = Some False, dns_ips = [], tcp_ok = Some False, tcp_method = Some ''nc|/dev/tcp'',
            diag_notes = [Note_dns_failed]\<rparr>"
  \<comment> \<open>the gateway refuses\<close>
  let ?A = "main env_gateway_refuses default_globals args_live gw0 [fleet1] 0"
  have hA: "E_connect (SSH (gw_host gw0) (gw_user gw0) (gw_port gw0) None) (Some ?auth) \<in> set (fst (snd ?A))"
    by (simp add: run_defs example_defs)
  have hA': "E_connect gw_conn0 (Some ?auth) \<in> set (fst (snd ?A))"
    by (simp add: run_defs example_defs)
  note cA = failures_absorbed[where W = env_gateway_refuses and G = default_globals and args = args_live
      and gw = gw0 and fleets = "[fleet1]" and w = 0 and e = ?auth,
      THEN conjunct1, THEN mp, OF hA, THEN conjunct1]
  \<comment> \<open>a fleet host that cannot be reached\<close>
  let ?Bt = "fleet_try env_target_down default_globals gw_conn0 fleet1 ''pw'' 0"
  let ?Bd = "diagnose_on_remote env_target_down default_globals gw_conn0 (fl_name fleet1) (fl_port fleet1) 0"
  let ?B = "fleets_loop env_target_down default_globals args_live gw_conn0 ?m [fleet1, fleet2] 0"
  have hB1: "fst ?Bt = Inl ?chan" by (simp add: run_defs example_defs)
  have hB: "?m (fl_name fleet1) = Some ''pw'' \<and> ?Bt = (Inl ?chan, fst (snd ?Bt), 0) \<and>
            ?Bd = (Inr ?d, fst (snd ?Bd), 0)"
    by (simp add: run_defs example_defs)
  note cB = failures_absorbed[where W = env_target_down and G = default_globals and args = args_live
      and gw_conn = gw_conn0 and m = ?m and f = fleet1 and pw = "''pw''" and fs = "[fleet2]" and w = 0
      and e = ?chan and ?evs1.0 = "fst (snd ?Bt)" and ?w1.0 = 0 and d = ?d and ?evs2.0 = "fst (snd ?Bd)"
      and ?w2.0 = 0,
      THEN conjunct2, THEN conjunct1, THEN mp, OF hB]
  have fB: "fst ?B = Inr ()" "map issue_target (issues_of (fst (snd ?B))) = [''ws1'', ''ws2'']"
    unfolding cB by (simp_all add: run_defs example_defs issues_of_def)
  \<comment> \<open>a node that rejects the password\<close>
  let ?Ct = "node_try env_node_rejects default_globals fleet1 ''pw'' ws0 ''node1'' 0"
  let ?Cd = "diagnose_on_remote env_node_rejects default_globals ws0 ''node1'' (fl_port fleet1) 0"
  let ?C = "nodes_loop env_node_rejects default_globals args_live fleet1 ''pw'' ws0 [''node1'', ''node9''] False 0"
  have hC1: "fst ?Ct = Inl ?auth" by (simp add: run_defs example_defs)
  have hC: "?Ct = (Inl ?auth, fst (snd ?Ct), 0) \<and> ?Cd = (Inr ?d, fst (snd ?Cd), 0)"
    by (simp add: run_defs example_defs)
  note cC = failures_absorbed[where W = env_node_rejects and G = default_globals and args = args_live
      and f = fleet1 and pw = "''pw''" and ws = ws0 and node = "''node1''" and nodes = "[''node9'']"
      and ps = False and w = 0
      and e = ?auth and ?evs1.0 = "fst (snd ?Ct)" and ?w1.0 = 0 and d = ?d and ?evs2.0 = "fst (snd ?Cd)"
      and ?w2.0 = 0,
      THEN conjunct2, THEN conjunct2, THEN conjunct1, THEN mp, OF hC]
  have fC: "fst ?C = Inr True"
    "map issue_stage (issues_of (fst (snd ?C))) = [''node(precheck)'', ''node'', ''node(precheck)'', ''node'']"
    unfolding cC by (simp_all add: run_defs example_defs issues_of_def)
  \<comment> \<open>a node that stays up\<close>
  let ?Dt = "node_try env_calm default_globals fleet1 ''pw'' ws0 ''node1'' 0"
  let ?Ds = "shutdown_host env_calm default_globals ''node1'' ?node (fl_needs_sudo_password fleet1)
               (Some ''pw'') (dry_run args_live_fast) 0"
  let ?Dw = "wait_for_host_down_via_transport env_calm ws0 ''node1'' (fl_port fleet1)
               (case node_timeout args_live_fast of None \<Rightarrow> DEFAULT_NODE_SHUTDOWN_TIMEOUT default_globals
                | Some t \<Rightarrow> t)
               (case poll_interval args_live_fast of None \<Rightarrow> DEFAULT_POLL_INTERVAL default_globals
                | Some i \<Rightarrow> i)
               (op_close env_calm ?node 0)"
  let ?D = "nodes_loop env_calm default_globals args_live_fast fleet1 ''pw'' ws0 [''node1''] False 0"
  have hD1: "fst (wait_for_host_down_via_transport env_calm ws0 ''node1'' 22 1 1 0) = (False, 1)"
    by (simp add: run_defs example_defs)
  have hD: "\<not> dry_run args_live_fast \<and> ?Dt = (Inr ?node, fst (snd ?Dt), 0) \<and>
            ?Ds = (Inr (), fst (snd ?Ds), 0) \<and> ?Dw = ((False, 1), fst (snd ?Dw), 0)"
    by (simp add: run_defs example_defs)
  note cD = failures_absorbed[where W = env_calm and G = default_globals and args = args_live_fast
      and f = fleet1 and pw = "''pw''" and ws = ws0 and node = "''node1''" and nodes = "[]"
      and ps = False and w = 0 and node_cli = ?node
      and ?evs1.0 = "fst (snd ?Dt)" and ?w1.0 = 0 and ?evs2.0 = "fst (snd ?Ds)" and ?w2.0 = 0
      and finish = 1 and ?evs3.0 = "fst (snd ?Dw)" and ?w3.0 = 0,
      THEN conjunct2, THEN conjunct2, THEN conjunct2, THEN conjunct1, THEN mp, OF hD, THEN conjunct1]
  have fD: "fst ?D = Inr True"
    "map issue_stage (issues_of (fst (snd ?D))) = [''node(precheck)'']"
    unfolding cD by (simp_all add: run_defs example_defs issues_of_def)
  \<comment> \<open>the power-off command raises\<close>
  let ?Et = "node_try env_shutdown_drops default_globals fleet1 ''pw'' ws0 ''node1'' 0"
  let ?E = "nodes_loop env_shutdown_drops default_globals args_live_fast fleet1 ''pw'' ws0
              [''node1'', ''node9''] False 0"
  have hE1: "fst (shutdown_host env_shutdown_drops default_globals ''node1'' ?node True
               (Some ''pw'') False 0) = Inl ?closed"
    by (simp add: run_defs_answer example_defs)
  have hE: "?Et = (Inr ?node, fst (snd ?Et), 0) \<and>
            fst (shutdown_host env_shutdown_drops default_globals ''node1'' ?node
                   (fl_needs_sudo_password fleet1) (Some ''pw'') (dry_run args_live_fast) 0) = Inl ?closed"
    by (simp add: run_defs_answer example_defs)
  note cE = failures_absorbed[where W = env_shutdown_drops and G = default_globals and args = args_live_fast
      and f = fleet1 and pw = "''pw''" and ws = ws0 and node = "''node1''" and nodes = "[''node9'']"
      and ps = False and w = 0 and node_cli = ?node and e = ?closed
      and ?evs1.0 = "fst (snd ?Et)" and ?w1.0 = 0,
      THEN conjunct2, THEN conjunct2, THEN conjunct2, THEN conjunct2, THEN conjunct1, THEN mp, OF hE]
  \<comment> \<open>the diagnosis of a failed node connection raises\<close>
  let ?Ft = "node_try env_dead_session default_globals fleet1 ''pw'' ws0 ''node1'' 0"
  let ?Fd = "diagnose_on_remote env_dead_session default_globals ws0 ''node1'' (fl_port fleet1) 0"
  have hF: "?Ft = (Inl ?dead, [E_run ws0 (Getent_hosts ''node1'')], 0) \<and>
            ?Fd = (Inl ?dead, [E_run ws0 (Getent_hosts ''node1'')], 0)"
    by (simp add: run_defs example_defs)
  note cF = failures_absorbed[where W = env_dead_session and G = default_globals and args = args_live
      and f = fleet1 and pw = "''pw''" and ws = ws0 and node = "''node1''" and nodes = "[''node9'']"
      and ps = False and w = 0 and e = ?dead and ?e2.0 = ?dead
      and ?evs1.0 = "[E_run ws0 (Getent_hosts ''node1'')]" and ?w1.0 = 0
      and ?evs2.0 = "[E_run ws0 (Getent_hosts ''node1'')]" and ?w2.0 = 0,
      THEN conjunct2, THEN conjunct2, THEN conjunct2, THEN conjunct2, THEN conjunct2, THEN conjunct1,
      THEN mp, OF hF]
  \<comment> \<open>the diagnosis of a failed fleet connection raises\<close>
  let ?Gt = "fleet_try env_hop_lost default_globals gw_conn0 fleet1 ''pw'' 0"
  let ?Gd = "diagnose_on_remote env_hop_lost default_globals gw_conn0 (fl_name fleet1) (fl_port fleet1) 0"
  have hG: "?m (fl_name fleet1) = Some ''pw'' \<and>
            ?Gt = (Inl ?chan, [E_open_channel gw_conn0 ''ws1'' 22], 0) \<and>
            ?Gd = (Inl ?dead, [E_run gw_conn0 (Getent_hosts ''ws1'')], 0)"
    by (simp add: run_defs example_defs)
  note cG = failures_absorbed[where W = env_hop_lost and G = default_globals and args = args_live
      and gw_conn = gw_conn0 and m = ?m and f = fleet1 and pw = "''pw''" and fs = "[fleet2]" and w = 0
      and e = ?chan and ?e2.0 = ?dead
      and ?evs1.0 = "[E_open_channel gw_conn0 ''ws1'' 22]" and ?w1.0 = 0
      and ?evs2.0 = "[E_run gw_conn0 (Getent_hosts ''ws1'')]" and ?w2.0 = 0,
      THEN conjunct2, THEN conjunct2, THEN conjunct2, THEN conjunct2, THEN conjunct2, THEN conjunct2,
      THEN conjunct1, THEN mp, OF hG]
  \<comment> \<open>an exception that leaves the loop over the nodes\<close>
  let ?Ht = "fleet_try env_shutdown_drops default_globals gw_conn0 fleet1 ''pw'' 0"
  have hH: "?m (fl_name fleet1) = Some ''pw'' \<and> ?Ht = (Inr ws0, fst (snd ?Ht), 0) \<and>
            fst (nodes_loop env_shutdown_drops default_globals args_live_fast fleet1 ''pw'' ws0
                   (fl_nodes fleet1) False 0) = Inl ?closed"
    by (simp add: run_defs_answer example_defs)
  note cH = failures_absorbed[where W = env_shutdown_drops and G = default_globals and args = args_live_fast
      and gw_conn = gw_conn0 and m = ?m and f = fleet1 and pw = "''pw''" and fs = "[fleet2]" and w = 0
      and ws = ws0 and e = ?closed and ?evs1.0 = "fst (snd ?Ht)" and ?w1.0 = 0,
      THEN conjunct2, THEN conjunct2, THEN conjunct2, THEN conjunct2, THEN conjunct2, THEN conjunct2,
      THEN conjunct2, THEN mp, OF hH]
  have fF: "nodes_loop env_dead_session default_globals args_live fleet1 ''pw'' ws0 [''node1'', ''node9''] False 0
     = (Inl ?dead, [E_run ws0 (Getent_hosts ''node1''), E_run ws0 (Getent_hosts ''node1'')], 0)"
    using cF by simp
  have fG: "fleets_loop env_hop_lost default_globals args_live gw_conn0 ?m [fleet1, fleet2] 0
     = (Inl ?dead, [E_open_channel gw_conn0 ''ws1'' 22, E_run gw_conn0 (Getent_hosts ''ws1'')], 0)"
    using cG by simp
  show ?thesis
    by (intro conjI) (rule hA' cA hB1 fB hC1 fC hD1 fD hE1 cE fF fG cH)+
qed

end
